theory Spec2Isabelle
  imports Main "HOL-Library.Word"
begin

section \<open>Values of the JavaScript platform\<close>

text \<open>
  A \<open>Uint8Array\<close> is a list of 8-bit words; a JavaScript string is a list of UTF-16 code
  units. Storing a number into a \<open>Uint8Array\<close> keeps its low eight bits, reading one gives
  a number below 256: both are \<open>ucast\<close>.
\<close>

type_synonym byte = "8 word"
type_synonym unit16 = "16 word"
type_synonym jsstring = "unit16 list"

definition js :: "string \<Rightarrow> jsstring" where
  \<comment> \<open>a string literal of the source\<close>
  "js s = map (\<lambda>c. of_nat (of_char c)) s"

text \<open>An exception object: its \<open>name\<close> and its \<open>message\<close>.\<close>

datatype error = JSError (name: string) (message: string)

definition Error :: "string \<Rightarrow> error" where
  \<comment> \<open>\<open>new Error( msg )\<close>\<close>
  "Error msg = JSError ''Error'' msg"

text \<open>
  What a call of an asynchronous method gives its caller: a promise that resolves, a
  promise that rejects, or an exception thrown before any promise was returned.
\<close>

datatype 'a outcome = Resolved 'a | Rejected error | Thrown error

definition settle :: "error + 'a \<Rightarrow> 'a outcome" where
  \<comment> \<open>the end of a promise chain: an exception inside it is a rejection\<close>
  "settle r = (case r of Inl e \<Rightarrow> Rejected e | Inr v \<Rightarrow> Resolved v)"

text \<open>
  The platform the module runs on. \<open>'o\<close> is the type of the values with
  \<open>typeof v === "object"\<close>, \<open>'k\<close> the type of \<open>CryptoKey\<close> handles. Random choices of the
  platform are read from streams, at a position the caller passes on.
\<close>

datatype alg = AES_CBC | AES_GCM

datatype usage = Encrypt | Decrypt

record ('o, 'k) platform =
  CryptoInterface :: bool
    \<comment> \<open>\<open>window.crypto || window.msCrypto\<close> is there\<close>
  max_arguments :: int
    \<comment> \<open>the number of arguments that the engine passes to a function at most: a call of
        \<open>Function.prototype.apply\<close> with a longer array throws a \<open>RangeError\<close>\<close>
  random_byte :: "nat \<Rightarrow> byte"
    \<comment> \<open>the stream \<open>getRandomValues\<close> reads\<close>
  JSON_stringify :: "'o \<Rightarrow> jsstring"
  JSON_parse :: "jsstring \<Rightarrow> error + 'o"
  data_object :: "jsstring \<Rightarrow> 'o"
    \<comment> \<open>the object literal \<open>{ data: dataString }\<close>\<close>
  data_of :: "'o \<Rightarrow> jsstring option"
    \<comment> \<open>\<open>obj.data\<close> where \<open>obj.hasOwnProperty( "data" )\<close> returns true and the property
        holds a string; \<open>None\<close> where the test fails or throws\<close>
  btoa :: "jsstring \<Rightarrow> error + jsstring"
  atob :: "jsstring \<Rightarrow> error + jsstring"
  digest :: "byte list \<Rightarrow> error + byte list"
    \<comment> \<open>\<open>subtle.digest( "SHA-256", data )\<close>\<close>
  importKey_raw :: "alg \<Rightarrow> byte list \<Rightarrow> error + 'k"
  generateKey_sym :: "alg \<Rightarrow> nat \<Rightarrow> error + 'k"
    \<comment> \<open>the second argument numbers the call: every call draws a fresh key\<close>
  exportKey_raw :: "'k \<Rightarrow> error + byte list"
  encrypt_sym :: "alg \<Rightarrow> byte list \<Rightarrow> 'k \<Rightarrow> byte list \<Rightarrow> error + byte list"
    \<comment> \<open>algorithm, initialisation vector, key, plain text\<close>
  decrypt_sym :: "alg \<Rightarrow> byte list \<Rightarrow> 'k \<Rightarrow> byte list \<Rightarrow> error + byte list"
  encrypt_rsa :: "'k \<Rightarrow> nat \<Rightarrow> byte list \<Rightarrow> error + byte list"
    \<comment> \<open>RSA-OAEP is randomised: the second argument numbers the call\<close>
  decrypt_rsa :: "'k \<Rightarrow> byte list \<Rightarrow> error + byte list"
  generateKey_rsa :: "bool \<Rightarrow> nat \<Rightarrow> error + ('k \<times> 'k)"
    \<comment> \<open>extractable, number of the call; gives the public and the private key\<close>
  exportKey_jwk :: "'k \<Rightarrow> error + 'o"
  importKey_jwk :: "'o \<Rightarrow> bool \<Rightarrow> usage \<Rightarrow> error + 'k"
    \<comment> \<open>the JSON Web Key, extractable, the one key usage\<close>
  jwk_n :: "'o \<Rightarrow> jsstring"
    \<comment> \<open>\<open>"" + jwk.n\<close>\<close>
  public_jwk :: "jsstring \<Rightarrow> 'o"
    \<comment> \<open>the literal \<open>{ alg: "RSA-OAEP-256", e: "AQAB", ext: true, key_ops: ["encrypt"],
        kty: "RSA", n: n }\<close>\<close>

definition getRandomValues :: "('o, 'k) platform \<Rightarrow> nat \<Rightarrow> nat \<Rightarrow> byte list \<times> nat" where
  \<comment> \<open>fills an array of \<open>n\<close> bytes from the stream at \<open>pos\<close>; gives the position after it\<close>
  "getRandomValues P n pos = (map (random_byte P) [pos ..< pos + n], pos + n)"

section \<open>BufferTools\<close>

definition concat_buffers :: "byte list list \<Rightarrow> error + byte list" where
  \<comment> \<open>\<open>BufferTools.concat( ...dataBuffers )\<close>\<close>
  "concat_buffers dataBuffers =
     (if dataBuffers = [] then Inl (Error ''BufferTools.concat(): Invalid arguments'')
      else Inr (concat dataBuffers))"

definition subarray_index :: "'a list \<Rightarrow> int \<Rightarrow> nat" where
  \<comment> \<open>an index of \<open>subarray\<close>: negative ones count from the end, all are clamped\<close>
  "subarray_index xs i =
     (if i < 0 then nat (max (int (length xs) + i) 0) else min (nat i) (length xs))"

definition subarray :: "'a list \<Rightarrow> int \<Rightarrow> int \<Rightarrow> 'a list" where
  "subarray xs b e = take (subarray_index xs e - subarray_index xs b) (drop (subarray_index xs b) xs)"

definition splitInTwo :: "byte list \<Rightarrow> int \<Rightarrow> byte list \<times> byte list" where
  "splitInTwo buf12 splitPos =
     (subarray buf12 0 splitPos, subarray buf12 splitPos (int (length buf12)))"

definition fromAscii :: "jsstring \<Rightarrow> byte list" where
  \<comment> \<open>\<open>buf[i] = dataString.charCodeAt( i )\<close>: the low byte of every code unit\<close>
  "fromAscii dataString = map ucast dataString"

definition fromCharCode :: "byte list \<Rightarrow> jsstring" where
  \<comment> \<open>\<open>String.fromCharCode( c1, c2, ... )\<close>: the string of the character codes\<close>
  "fromCharCode buf = map ucast buf"

definition fromCharCode_apply :: "('o, 'k) platform \<Rightarrow> byte list \<Rightarrow> error + jsstring" where
  \<comment> \<open>\<open>String.fromCharCode.apply( null, buf )\<close>: every byte of the buffer is an argument
      of the call, which the engine refuses where they are too many\<close>
  "fromCharCode_apply P buf =
     (if int (length buf) \<le> max_arguments P then Inr (fromCharCode buf)
      else Inl (JSError ''RangeError'' ''Maximum call stack size exceeded''))"

definition toAscii :: "('o, 'k) platform \<Rightarrow> byte list \<Rightarrow> error + jsstring" where
  \<comment> \<open>the argument is a buffer of bytes, so the test \<open>buf instanceof Uint8Array\<close> holds;
      what is left is \<open>String.fromCharCode.apply( null, new Uint8Array( buf ) )\<close>\<close>
  "toAscii P dataBuffer = fromCharCode_apply P dataBuffer"

definition hex_digits :: jsstring where
  "hex_digits = js ''0123456789abcdef''"

definition toLowerCase_unit :: "unit16 \<Rightarrow> unit16" where
  \<comment> \<open>\<open>toLowerCase\<close> on the letters \<open>A\<close> to \<open>Z\<close>; no other character becomes a
      hexadecimal digit by it\<close>
  "toLowerCase_unit c = (if 0x41 \<le> c \<and> c \<le> 0x5A then c + 0x20 else c)"

definition indexOf :: "'a list \<Rightarrow> 'a \<Rightarrow> nat option" where
  \<comment> \<open>\<open>Array.prototype.indexOf\<close>: \<open>None\<close> is \<open>-1\<close>\<close>
  "indexOf xs x = (if x \<in> set xs then Some (length (takeWhile (\<lambda>y. y \<noteq> x) xs)) else None)"

fun fromHex_loop :: "jsstring \<Rightarrow> error + byte list" where
  "fromHex_loop (c1 # c2 # str) =
     (case (indexOf hex_digits c1, indexOf hex_digits c2) of
        (Some d1, Some d2) \<Rightarrow>
          (case fromHex_loop str of
             Inl e \<Rightarrow> Inl e
           | Inr buf \<Rightarrow> Inr (of_nat (16 * d1 + d2) # buf))
      | _ \<Rightarrow> Inl (Error ''BufferTools.fromHex(): Invalid arguments''))"
| "fromHex_loop [c1] = Inl (Error ''BufferTools.fromHex(): Invalid arguments'')"
| "fromHex_loop [] = Inr []"

definition fromHex :: "jsstring \<Rightarrow> error + byte list" where
  "fromHex dataString =
     (if length dataString mod 2 \<noteq> 0 then Inl (Error ''BufferTools.fromHex(): Invalid arguments'')
      else fromHex_loop (map toLowerCase_unit dataString))"

definition toHex :: "byte list \<Rightarrow> jsstring" where
  "toHex buf = concat (map (\<lambda>b. [hex_digits ! (unat b div 16), hex_digits ! (unat b mod 16)]) buf)"

definition nonNoiseCharacters :: "byte list" where
  \<comment> \<open>\<open>[ "{".charCodeAt( 0 ), "}".charCodeAt( 0 ), 0 ]\<close>\<close>
  "nonNoiseCharacters = [0x7B, 0x7D, 0]"

definition replace_byte :: "byte \<Rightarrow> byte \<Rightarrow> byte list \<Rightarrow> byte list" where
  \<comment> \<open>the inner loop of \<open>fromObject\<close>: every \<open>c\<close> of the buffer becomes \<open>filler\<close>\<close>
  "replace_byte filler c noiseBuffer = map (\<lambda>b. if b = c then filler else b) noiseBuffer"

definition noise_filler :: "byte \<Rightarrow> byte" where
  \<comment> \<open>\<open>noiseConfig[2]\<close>: the third random byte, or 32 where that byte is not a noise
      character itself\<close>
  "noise_filler r = (if indexOf nonNoiseCharacters r = None then r else 32)"

definition noise_length :: "byte \<Rightarrow> byte" where
  \<comment> \<open>\<open>( noiseConfig[k] % 50 ) + 15\<close>\<close>
  "noise_length r = (r mod 50) + 15"

definition fromObject ::
  "('o, 'k) platform \<Rightarrow> nat \<Rightarrow> 'o \<Rightarrow> bool \<Rightarrow> error + (byte list \<times> nat)" where
  "fromObject P pos dataObject addNoise =
     (let dataBuffer = fromAscii (JSON_stringify P dataObject) in
      if addNoise then
        if \<not> CryptoInterface P then Inl (Error ''BufferTools.fromObject(): Missing library'')
        else
          let (noiseConfig, pos1) = getRandomValues P 3 pos;
              n0 = noise_length (noiseConfig ! 0);
              n1 = noise_length (noiseConfig ! 1);
              filler = noise_filler (noiseConfig ! 2);
              (noise, pos2) = getRandomValues P (unat n0 + unat n1) pos1;
              noiseBuffer = fold (replace_byte filler) nonNoiseCharacters noise;
              buf13 = splitInTwo noiseBuffer (uint n0)
          in (case concat_buffers [fst buf13, dataBuffer, snd buf13] of
                Inl e \<Rightarrow> Inl e
              | Inr buf \<Rightarrow> Inr (buf, pos2))
      else Inr (dataBuffer, pos))"

definition line_terminator :: "unit16 \<Rightarrow> bool" where
  \<comment> \<open>the characters the \<open>.\<close> of a regular expression does not match\<close>
  "line_terminator c = (c = 0x0A \<or> c = 0x0D \<or> c = 0x2028 \<or> c = 0x2029)"

definition match_object :: "jsstring \<Rightarrow> jsstring option" where
  \<comment> \<open>the group of \<open>/^[^{]*({.+})[^}]*$/\<close>: nothing before the group holds a \<open>{\<close> and nothing
      after it a \<open>}\<close>, so it runs from the first \<open>{\<close> to the last \<open>}\<close>; \<open>.+\<close> asks for at
      least one character between them and for no line terminator there\<close>
  "match_object s =
     (let rest = dropWhile (\<lambda>c. c \<noteq> 0x7B) s;
          body = rev (dropWhile (\<lambda>c. c \<noteq> 0x7D) (rev rest))
      in if 3 \<le> length body \<and> list_all (\<lambda>c. \<not> line_terminator c) (butlast (tl body))
         then Some body else None)"

definition toObject :: "('o, 'k) platform \<Rightarrow> byte list \<Rightarrow> error + 'o" where
  "toObject P dataBuffer =
     (case fromCharCode_apply P dataBuffer of
        Inl e \<Rightarrow> Inl e
      | Inr dataString \<Rightarrow>
          (case match_object dataString of
             None \<Rightarrow> Inl (Error ''BufferTools.toObject(): Invalid arguments'')
           | Some dataString \<Rightarrow>
               (case JSON_parse P dataString of
                  Inl e \<Rightarrow> Inl (Error (''BufferTools.toObject(): '' @ message e))
                | Inr dataObject \<Rightarrow> Inr dataObject)))"

section \<open>Strings of the wire formats\<close>

definition and_then :: "error + 'a \<Rightarrow> ('a \<Rightarrow> error + 'b) \<Rightarrow> error + 'b" where
  \<comment> \<open>\<open>promise.then( f )\<close>: a failure skips \<open>f\<close>\<close>
  "and_then r f = (case r of Inl e \<Rightarrow> Inl e | Inr v \<Rightarrow> f v)"

definition is_digit :: "unit16 \<Rightarrow> bool" where
  \<comment> \<open>\<open>\d\<close>\<close>
  "is_digit c = (0x30 \<le> c \<and> c \<le> 0x39)"

fun number_toString :: "nat \<Rightarrow> jsstring" where
  \<comment> \<open>a non-negative integer in a template string\<close>
  "number_toString n =
     (if n < 10 then [0x30 + of_nat n]
      else number_toString (n div 10) @ [0x30 + of_nat (n mod 10)])"

declare number_toString.simps [simp del]

definition parseInt :: "jsstring \<Rightarrow> nat" where
  \<comment> \<open>\<open>parseInt\<close> of a string of decimal digits\<close>
  "parseInt ds = foldl (\<lambda>a c. 10 * a + unat (c - 0x30)) 0 ds"

definition match_version :: "jsstring \<Rightarrow> (jsstring \<times> jsstring) option" where
  \<comment> \<open>the groups of \<open>/^(\d+)\$(.+)$/\<close>: all leading digits, a \<open>$\<close>, and a rest that is
      not empty and holds no line terminator\<close>
  "match_version s =
     (let ds = takeWhile is_digit s; rest = dropWhile is_digit s
      in if ds \<noteq> [] \<and> rest \<noteq> [] \<and> hd rest = 0x24 \<and> tl rest \<noteq> []
            \<and> list_all (\<lambda>c. \<not> line_terminator c) (tl rest)
         then Some (ds, tl rest) else None)"

definition match_padding :: "jsstring \<Rightarrow> jsstring option" where
  \<comment> \<open>the group of \<open>/^([^=]+)=*$/\<close>: a non-empty text without \<open>=\<close>, then only \<open>=\<close>\<close>
  "match_padding s =
     (let body = takeWhile (\<lambda>c. c \<noteq> 0x3D) s; padding = dropWhile (\<lambda>c. c \<noteq> 0x3D) s
      in if body \<noteq> [] \<and> list_all (\<lambda>c. c = 0x3D) padding then Some body else None)"

fun split_on :: "'a \<Rightarrow> 'a list \<Rightarrow> 'a list list" where
  "split_on d [] = [[]]"
| "split_on d (x # xs) =
     (if x = d then [] # split_on d xs
      else (case split_on d xs of [] \<Rightarrow> [[x]] | y # ys \<Rightarrow> (x # y) # ys))"

definition match_hash :: "jsstring \<Rightarrow> (jsstring \<times> jsstring \<times> jsstring) option" where
  \<comment> \<open>the groups of \<open>/^\$ceph1\$([^$]+)\$([^$]+)\$([^$]+)$/\<close>: cut at every \<open>$\<close>, the
      text has an empty part, \<open>ceph1\<close> and three parts that are not empty\<close>
  "match_hash s =
     (case split_on 0x24 s of
        [p0, p1, encoding, salt, hash] \<Rightarrow>
          if p0 = [] \<and> p1 = js ''ceph1'' \<and> encoding \<noteq> [] \<and> salt \<noteq> [] \<and> hash \<noteq> []
          then Some (encoding, salt, hash) else None
      | _ \<Rightarrow> None)"

section \<open>Password hashing\<close>

definition hash_string :: "jsstring \<Rightarrow> jsstring \<Rightarrow> jsstring \<Rightarrow> jsstring" where
  \<comment> \<open>\<open>`$ceph1$${encoding}$${saltEncoded}$${hashEncoded}`\<close>\<close>
  "hash_string encoding saltEncoded hashEncoded =
     js ''$ceph1$'' @ encoding @ js ''$'' @ saltEncoded @ js ''$'' @ hashEncoded"

definition salt_of ::
  "('o, 'k) platform \<Rightarrow> nat \<Rightarrow> jsstring option \<Rightarrow> jsstring \<Rightarrow> error + (jsstring \<times> jsstring)" where
  \<comment> \<open>the \<open>try\<close> block of \<open>hashPassword\<close>: \<open>saltString\<close> and \<open>saltEncoded\<close>\<close>
  "salt_of P pos salt encoding =
     (case salt of
        None \<Rightarrow>
          (let saltBuffer = fst (getRandomValues P 16 pos)
           in and_then (toAscii P saltBuffer) (\<lambda>saltString.
                if encoding = js ''base64''
                then and_then (btoa P saltString) (\<lambda>saltEncoded. Inr (saltString, saltEncoded))
                else Inr (saltString, toHex saltBuffer)))
      | Some salt \<Rightarrow>
          if encoding = js ''base64''
          then and_then (atob P salt) (\<lambda>saltString.
                 case match_padding salt of
                   None \<Rightarrow> Inl (Error ''Crypto: Encoding failed'')
                 | Some saltEncoded \<Rightarrow> Inr (saltString, saltEncoded))
          else and_then (fromHex salt) (\<lambda>saltBuffer.
                 and_then (toAscii P saltBuffer) (\<lambda>saltString. Inr (saltString, salt))))"

definition hashPassword ::
  "('o, 'k) platform \<Rightarrow> nat \<Rightarrow> jsstring \<Rightarrow> jsstring option \<Rightarrow> jsstring \<Rightarrow> jsstring outcome" where
  "hashPassword P pos password salt encoding =
     (if password = [] \<or> salt = Some [] \<or> (encoding \<noteq> js ''base64'' \<and> encoding \<noteq> js ''hex'')
      then Rejected (Error ''Crypto: Invalid arguments'')
      else if \<not> CryptoInterface P then Rejected (Error ''Crypto: Service is not available.'')
      else
        (case salt_of P pos salt encoding of
           Inl e \<Rightarrow> Rejected e
         | Inr (saltString, saltEncoded) \<Rightarrow>
             settle (and_then (digest P (fromAscii (password @ saltString))) (\<lambda>hashBuffer.
               and_then
                 (if encoding = js ''base64''
                  then and_then (toAscii P hashBuffer) (\<lambda>hashString.
                       and_then (btoa P hashString) (\<lambda>b64.
                         case match_padding b64 of
                           None \<Rightarrow> Inl (Error ''Crypto: Encoding failed'')
                         | Some hashEncoded \<Rightarrow> Inr hashEncoded))
                  else Inr (toHex hashBuffer))
                 (\<lambda>hashEncoded. Inr (hash_string encoding saltEncoded hashEncoded))))))"

definition checkPassword :: "('o, 'k) platform \<Rightarrow> jsstring \<Rightarrow> jsstring \<Rightarrow> bool outcome" where
  "checkPassword P password hash =
     (if password = [] \<or> hash = [] then Rejected (Error ''Crypto: Invalid arguments'')
      else if \<not> CryptoInterface P then Rejected (Error ''Crypto: Service is not available.'')
      else
        (case match_hash hash of
           None \<Rightarrow> Rejected (Error ''Crypto: Invalid arguments'')
         | Some (encoding, salt, hashEncoded) \<Rightarrow>
             if encoding \<noteq> js ''base64'' \<and> encoding \<noteq> js ''hex''
             then Rejected (Error ''Crypto: Invalid arguments'')
             else
               (case (if encoding = js ''base64''
                      then and_then (atob P salt) (\<lambda>saltString.
                             and_then (atob P hashEncoded) (\<lambda>hashString. Inr (saltString, hashString)))
                      else and_then (fromHex salt) (\<lambda>saltBuffer.
                             and_then (toAscii P saltBuffer) (\<lambda>saltString.
                             and_then (fromHex hashEncoded) (\<lambda>hashBuffer.
                             and_then (toAscii P hashBuffer) (\<lambda>hashString.
                               Inr (saltString, hashString)))))) of
                  Inl e \<Rightarrow> Thrown e
                | Inr (saltString, hashString) \<Rightarrow>
                    settle (and_then (digest P (fromAscii (password @ saltString)))
                      (\<lambda>result. and_then (toAscii P result)
                         (\<lambda>resultString. Inr (hashString = resultString)))))))"

definition queryPasswordSalt :: "('o, 'k) platform \<Rightarrow> jsstring \<Rightarrow> error + jsstring option" where
  \<comment> \<open>\<open>Inr None\<close> is the result \<open>null\<close>\<close>
  "queryPasswordSalt P hash =
     (if hash = [] then Inl (Error ''Crypto: Invalid arguments'')
      else
        (case match_hash hash of
           None \<Rightarrow> Inr None
         | Some (encoding, salt, hashEncoded) \<Rightarrow>
             if encoding = js ''base64'' then Inr (Some salt)
             else if encoding = js ''hex''
             then and_then (atob P salt) (\<lambda>s. Inr (Some (toHex (fromAscii s))))
             else Inr None))"

section \<open>Symmetric encryption with a password\<close>

definition cipher_of :: "nat \<Rightarrow> (alg \<times> nat) option" where
  \<comment> \<open>the \<open>switch ( version )\<close>: algorithm and number of bytes of the initialisation vector\<close>
  "cipher_of version =
     (if version = 1 then Some (AES_CBC, 16)
      else if version = 2 then Some (AES_GCM, 12)
      else None)"

function fill_key :: "jsstring \<Rightarrow> byte list \<Rightarrow> nat \<Rightarrow> byte list" where
  \<comment> \<open>\<open>for ( let i = 0; i < sKeyBuffer.byteLength; i++ )
        sKeyBuffer[i] = password.charCodeAt( i % password.length )\<close>;
      with an empty password \<open>charCodeAt\<close> gives \<open>NaN\<close>, stored as 0\<close>
  "fill_key password sKeyBuffer i =
     (if i < length sKeyBuffer
      then fill_key password
             (sKeyBuffer[i := (if password = [] then 0 else ucast (password ! (i mod length password)))])
             (i + 1)
      else sKeyBuffer)"
  by pat_completeness auto
termination
  by (relation "measure (\<lambda>(password, sKeyBuffer, i). length sKeyBuffer - i)") auto

declare fill_key.simps [simp del]

definition password_key :: "jsstring \<Rightarrow> byte list" where
  \<comment> \<open>\<open>new Uint8Array( sAlgo.length / 8 )\<close>, filled by the loop\<close>
  "password_key password = fill_key password (replicate 32 0) 0"

definition encryptData ::
  "('o, 'k) platform \<Rightarrow> nat \<Rightarrow> jsstring \<Rightarrow> jsstring \<Rightarrow> nat \<Rightarrow> jsstring outcome" where
  "encryptData P pos dataString password version =
     (if password = [] then Rejected (Error ''Crypto: Invalid arguments'')
      else if \<not> CryptoInterface P then Rejected (Error ''Crypto: Service is not available'')
      else
        (case cipher_of version of
           None \<Rightarrow> Rejected (Error ''Crypto: Invalid arguments'')
         | Some (sAlgo, ivBytes) \<Rightarrow>
             (let (iVector, pos1) = getRandomValues P ivBytes pos;
                  iVectorString = toHex iVector;
                  sKeyBuffer = password_key password
              in case fromObject P pos1 (data_object P dataString) True of
                   Inl e \<Rightarrow> Thrown e
                 | Inr (dataBuffer, pos2) \<Rightarrow>
                     settle (and_then (importKey_raw P sAlgo sKeyBuffer) (\<lambda>sKey.
                       and_then (encrypt_sym P sAlgo iVector sKey dataBuffer) (\<lambda>encryptedBuffer.
                         Inr (number_toString version @ js ''$'' @ iVectorString
                              @ toHex encryptedBuffer)))))))"

definition decryptData ::
  "('o, 'k) platform \<Rightarrow> jsstring \<Rightarrow> jsstring \<Rightarrow> jsstring option outcome" where
  \<comment> \<open>\<open>Resolved None\<close> is the result \<open>null\<close>\<close>
  "decryptData P encryptedData password =
     (if encryptedData = [] \<or> password = [] then Rejected (Error ''Crypto: Invalid arguments'')
      else if \<not> CryptoInterface P then Rejected (Error ''Crypto: Service is not available'')
      else
        (let (data, version) =
               (case match_version encryptedData of
                  None \<Rightarrow> (encryptedData, 1)
                | Some (v, d) \<Rightarrow> (d, parseInt v))
         in case cipher_of version of
              None \<Rightarrow> Rejected (Error ''Crypto: Invalid arguments'')
            | Some (sAlgo, ivBytes) \<Rightarrow>
                (case fromHex (take (ivBytes * 2) data) of
                   Inl e \<Rightarrow> Thrown e
                 | Inr iVector \<Rightarrow>
                     (let sKeyBuffer = password_key password
                      in case fromHex (drop (ivBytes * 2) data) of
                           Inl e \<Rightarrow> Thrown e
                         | Inr encryptedBuffer \<Rightarrow>
                             (case and_then (importKey_raw P sAlgo sKeyBuffer) (\<lambda>sKey.
                                     and_then (decrypt_sym P sAlgo iVector sKey encryptedBuffer) (\<lambda>dataBuffer.
                                       and_then (toObject P dataBuffer) (\<lambda>obj. Inr (data_of P obj)))) of
                                Inl e \<Rightarrow> Resolved None
                              | Inr r \<Rightarrow> Resolved r)))))"

section \<open>The key store\<close>

text \<open>
  The record \<open>keys\<close> that \<open>generateKeyPair\<close> and \<open>importPrivateKey\<close> write; a property
  that was never set reads as \<open>None\<close>. The module has one \<open>Database\<close> object.
\<close>

record 'k keys =
  k_public :: "'k option"
  k_private :: "'k option"
  k_publicExport :: "jsstring option"
  k_privateExport :: "jsstring option"

record 'k database =
  connection :: bool
  databaseName :: "jsstring option"
  storeName :: "jsstring option"
  items :: "jsstring \<Rightarrow> 'k keys option"

definition new_Database :: "'k database" where
  "new_Database = \<lparr>connection = False, databaseName = None, storeName = None, items = (\<lambda>key. None)\<rparr>"

definition init :: "jsstring \<Rightarrow> jsstring \<Rightarrow> 'k database \<Rightarrow> error + 'k database" where
  "init dn store d =
     (if connection d \<and> databaseName d \<noteq> Some dn
      then Inl (Error ''Can't reconfigure database connection. It's already established.'')
      else Inr (d\<lparr>databaseName := Some dn, storeName := Some store\<rparr>))"

definition isReady :: "'k database \<Rightarrow> bool" where
  "isReady d = (databaseName d \<noteq> None \<and> storeName d \<noteq> None)"

definition writeItem :: "jsstring \<Rightarrow> 'k keys \<Rightarrow> 'k database \<Rightarrow> 'k database" where
  "writeItem key v d = d\<lparr>connection := True, items := (items d)(key \<mapsto> v)\<rparr>"

definition readItem :: "jsstring \<Rightarrow> 'k database \<Rightarrow> 'k keys option \<times> 'k database" where
  "readItem key d = (items d key, d\<lparr>connection := True\<rparr>)"

definition removeItem :: "jsstring \<Rightarrow> 'k database \<Rightarrow> 'k database" where
  "removeItem key d = d\<lparr>connection := True, items := (items d)(key := None)\<rparr>"

section \<open>The class Crypto: the key-pair of a session\<close>

record 'k crypto =
  publicKey :: "'k option"
  privateKey :: "'k option"
  publicKeyExport :: "jsstring option"
  privateKeyExport :: "jsstring option"
  dbName :: "jsstring option"
  accessPath :: jsstring

text \<open>A session object together with the database object of the module.\<close>

record 'k world =
  crypto :: "'k crypto"
  db :: "'k database"

definition publ_prefix :: jsstring where
  "publ_prefix = js ''$ceph1-publ$jwk$''"

definition priv_prefix :: jsstring where
  "priv_prefix = js ''$ceph1-priv$hex$''"

definition new_Crypto :: "jsstring option \<Rightarrow> 'k database \<Rightarrow> error + 'k world" where
  \<comment> \<open>the constructor\<close>
  "new_Crypto dn d =
     (if dn = Some [] then Inl (Error ''Crypto: Invalid arguments'')
      else
        and_then (case dn of None \<Rightarrow> Inr d | Some n \<Rightarrow> init n (js ''crypto'') d) (\<lambda>d'.
          Inr \<lparr>crypto = \<lparr>publicKey = None, privateKey = None, publicKeyExport = None,
                         privateKeyExport = None, dbName = dn, accessPath = js ''default''\<rparr>,
               db = d'\<rparr>))"

definition setAccessPath :: "jsstring \<Rightarrow> 'k world \<Rightarrow> error + 'k world" where
  "setAccessPath path w =
     (if path = [] then Inl (Error ''Crypto: Invalid arguments'')
      else Inr (w\<lparr>crypto := (crypto w)\<lparr>accessPath := path\<rparr>\<rparr>))"

definition hasKeyPair :: "'k crypto \<Rightarrow> bool" where
  "hasKeyPair c = (publicKeyExport c \<noteq> None \<and> publicKey c \<noteq> None \<and> privateKey c \<noteq> None)"

definition hasPublicKey :: "'k crypto \<Rightarrow> bool" where
  "hasPublicKey c = (publicKeyExport c \<noteq> None \<and> publicKey c \<noteq> None)"

definition clear_keys :: "'k world \<Rightarrow> 'k world" where
  \<comment> \<open>the four assignments of \<open>null\<close>\<close>
  "clear_keys w =
     w\<lparr>crypto := (crypto w)\<lparr>privateKey := None, publicKey := None,
                            privateKeyExport := None, publicKeyExport := None\<rparr>\<rparr>"

definition set_keys :: "'k keys \<Rightarrow> 'k world \<Rightarrow> 'k world" where
  \<comment> \<open>the four assignments from \<open>keys\<close>\<close>
  "set_keys ks w =
     w\<lparr>crypto := (crypto w)\<lparr>privateKey := k_private ks, publicKey := k_public ks,
                            privateKeyExport := k_privateExport ks,
                            publicKeyExport := k_publicExport ks\<rparr>\<rparr>"

definition or_null :: "jsstring option \<Rightarrow> jsstring option" where
  \<comment> \<open>\<open>value || null\<close> on a string: the empty string is falsy\<close>
  "or_null v = (if v = Some [] then None else v)"

definition unavailable :: "('o, 'k) platform \<Rightarrow> 'k world \<Rightarrow> bool" where
  \<comment> \<open>\<open>CryptoInterface == null || this.dbName == null || !db.isReady()\<close>\<close>
  "unavailable P w = (\<not> CryptoInterface P \<or> dbName (crypto w) = None \<or> \<not> isReady (db w))"

definition awaited :: "'a outcome \<Rightarrow> error + 'a" where
  \<comment> \<open>a call inside a \<open>then\<close>: what it throws and what it rejects with both reject the chain\<close>
  "awaited r = (case r of Resolved v \<Rightarrow> Inr v | Rejected e \<Rightarrow> Inl e | Thrown e \<Rightarrow> Inl e)"

definition generate_keys ::
  "('o, 'k) platform \<Rightarrow> nat \<Rightarrow> jsstring option \<Rightarrow> error + 'k keys" where
  \<comment> \<open>steps 1 to 6 of \<open>generateKeyPair\<close>; the random bytes of step 5 come after the
      position of the key generation\<close>
  "generate_keys P pos exportPassword =
     and_then (generateKey_rsa P (exportPassword \<noteq> None) pos) (\<lambda>(pub, priv).
     and_then (case exportPassword of
                 None \<Rightarrow> Inr None
               | Some pw \<Rightarrow> and_then (exportKey_jwk P priv) (\<lambda>jwk. Inr (Some jwk))) (\<lambda>privateKeyJWK.
     and_then (exportKey_jwk P pub) (\<lambda>result.
     and_then (case privateKeyJWK of
                 None \<Rightarrow> Inr priv
               | Some jwk \<Rightarrow> importKey_jwk P jwk False Decrypt) (\<lambda>prv.
     and_then (case (exportPassword, privateKeyJWK) of
                 (Some pw, Some jwk) \<Rightarrow>
                   and_then (awaited (encryptData P (pos + 1) (JSON_stringify P jwk) pw 2))
                     (\<lambda>r. Inr (Some (priv_prefix @ r)))
               | _ \<Rightarrow> Inr None) (\<lambda>privateExport.
       Inr \<lparr>k_public = Some pub, k_private = Some prv,
            k_publicExport = Some (publ_prefix @ jwk_n P result),
            k_privateExport = privateExport\<rparr>)))))"

definition generateKeyPair ::
  "('o, 'k) platform \<Rightarrow> nat \<Rightarrow> jsstring option \<Rightarrow> 'k world \<Rightarrow> unit outcome \<times> 'k world" where
  "generateKeyPair P pos exportPassword w =
     (if exportPassword = Some [] then (Rejected (Error ''Crypto: Invalid arguments''), w)
      else if unavailable P w then (Rejected (Error ''Crypto: Service is not available''), w)
      else
        (case generate_keys P pos exportPassword of
           Inl e \<Rightarrow> (Rejected e, clear_keys w)
         | Inr ks \<Rightarrow>
             (Resolved (),
              set_keys ks ((clear_keys w)\<lparr>db := writeItem (accessPath (crypto w)) ks (db w)\<rparr>))))"

definition loadKeyPair :: "('o, 'k) platform \<Rightarrow> 'k world \<Rightarrow> unit outcome \<times> 'k world" where
  "loadKeyPair P w =
     (if unavailable P w then (Rejected (Error ''Crypto: Service is not available''), w)
      else
        (let (found, d) = readItem (accessPath (crypto w)) (db w);
             w0 = (clear_keys w)\<lparr>db := d\<rparr>
         in case found of
              None \<Rightarrow> (Resolved (), w0)
            | Some ks \<Rightarrow>
                (Resolved (),
                 set_keys (ks\<lparr>k_privateExport := or_null (k_privateExport ks),
                              k_publicExport := or_null (k_publicExport ks)\<rparr>) w0)))"

definition importPublicKey ::
  "('o, 'k) platform \<Rightarrow> jsstring \<Rightarrow> 'k world \<Rightarrow> unit outcome \<times> 'k world" where
  "importPublicKey P keyString w =
     (if keyString = [] \<or> take 16 keyString \<noteq> publ_prefix
      then (Rejected (Error ''Crypto: Invalid arguments''), w)
      else if \<not> CryptoInterface P then (Rejected (Error ''Crypto: Service is not available''), w)
      else
        (case importKey_jwk P (public_jwk P (drop 16 keyString)) True Encrypt of
           Inl e \<Rightarrow> (Rejected e, clear_keys w)
         | Inr result \<Rightarrow>
             (Resolved (),
              (clear_keys w)\<lparr>crypto := (crypto (clear_keys w))
                 \<lparr>publicKey := Some result, publicKeyExport := Some keyString\<rparr>\<rparr>)))"

definition import_keys ::
  "('o, 'k) platform \<Rightarrow> jsstring \<Rightarrow> jsstring \<Rightarrow> error + 'k keys" where
  \<comment> \<open>the chain of \<open>importPrivateKey\<close> after a successful decryption gave \<open>result\<close>,
      up to the write into the database\<close>
  "import_keys P pKeyString result =
     and_then (JSON_parse P result) (\<lambda>privateKeyJWK.
     and_then (importKey_jwk P privateKeyJWK False Decrypt) (\<lambda>prv.
     and_then (importKey_jwk P (public_jwk P (drop 16 (publ_prefix @ jwk_n P privateKeyJWK))) True
                 Encrypt)
       (\<lambda>pbl.
         Inr \<lparr>k_public = Some pbl, k_private = Some prv,
              k_publicExport = Some (publ_prefix @ jwk_n P privateKeyJWK),
              k_privateExport = Some pKeyString\<rparr>)))"

definition importPrivateKey ::
  "('o, 'k) platform \<Rightarrow> jsstring \<Rightarrow> jsstring \<Rightarrow> 'k world \<Rightarrow> bool outcome \<times> 'k world" where
  "importPrivateKey P pKeyString exportPassword w =
     (if take 16 pKeyString \<noteq> priv_prefix \<or> exportPassword = []
      then (Thrown (Error ''Invalid arguments''), w)
      else if unavailable P w then (Rejected (Error ''Crypto: Service is not available''), w)
      else
        (case decryptData P (drop 16 pKeyString) exportPassword of
           Thrown e \<Rightarrow> (Thrown e, w)
         | Rejected e \<Rightarrow> (Rejected e, w)
         | Resolved None \<Rightarrow> (Resolved False, w)
         | Resolved (Some result) \<Rightarrow>
             (case import_keys P pKeyString result of
                Inl e \<Rightarrow> (Rejected e, w)
              | Inr ks \<Rightarrow>
                  (Resolved True,
                   set_keys ks (w\<lparr>db := writeItem (accessPath (crypto w)) ks (db w)\<rparr>)))))"

definition removeKeyPair :: "'k world \<Rightarrow> unit outcome \<times> 'k world" where
  "removeKeyPair w =
     (if dbName (crypto w) = None \<or> \<not> isReady (db w)
      then (Rejected (Error ''Crypto: Service is not available''), w)
      else (Resolved (), (clear_keys w)\<lparr>db := removeItem (accessPath (crypto w)) (db w)\<rparr>))"

section \<open>Hybrid encryption of objects\<close>

record envelope =
  env_message :: jsstring
  env_key :: jsstring

definition with_key :: "'k option \<Rightarrow> ('k \<Rightarrow> error + 'a) \<Rightarrow> error + 'a" where
  \<comment> \<open>a call of the provider with \<open>this.publicKey\<close> or \<open>this.privateKey\<close>: \<open>null\<close> is
      no key\<close>
  "with_key key f =
     (case key of None \<Rightarrow> Inl (JSError ''TypeError'' ''not a CryptoKey'') | Some k \<Rightarrow> f k)"

definition encryptObject ::
  "('o, 'k) platform \<Rightarrow> nat \<Rightarrow> 'k crypto \<Rightarrow> 'o \<Rightarrow> nat \<Rightarrow> envelope outcome" where
  "encryptObject P pos c dataObject version =
     (if \<not> CryptoInterface P then Rejected (Error ''Crypto: Invalid arguments'')
      else
        (case cipher_of version of
           None \<Rightarrow> Rejected (Error ''Crypto: Invalid arguments'')
         | Some (sAlgo, ivBytes) \<Rightarrow>
             (case fromObject P pos dataObject True of
                Inl e \<Rightarrow> Thrown e
              | Inr (plainBuffer, pos1) \<Rightarrow>
                  (let (iVectorBuffer, pos2) = getRandomValues P ivBytes pos1
                   in settle
                        (and_then (generateKey_sym P sAlgo pos2) (\<lambda>sKey.
                         and_then (encrypt_sym P sAlgo iVectorBuffer sKey plainBuffer) (\<lambda>cipherBuffer.
                         and_then (exportKey_raw P sKey) (\<lambda>sKeyBuffer.
                         and_then (concat_buffers [iVectorBuffer, sKeyBuffer]) (\<lambda>ivKey.
                         and_then (with_key (publicKey c) (\<lambda>k. encrypt_rsa P k (pos2 + 1) ivKey))
                           (\<lambda>keyBuffer.
                         and_then (toAscii P cipherBuffer) (\<lambda>cipherAscii.
                         and_then (btoa P cipherAscii) (\<lambda>m.
                         and_then (toAscii P keyBuffer) (\<lambda>keyAscii.
                         and_then (btoa P keyAscii) (\<lambda>k.
                           Inr \<lparr>env_message = number_toString version @ js ''$'' @ m,
                                env_key = k\<rparr>))))))))))))))"

definition decryptObject ::
  "('o, 'k) platform \<Rightarrow> 'k crypto \<Rightarrow> jsstring \<Rightarrow> jsstring \<Rightarrow> 'o option outcome" where
  \<comment> \<open>\<open>Resolved None\<close> is the result \<open>false\<close>\<close>
  "decryptObject P c keyString messageString =
     (if \<not> CryptoInterface P then Rejected (Error ''Crypto: Service is not available.'')
      else if \<not> hasKeyPair c
      then Rejected (Error ''Crypto: The private key is missing, decryption is not available.'')
      else
        (case atob P keyString of
           Inl e \<Rightarrow> Thrown e
         | Inr keyAscii \<Rightarrow>
             (let keyBuffer = fromAscii keyAscii;
                  (cipherString, version) =
                    (case match_version messageString of
                       None \<Rightarrow> (messageString, 1)
                     | Some (v, m) \<Rightarrow> (m, parseInt v))
              in case atob P cipherString of
                   Inl e \<Rightarrow> Thrown e
                 | Inr cipherAscii \<Rightarrow>
                     (let cipherBuffer = fromAscii cipherAscii
                      in case cipher_of version of
                           None \<Rightarrow> Rejected (Error ''Crypto: Invalid arguments'')
                         | Some (sAlgo, ivBytes) \<Rightarrow>
                             (case and_then (with_key (privateKey c) (\<lambda>k. decrypt_rsa P k keyBuffer))
                                     (\<lambda>result.
                                   let (iVectorBuffer, sKeyBuffer) = splitInTwo result (int ivBytes) in
                                   and_then (importKey_raw P sAlgo sKeyBuffer) (\<lambda>sKey.
                                   and_then (decrypt_sym P sAlgo iVectorBuffer sKey cipherBuffer)
                                     (\<lambda>plainBuffer. toObject P plainBuffer))) of
                                Inl e \<Rightarrow>
                                  if name e = ''OperationError'' then Resolved None else Rejected e
                              | Inr obj \<Rightarrow> Resolved (Some obj))))))"

section \<open>A platform to run the module on\<close>

text \<open>
  The examples below run the module on this platform. Its \<open>btoa\<close> and \<open>atob\<close> are the
  Base64 functions of a browser; its JSON covers objects whose properties hold strings,
  listed in the order of their enumeration, and the empty array; its ciphers and its digest
  are small
  functions with the interface of the Web Crypto API: what one key encrypts, that key (or
  the private key of its pair) decrypts, every other key fails with an
  \<open>OperationError\<close>.
\<close>

definition base64_alphabet :: jsstring where
  "base64_alphabet = js ''ABCDEFGHIJKLMNOPQRSTUVWXYZabcdefghijklmnopqrstuvwxyz0123456789+/''"

fun base64_encode :: "nat list \<Rightarrow> jsstring" where
  "base64_encode (a # b # c # bytes) =
     [base64_alphabet ! (a div 4), base64_alphabet ! ((a mod 4) * 16 + b div 16),
      base64_alphabet ! ((b mod 16) * 4 + c div 64), base64_alphabet ! (c mod 64)]
     @ base64_encode bytes"
| "base64_encode [a, b] =
     [base64_alphabet ! (a div 4), base64_alphabet ! ((a mod 4) * 16 + b div 16),
      base64_alphabet ! ((b mod 16) * 4), 0x3D]"
| "base64_encode [a] =
     [base64_alphabet ! (a div 4), base64_alphabet ! ((a mod 4) * 16), 0x3D, 0x3D]"
| "base64_encode [] = []"

fun base64_decode :: "nat list \<Rightarrow> byte list" where
  "base64_decode (w # x # y # z # sextets) =
     [of_nat (w * 4 + x div 16), of_nat ((x mod 16) * 16 + y div 4), of_nat ((y mod 4) * 64 + z)]
     @ base64_decode sextets"
| "base64_decode [w, x, y] = [of_nat (w * 4 + x div 16), of_nat ((x mod 16) * 16 + y div 4)]"
| "base64_decode [w, x] = [of_nat (w * 4 + x div 16)]"
| "base64_decode [w] = []"
| "base64_decode [] = []"

definition browser_btoa :: "jsstring \<Rightarrow> error + jsstring" where
  "browser_btoa s =
     (if list_all (\<lambda>c. c < 0x100) s then Inr (base64_encode (map unat s))
      else Inl (JSError ''InvalidCharacterError'' ''The string contains invalid characters''))"

definition ascii_whitespace :: "unit16 \<Rightarrow> bool" where
  "ascii_whitespace c = (c = 0x09 \<or> c = 0x0A \<or> c = 0x0C \<or> c = 0x0D \<or> c = 0x20)"

definition strip_padding :: "jsstring \<Rightarrow> jsstring" where
  \<comment> \<open>a text whose length is a multiple of four loses one or two \<open>=\<close> at its end\<close>
  "strip_padding d =
     (if length d mod 4 = 0 \<and> d \<noteq> [] \<and> last d = 0x3D
      then (if butlast d \<noteq> [] \<and> last (butlast d) = 0x3D then butlast (butlast d) else butlast d)
      else d)"

definition browser_atob :: "jsstring \<Rightarrow> error + jsstring" where
  "browser_atob s =
     (let d = strip_padding (filter (\<lambda>c. \<not> ascii_whitespace c) s)
      in if length d mod 4 = 1 \<or> \<not> list_all (\<lambda>c. c \<in> set base64_alphabet) d
         then Inl (JSError ''InvalidCharacterError'' ''The string is not correctly encoded'')
         else Inr (fromCharCode (base64_decode
                (map (\<lambda>c. case indexOf base64_alphabet c of None \<Rightarrow> 0 | Some i \<Rightarrow> i) d))))"

datatype demo_object = Obj "(jsstring \<times> jsstring) list" | EmptyArray

datatype demo_key = SymKey alg "byte list" | PublicKey jsstring | PrivateKey jsstring

definition unicode_escape :: "unit16 \<Rightarrow> jsstring" where
  \<comment> \<open>a backslash, \<open>u\<close> and the four lowercase hexadecimal digits of the code unit\<close>
  "unicode_escape c =
     [0x5C, 0x75] @ map (\<lambda>d. hex_digits ! (unat c div d mod 16)) [4096, 256, 16, 1]"

definition escape_unit :: "unit16 \<Rightarrow> jsstring" where
  \<comment> \<open>a code unit in a JSON string: the quotation mark, the backslash and the control
      characters are escaped\<close>
  "escape_unit c =
     (if c = 0x08 then [0x5C, 0x62] else if c = 0x09 then [0x5C, 0x74]
      else if c = 0x0A then [0x5C, 0x6E] else if c = 0x0C then [0x5C, 0x66]
      else if c = 0x0D then [0x5C, 0x72] else if c = 0x22 then [0x5C, 0x22]
      else if c = 0x5C then [0x5C, 0x5C] else if c < 0x20 then unicode_escape c
      else [c])"

definition high_surrogate :: "unit16 \<Rightarrow> bool" where
  "high_surrogate c = (0xD800 \<le> c \<and> c \<le> 0xDBFF)"

definition low_surrogate :: "unit16 \<Rightarrow> bool" where
  "low_surrogate c = (0xDC00 \<le> c \<and> c \<le> 0xDFFF)"

fun quote_units :: "jsstring \<Rightarrow> jsstring" where
  \<comment> \<open>the body of a JSON string: a surrogate that is not one of a pair is escaped\<close>
  "quote_units [] = []"
| "quote_units [c] =
     (if high_surrogate c \<or> low_surrogate c then unicode_escape c else escape_unit c)"
| "quote_units (c # d # cs) =
     (if high_surrogate c \<and> low_surrogate d then c # d # quote_units cs
      else if high_surrogate c \<or> low_surrogate c then unicode_escape c @ quote_units (d # cs)
      else escape_unit c @ quote_units (d # cs))"

definition quote_json :: "jsstring \<Rightarrow> jsstring" where
  "quote_json s = [0x22] @ quote_units s @ [0x22]"

fun join_members :: "(jsstring \<times> jsstring) list \<Rightarrow> jsstring" where
  \<comment> \<open>\<open>"k":"v"\<close> for every property, with commas between them\<close>
  "join_members [] = []"
| "join_members [(k, v)] = quote_json k @ [0x3A] @ quote_json v"
| "join_members ((k, v) # kvs) = quote_json k @ [0x3A] @ quote_json v @ [0x2C] @ join_members kvs"

fun demo_stringify :: "demo_object \<Rightarrow> jsstring" where
  "demo_stringify (Obj kvs) = [0x7B] @ join_members kvs @ [0x7D]"
| "demo_stringify EmptyArray = [0x5B, 0x5D]"

definition json_whitespace :: "unit16 \<Rightarrow> bool" where
  "json_whitespace c = (c = 0x20 \<or> c = 0x09 \<or> c = 0x0A \<or> c = 0x0D)"

definition simple_escape :: "unit16 \<Rightarrow> unit16 option" where
  \<comment> \<open>the character after a backslash and what the two stand for\<close>
  "simple_escape e =
     (if e = 0x22 \<or> e = 0x5C \<or> e = 0x2F then Some e
      else if e = 0x62 then Some 0x08 else if e = 0x66 then Some 0x0C
      else if e = 0x6E then Some 0x0A else if e = 0x72 then Some 0x0D
      else if e = 0x74 then Some 0x09 else None)"

definition hex_unit :: "unit16 \<Rightarrow> unit16 \<Rightarrow> unit16 \<Rightarrow> unit16 \<Rightarrow> unit16 option" where
  \<comment> \<open>the code unit of four hexadecimal digits, of either case\<close>
  "hex_unit h1 h2 h3 h4 =
     (case map (\<lambda>h. indexOf hex_digits (toLowerCase_unit h)) [h1, h2, h3, h4] of
        [Some d1, Some d2, Some d3, Some d4] \<Rightarrow> Some (of_nat (((d1 * 16 + d2) * 16 + d3) * 16 + d4))
      | _ \<Rightarrow> None)"

fun read_string :: "jsstring \<Rightarrow> (jsstring \<times> jsstring) option" where
  \<comment> \<open>a JSON string after its opening quotation mark: its value and the text after its
      closing quotation mark\<close>
  "read_string [] = None"
| "read_string (c # cs) =
     (if c = 0x22 then Some ([], cs)
      else if c < 0x20 then None
      else if c = 0x5C then
        (case cs of
           [] \<Rightarrow> None
         | e # es \<Rightarrow>
             if e = 0x75 then
               (case es of
                  h1 # h2 # h3 # h4 # rest \<Rightarrow>
                    (case hex_unit h1 h2 h3 h4 of
                       None \<Rightarrow> None
                     | Some u \<Rightarrow> map_option (\<lambda>(s, r). (u # s, r)) (read_string rest))
                | _ \<Rightarrow> None)
             else
               (case simple_escape e of
                  None \<Rightarrow> None
                | Some u \<Rightarrow> map_option (\<lambda>(s, r). (u # s, r)) (read_string es)))
      else map_option (\<lambda>(s, r). (c # s, r)) (read_string cs))"

definition set_property :: "(jsstring \<times> jsstring) list \<Rightarrow> jsstring \<Rightarrow> jsstring \<Rightarrow> (jsstring \<times> jsstring) list" where
  \<comment> \<open>a property that is there keeps its place and takes the value, a new one comes last\<close>
  "set_property kvs k v =
     (if k \<in> fst ` set kvs then map (\<lambda>(k', v'). if k' = k then (k', v) else (k', v')) kvs
      else kvs @ [(k, v)])"

fun parse_members :: "nat \<Rightarrow> (jsstring \<times> jsstring) list \<Rightarrow> jsstring
    \<Rightarrow> ((jsstring \<times> jsstring) list \<times> jsstring) option" where
  \<comment> \<open>the members of an object from the quotation mark of a name on, up to the closing
      brace; the first argument bounds the number of members by the length of the text\<close>
  "parse_members 0 kvs s = None"
| "parse_members (Suc n) kvs s =
     (case s of
        [] \<Rightarrow> None
      | q # s1 \<Rightarrow>
          if q \<noteq> 0x22 then None
          else
            (case read_string s1 of
               None \<Rightarrow> None
             | Some (k, s2) \<Rightarrow>
                 (case dropWhile json_whitespace s2 of
                    [] \<Rightarrow> None
                  | c # s3 \<Rightarrow>
                      if c \<noteq> 0x3A then None
                      else
                        (case dropWhile json_whitespace s3 of
                           [] \<Rightarrow> None
                         | q2 # s4 \<Rightarrow>
                             if q2 \<noteq> 0x22 then None
                             else
                               (case read_string s4 of
                                  None \<Rightarrow> None
                                | Some (v, s5) \<Rightarrow>
                                    (case dropWhile json_whitespace s5 of
                                       [] \<Rightarrow> None
                                     | d # s6 \<Rightarrow>
                                         if d = 0x7D then Some (set_property kvs k v, s6)
                                         else if d = 0x2C
                                         then parse_members n (set_property kvs k v)
                                                (dropWhile json_whitespace s6)
                                         else None))))))"

definition demo_parse :: "jsstring \<Rightarrow> error + demo_object" where
  \<comment> \<open>an object whose members are strings, or the empty array, with whitespace between
      the tokens\<close>
  "demo_parse s =
     (let unexpected = Inl (JSError ''SyntaxError'' ''Unexpected token in JSON'');
          finish = (\<lambda>v r. if dropWhile json_whitespace r = [] then Inr v else unexpected)
      in case dropWhile json_whitespace s of
           [] \<Rightarrow> Inl (JSError ''SyntaxError'' ''Unexpected end of JSON input'')
         | c # t \<Rightarrow>
             if c = 0x7B then
               (case dropWhile json_whitespace t of
                  [] \<Rightarrow> Inl (JSError ''SyntaxError'' ''Unexpected end of JSON input'')
                | d # u \<Rightarrow>
                    if d = 0x7D then finish (Obj []) u
                    else
                      (case parse_members (length t) [] (d # u) of
                         None \<Rightarrow> unexpected
                       | Some (kvs, r) \<Rightarrow> finish (Obj kvs) r))
             else if c = 0x5B then
               (case dropWhile json_whitespace t of
                  [] \<Rightarrow> Inl (JSError ''SyntaxError'' ''Unexpected end of JSON input'')
                | d # u \<Rightarrow> if d = 0x5D then finish EmptyArray u else unexpected)
             else unexpected)"

fun demo_property :: "demo_object \<Rightarrow> jsstring \<Rightarrow> jsstring option" where
  "demo_property (Obj kvs) k = map_of (rev kvs) k"
| "demo_property EmptyArray k = None"

definition demo_data :: "demo_object \<Rightarrow> jsstring option" where
  \<comment> \<open>\<open>obj.data\<close> after the test \<open>obj.hasOwnProperty( "data" )\<close>: an object with a
      property \<open>hasOwnProperty\<close> of its own, a string, makes the test throw\<close>
  "demo_data obj =
     (if demo_property obj (js ''hasOwnProperty'') \<noteq> None then None
      else demo_property obj (js ''data''))"

definition key_tag :: "byte list \<Rightarrow> byte list \<Rightarrow> byte" where
  "key_tag raw iv = sum_list raw + sum_list iv + 1"

fun demo_encrypt :: "alg \<Rightarrow> byte list \<Rightarrow> demo_key \<Rightarrow> byte list \<Rightarrow> error + byte list" where
  "demo_encrypt a iv (SymKey a' raw) plain =
     (if a = a' then Inr (map (\<lambda>b. b + key_tag raw iv) plain @ [key_tag raw iv])
      else Inl (JSError ''InvalidAccessError'' ''key does not match the algorithm''))"
| "demo_encrypt a iv k plain = Inl (JSError ''InvalidAccessError'' ''not a symmetric key'')"

fun demo_decrypt :: "alg \<Rightarrow> byte list \<Rightarrow> demo_key \<Rightarrow> byte list \<Rightarrow> error + byte list" where
  "demo_decrypt a iv (SymKey a' raw) cipher =
     (if a \<noteq> a' then Inl (JSError ''InvalidAccessError'' ''key does not match the algorithm'')
      else if cipher = [] \<or> last cipher \<noteq> key_tag raw iv
      then Inl (JSError ''OperationError'' ''decryption failed'')
      else Inr (map (\<lambda>b. b - key_tag raw iv) (butlast cipher)))"
| "demo_decrypt a iv k cipher = Inl (JSError ''InvalidAccessError'' ''not a symmetric key'')"

fun demo_encrypt_rsa :: "demo_key \<Rightarrow> nat \<Rightarrow> byte list \<Rightarrow> error + byte list" where
  "demo_encrypt_rsa (PublicKey n) coins plain = Inr (fromAscii n @ [of_nat coins] @ plain)"
| "demo_encrypt_rsa k coins plain = Inl (JSError ''InvalidAccessError'' ''not a public key'')"

fun demo_decrypt_rsa :: "demo_key \<Rightarrow> byte list \<Rightarrow> error + byte list" where
  "demo_decrypt_rsa (PrivateKey n) cipher =
     (if length n < length cipher \<and> take (length n) cipher = fromAscii n
      then Inr (drop (length n + 1) cipher)
      else Inl (JSError ''OperationError'' ''decryption failed''))"
| "demo_decrypt_rsa k cipher = Inl (JSError ''InvalidAccessError'' ''not a private key'')"

fun demo_exportKey_raw :: "demo_key \<Rightarrow> error + byte list" where
  "demo_exportKey_raw (SymKey a raw) = Inr raw"
| "demo_exportKey_raw k = Inl (JSError ''NotSupportedError'' ''not a symmetric key'')"

fun demo_exportKey_jwk :: "demo_key \<Rightarrow> error + demo_object" where
  "demo_exportKey_jwk (PublicKey n) = Inr (Obj [(js ''kty'', js ''RSA''), (js ''n'', n)])"
| "demo_exportKey_jwk (PrivateKey n) =
     Inr (Obj [(js ''kty'', js ''RSA''), (js ''n'', n), (js ''d'', js ''private-exponent'')])"
| "demo_exportKey_jwk k = Inl (JSError ''NotSupportedError'' ''not an RSA key'')"

definition demo_importKey_jwk :: "demo_object \<Rightarrow> bool \<Rightarrow> usage \<Rightarrow> error + demo_key" where
  \<comment> \<open>a key with a private exponent decrypts, a key without one encrypts\<close>
  "demo_importKey_jwk jwk extractable u =
     (case demo_property jwk (js ''n'') of
        None \<Rightarrow> Inl (JSError ''DataError'' ''no modulus'')
      | Some n \<Rightarrow>
          if n = [] then Inl (JSError ''DataError'' ''empty modulus'')
          else if demo_property jwk (js ''d'') = None
          then (if u = Encrypt then Inr (PublicKey n)
                else Inl (JSError ''SyntaxError'' ''a public key cannot decrypt''))
          else (if u = Decrypt then Inr (PrivateKey n)
                else Inl (JSError ''SyntaxError'' ''a private key cannot encrypt'')))"

definition demo_platform :: "(nat \<Rightarrow> byte) \<Rightarrow> (demo_object, demo_key) platform" where
  "demo_platform rnd =
     \<lparr>CryptoInterface = True,
      max_arguments = 65536,
      random_byte = rnd,
      JSON_stringify = demo_stringify,
      JSON_parse = demo_parse,
      data_object = (\<lambda>s. Obj [(js ''data'', s)]),
      data_of = demo_data,
      btoa = browser_btoa,
      atob = browser_atob,
      digest = (\<lambda>bytes. Inr (map (\<lambda>i. sum_list bytes + of_nat i) [0 ..< 32])),
      importKey_raw = (\<lambda>a raw. if length raw = 32 then Inr (SymKey a raw)
                                 else Inl (JSError ''DataError'' ''key length'')),
      generateKey_sym = (\<lambda>a n. Inr (SymKey a (replicate 32 (of_nat n)))),
      exportKey_raw = demo_exportKey_raw,
      encrypt_sym = demo_encrypt,
      decrypt_sym = demo_decrypt,
      encrypt_rsa = demo_encrypt_rsa,
      decrypt_rsa = demo_decrypt_rsa,
      generateKey_rsa = (\<lambda>extractable n.
          Inr (PublicKey (js ''n'' @ number_toString n), PrivateKey (js ''n'' @ number_toString n))),
      exportKey_jwk = demo_exportKey_jwk,
      importKey_jwk = demo_importKey_jwk,
      jwk_n = (\<lambda>jwk. case demo_property jwk (js ''n'') of None \<Rightarrow> js ''undefined'' | Some n \<Rightarrow> n),
      public_jwk = (\<lambda>n. Obj [(js ''alg'', js ''RSA-OAEP-256''), (js ''e'', js ''AQAB''),
                              (js ''kty'', js ''RSA''), (js ''n'', n)])\<rparr>"

definition stream_of :: "byte \<Rightarrow> nat \<Rightarrow> byte" where
  \<comment> \<open>a random stream that gives the same byte every time\<close>
  "stream_of b i = b"

definition stream_A :: "nat \<Rightarrow> byte" where
  \<comment> \<open>a random stream of zeros with the letter \<open>A\<close> at its third place\<close>
  "stream_A i = (if i = 2 then 0x41 else 0)"

definition stream_up :: "nat \<Rightarrow> byte" where
  "stream_up i = of_nat (7 * i + 3)"

definition ob :: demo_object where
  \<comment> \<open>the object \<open>{ a: "b" }\<close>\<close>
  "ob = Obj [(js ''a'', js ''b'')]"

section \<open>Notions of the statements\<close>

definition filtered_noise :: "('o, 'k) platform \<Rightarrow> nat \<Rightarrow> nat \<Rightarrow> byte list" where
  \<comment> \<open>\<open>n\<close> bytes of noise for a call of \<open>fromObject\<close> at \<open>pos\<close>: the random bytes after
      the three bytes of the configuration, with the filler of that call in the place of every
      \<open>{\<close>, \<open>}\<close> and 0\<close>
  "filtered_noise P pos n =
     map (\<lambda>b. if b \<in> set nonNoiseCharacters then noise_filler (random_byte P (pos + 2)) else b)
       (map (random_byte P) [pos + 3 ..< pos + 3 + n])"

definition decrypt_chain ::
  "('o, 'k) platform \<Rightarrow> alg \<Rightarrow> byte list \<Rightarrow> byte list \<Rightarrow> jsstring \<Rightarrow> error + jsstring option" where
  \<comment> \<open>the promise chain of \<open>decryptData\<close>, before its \<open>catch\<close>\<close>
  "decrypt_chain P sAlgo iVector encryptedBuffer password =
     and_then (importKey_raw P sAlgo (password_key password)) (\<lambda>sKey.
     and_then (decrypt_sym P sAlgo iVector sKey encryptedBuffer) (\<lambda>dataBuffer.
     and_then (toObject P dataBuffer) (\<lambda>obj. Inr (data_of P obj))))"

definition cyclic_repetition :: "jsstring \<Rightarrow> byte list" where
  \<comment> \<open>the low bytes of the character codes of a password, repeated to fill 32 bytes\<close>
  "cyclic_repetition password = map (\<lambda>i. ucast (password ! (i mod length password))) [0 ..< 32]"

definition resolved_value :: "'a outcome \<Rightarrow> 'a option" where
  \<comment> \<open>the value of a promise that resolved\<close>
  "resolved_value r = (case r of Resolved v \<Rightarrow> Some v | _ \<Rightarrow> None)"

definition read_version :: "jsstring \<Rightarrow> jsstring \<times> nat" where
  \<comment> \<open>the data and the version that \<open>decryptData\<close> and \<open>decryptObject\<close> read from a
      string: a prefix of digits and a \<open>$\<close> gives the version, no such prefix is version 1\<close>
  "read_version s =
     (case match_version s of None \<Rightarrow> (s, 1) | Some (v, d) \<Rightarrow> (d, parseInt v))"

definition no_keys :: "'k crypto \<Rightarrow> bool" where
  \<comment> \<open>the four fields of the key-pair are \<open>null\<close>\<close>
  "no_keys c = (publicKey c = None \<and> privateKey c = None
                \<and> publicKeyExport c = None \<and> privateKeyExport c = None)"

inductive reachable :: "('o, 'k) platform \<Rightarrow> 'k world \<Rightarrow> bool" for P :: "('o, 'k) platform" where
  \<comment> \<open>the states of a session and of the database, from an empty database, where every
      call has finished before the next one starts\<close>
  created: "new_Crypto dn new_Database = Inr w \<Longrightarrow> reachable P w"
| recreated: "reachable P w \<Longrightarrow> new_Crypto dn (db w) = Inr w' \<Longrightarrow> reachable P w'"
| path_set: "reachable P w \<Longrightarrow> setAccessPath path w = Inr w' \<Longrightarrow> reachable P w'"
| generated: "reachable P w \<Longrightarrow> reachable P (snd (generateKeyPair P pos exportPassword w))"
| loaded: "reachable P w \<Longrightarrow> reachable P (snd (loadKeyPair P w))"
| imported_public: "reachable P w \<Longrightarrow> reachable P (snd (importPublicKey P keyString w))"
| imported_private:
    "reachable P w \<Longrightarrow> reachable P (snd (importPrivateKey P pKeyString exportPassword w))"
| removed: "reachable P w \<Longrightarrow> reachable P (snd (removeKeyPair w))"

definition matching_keys :: "('o, 'k) platform \<Rightarrow> ('k \<Rightarrow> 'k \<Rightarrow> bool) \<Rightarrow> bool" where
  \<comment> \<open>\<open>M pub priv\<close> is a relation between public and private keys that the provider
      respects: a generated pair is in it, a private key exported and imported again stays
      in it, and so are the private key of a JSON Web Key and the public key of its modulus\<close>
  "matching_keys P M =
     ((\<forall>extractable n pub priv. generateKey_rsa P extractable n = Inr (pub, priv) \<longrightarrow> M pub priv)
      \<and> (\<forall>pub priv jwk priv'.
            M pub priv \<and> exportKey_jwk P priv = Inr jwk \<and> importKey_jwk P jwk False Decrypt = Inr priv'
            \<longrightarrow> M pub priv')
      \<and> (\<forall>jwk priv pub.
            importKey_jwk P jwk False Decrypt = Inr priv
            \<and> importKey_jwk P (public_jwk P (jwk_n P jwk)) True Encrypt = Inr pub
            \<longrightarrow> M pub priv))"

definition keys_ok :: "('k \<Rightarrow> 'k \<Rightarrow> bool) \<Rightarrow> 'k keys \<Rightarrow> bool" where
  "keys_ok M ks =
     (\<forall>priv. k_private ks = Some priv \<longrightarrow>
        (\<exists>pub. k_public ks = Some pub \<and> M pub priv)
        \<and> k_publicExport ks \<noteq> None \<and> k_publicExport ks \<noteq> Some [])"

definition session_ok :: "('k \<Rightarrow> 'k \<Rightarrow> bool) \<Rightarrow> 'k crypto \<Rightarrow> bool" where
  "session_ok M c =
     (\<forall>priv. privateKey c = Some priv \<longrightarrow>
        (\<exists>pub. publicKey c = Some pub \<and> M pub priv) \<and> publicKeyExport c \<noteq> None)"

definition world_ok :: "('k \<Rightarrow> 'k \<Rightarrow> bool) \<Rightarrow> 'k world \<Rightarrow> bool" where
  "world_ok M w =
     (session_ok M (crypto w) \<and> (\<forall>key ks. items (db w) key = Some ks \<longrightarrow> keys_ok M ks))"

fun demo_pair :: "demo_key \<Rightarrow> demo_key \<Rightarrow> bool" where
  \<comment> \<open>a public and a private key of the same modulus\<close>
  "demo_pair (PublicKey n) (PrivateKey m) = (n = m)"
| "demo_pair pub priv = False"

definition demo_world0 :: "demo_key world" where
  \<comment> \<open>a new session on the database \<open>db\<close>\<close>
  "demo_world0 =
     \<lparr>crypto = \<lparr>publicKey = None, privateKey = None, publicKeyExport = None,
                 privateKeyExport = None, dbName = Some (js ''db''), accessPath = js ''default''\<rparr>,
      db = \<lparr>connection = False, databaseName = Some (js ''db''), storeName = Some (js ''crypto''),
            items = (\<lambda>key. None)\<rparr>\<rparr>"

definition demo_world1 :: "demo_key world" where
  \<comment> \<open>that session after it has generated a key-pair without an export password\<close>
  "demo_world1 = snd (generateKeyPair (demo_platform stream_up) 0 None demo_world0)"

definition sextet :: "unit16 \<Rightarrow> nat" where
  \<comment> \<open>the six bits that a character of the Base64 alphabet stands for\<close>
  "sextet c = (case indexOf base64_alphabet c of None \<Rightarrow> 0 | Some i \<Rightarrow> i)"

definition object_chain ::
  "('o, 'k) platform \<Rightarrow> 'k crypto \<Rightarrow> alg \<Rightarrow> nat \<Rightarrow> byte list \<Rightarrow> byte list \<Rightarrow> error + 'o" where
  \<comment> \<open>the promise chain of \<open>decryptObject\<close>, before its \<open>catch\<close>: the private key
      decrypts the initialisation vector and the symmetric key, the symmetric key is
      imported and decrypts the message, \<open>toObject\<close> reads the object\<close>
  "object_chain P c sAlgo ivBytes keyBuffer cipherBuffer =
     and_then (with_key (privateKey c) (\<lambda>k. decrypt_rsa P k keyBuffer)) (\<lambda>result.
       let (iVectorBuffer, sKeyBuffer) = splitInTwo result (int ivBytes) in
       and_then (importKey_raw P sAlgo sKeyBuffer) (\<lambda>sKey.
       and_then (decrypt_sym P sAlgo iVectorBuffer sKey cipherBuffer) (\<lambda>plainBuffer.
         toObject P plainBuffer)))"

definition demo_jwk :: demo_object where
  \<comment> \<open>the JSON Web Key that the platform exports for the private key \<open>n0\<close>\<close>
  "demo_jwk = Obj [(js ''kty'', js ''RSA''), (js ''n'', js ''n0''), (js ''d'', js ''private-exponent'')]"

section \<open>Facts about BufferTools\<close>

lemma unat_noise_length: "unat (noise_length r) = unat r mod 50 + 15"
  unfolding noise_length_def
  by (simp add: unat_word_ariths unat_mod)

lemma ucast_ucast_byte: "(ucast (ucast (b::byte) :: unit16) :: byte) = b"
  by (simp add: ucast_up_ucast_id is_up)

lemma ucast_byte_eq_iff: "((ucast (b::byte) :: unit16) = ucast (c::byte)) \<longleftrightarrow> b = c"
proof
  assume "(ucast b :: unit16) = ucast c"
  then have "(ucast (ucast b :: unit16) :: byte) = ucast (ucast c :: unit16)" by simp
  then show "b = c" by (simp only: ucast_ucast_byte)
qed simp

lemma ucast_unit16_byte: "(c::unit16) < 0x100 \<Longrightarrow> (ucast (ucast c :: byte) :: unit16) = c"
  by (simp add: word_unat_eq_iff unsigned_ucast_eq word_less_nat_alt take_bit_eq_mod unat_word_ariths)

lemma fromCharCode_fromAscii: "\<forall>c\<in>set s. c < 0x100 \<Longrightarrow> fromCharCode (fromAscii s) = s"
  by (induction s) (simp_all add: fromCharCode_def fromAscii_def ucast_unit16_byte)

lemma fromAscii_fromCharCode: "fromAscii (fromCharCode b) = b"
  by (induction b) (simp_all add: fromCharCode_def fromAscii_def ucast_ucast_byte)

lemma fromCharCode_append: "fromCharCode (a @ b) = fromCharCode a @ fromCharCode b"
  by (simp add: fromCharCode_def)

lemma fromCharCode_avoids: "c \<notin> set buf \<Longrightarrow> ucast c \<notin> set (fromCharCode buf)"
  by (auto simp: fromCharCode_def ucast_byte_eq_iff)

lemma noise_filler_ok: "noise_filler r \<notin> set nonNoiseCharacters"
  by (auto simp: noise_filler_def indexOf_def nonNoiseCharacters_def split: if_splits)

lemma fold_replace:
  "f \<notin> set nonNoiseCharacters \<Longrightarrow>
   fold (replace_byte f) nonNoiseCharacters noise =
   map (\<lambda>b. if b \<in> set nonNoiseCharacters then f else b) noise"
  by (auto simp: nonNoiseCharacters_def replace_byte_def)

lemma splitInTwo_inside:
  "n \<le> length xs \<Longrightarrow> splitInTwo xs (int n) = (take n xs, drop n xs)"
  by (simp add: splitInTwo_def subarray_def subarray_index_def min_def)

lemma upt_3: "[pos ..< pos + 3] = [pos, pos + 1, pos + 2]"
proof -
  have "[pos ..< pos + 3] = [pos ..< Suc (Suc (Suc pos))]" by (simp add: numeral_3_eq_3)
  also have "\<dots> = [pos, pos + 1, pos + 2]" by (simp add: upt_conv_Cons)
  finally show ?thesis .
qed

lemma getRandomValues_3:
  "getRandomValues P 3 pos =
     ([random_byte P pos, random_byte P (pos + 1), random_byte P (pos + 2)], pos + 3)"
  by (simp add: getRandomValues_def upt_3)

lemma match_object_framed:
  assumes pre: "\<forall>c\<in>set pre. c \<noteq> 0x7B" and post: "\<forall>c\<in>set post. c \<noteq> 0x7D"
    and mid: "mid \<noteq> []" "\<forall>c\<in>set mid. \<not> line_terminator c"
  shows "match_object (pre @ 0x7B # mid @ [0x7D] @ post) = Some (0x7B # mid @ [0x7D])"
proof -
  have 1: "dropWhile (\<lambda>c. c \<noteq> 0x7B) (pre @ 0x7B # mid @ [0x7D] @ post) = 0x7B # mid @ [0x7D] @ post"
    using pre by (simp add: dropWhile_append3)
  have 2: "dropWhile (\<lambda>c. c \<noteq> 0x7D) (rev (0x7B # mid @ [0x7D] @ post)) = 0x7D # rev mid @ [0x7B]"
    using post by (simp add: dropWhile_append3)
  have 3: "rev (0x7D # rev mid @ [0x7B]) = 0x7B # mid @ [0x7D]" by simp
  show ?thesis
    unfolding match_object_def 1 2 3 Let_def
    using mid by (cases mid) (simp_all add: list_all_iff)
qed

lemma fromObject_noise_eq:
  fixes P :: "('o, 'k) platform" and pos :: nat
  assumes "CryptoInterface P"
  defines "n0 \<equiv> unat (noise_length (random_byte P pos))"
    and "n1 \<equiv> unat (noise_length (random_byte P (pos + 1)))"
  shows "fromObject P pos obj True =
     Inr (take n0 (filtered_noise P pos (n0 + n1)) @ fromAscii (JSON_stringify P obj)
          @ drop n0 (filtered_noise P pos (n0 + n1)), pos + 3 + (n0 + n1))"
proof -
  define f where "f = noise_filler (random_byte P (pos + 2))"
  define noise where "noise = map (random_byte P) [pos + 3 ..< pos + 3 + (n0 + n1)]"
  have rnd: "getRandomValues P (n0 + n1) (pos + 3) = (noise, pos + 3 + (n0 + n1))"
    by (simp add: getRandomValues_def noise_def)
  have fld: "fold (replace_byte f) nonNoiseCharacters noise = filtered_noise P pos (n0 + n1)"
    unfolding f_def by (simp add: fold_replace [OF noise_filler_ok] filtered_noise_def noise_def)
  have len: "n0 \<le> length (filtered_noise P pos (n0 + n1))"
    by (simp add: filtered_noise_def)
  have spl: "splitInTwo (filtered_noise P pos (n0 + n1)) (uint (noise_length (random_byte P pos))) =
      (take n0 (filtered_noise P pos (n0 + n1)), drop n0 (filtered_noise P pos (n0 + n1)))"
    using splitInTwo_inside [OF len] by (simp add: n0_def)
  have n1': "unat (noise_length (random_byte P (Suc pos))) = n1" by (simp add: n1_def)
  have f': "noise_filler (random_byte P (Suc (Suc pos))) = f" by (simp add: f_def)
  have "fromObject P pos obj True =
      (case concat_buffers [take n0 (filtered_noise P pos (n0 + n1)), fromAscii (JSON_stringify P obj),
              drop n0 (filtered_noise P pos (n0 + n1))] of
         Inl e \<Rightarrow> Inl e | Inr buf \<Rightarrow> Inr (buf, pos + 3 + (n0 + n1)))"
    unfolding fromObject_def getRandomValues_3 Let_def
    using assms(1)
    by (simp add: n0_def [symmetric] n1' f' rnd fld spl)
  then show ?thesis
    by (simp add: concat_buffers_def)
qed

lemma filtered_noise_avoids: "set (filtered_noise P pos n) \<inter> set nonNoiseCharacters = {}"
  using noise_filler_ok [of "random_byte P (pos + 2)"]
  by (auto simp: filtered_noise_def)

lemma toAscii_eq: "int (length buf) \<le> max_arguments P \<Longrightarrow> toAscii P buf = Inr (fromCharCode buf)"
  by (simp add: toAscii_def fromCharCode_apply_def)

lemma toAscii_RangeError:
  "max_arguments P < int (length buf) \<Longrightarrow>
   toAscii P buf = Inl (JSError ''RangeError'' ''Maximum call stack size exceeded'')"
  by (simp add: toAscii_def fromCharCode_apply_def)

lemma toObject_RangeError:
  "max_arguments P < int (length buf) \<Longrightarrow>
   toObject P buf = Inl (JSError ''RangeError'' ''Maximum call stack size exceeded'')"
  by (simp add: toObject_def fromCharCode_apply_def)

lemma toObject_framed:
  assumes pre: "set pre \<inter> set nonNoiseCharacters = {}" and post: "set post \<inter> set nonNoiseCharacters = {}"
    and s: "s = 0x7B # mid @ [0x7D]" "mid \<noteq> []" "\<forall>c\<in>set mid. c < 0x100 \<and> \<not> line_terminator c"
    and lim: "int (length pre + length s + length post) \<le> max_arguments P"
  shows "toObject P (pre @ fromAscii s @ post) =
     (case JSON_parse P s of
        Inl e \<Rightarrow> Inl (Error (''BufferTools.toObject(): '' @ message e))
      | Inr dataObject \<Rightarrow> Inr dataObject)"
proof -
  have lt: "\<forall>c\<in>set s. c < 0x100" using s by auto
  have 1: "\<forall>c\<in>set (fromCharCode pre). c \<noteq> 0x7B"
    using pre fromCharCode_avoids [of "0x7B" pre] by (auto simp: nonNoiseCharacters_def)
  have 2: "\<forall>c\<in>set (fromCharCode post). c \<noteq> 0x7D"
    using post fromCharCode_avoids [of "0x7D" post] by (auto simp: nonNoiseCharacters_def)
  have "fromCharCode (pre @ fromAscii s @ post) = fromCharCode pre @ 0x7B # mid @ [0x7D] @ fromCharCode post"
    using fromCharCode_fromAscii [OF lt] by (simp add: fromCharCode_append s(1))
  then have "match_object (fromCharCode (pre @ fromAscii s @ post)) = Some s"
    using match_object_framed [OF 1 2 s(2)] s by simp
  moreover have "int (length (pre @ fromAscii s @ post)) \<le> max_arguments P"
    using lim by (simp add: fromAscii_def)
  ultimately show ?thesis by (simp add: toObject_def fromCharCode_apply_def)
qed

lemma fromObject_frame:
  fixes P :: "('o, 'k) platform" and pos :: nat and obj :: 'o
  assumes "CryptoInterface P"
  shows "\<exists>pre post pos'.
      fromObject P pos obj True = Inr (pre @ fromAscii (JSON_stringify P obj) @ post, pos')
    \<and> 15 \<le> length pre \<and> length pre \<le> 64 \<and> 15 \<le> length post \<and> length post \<le> 64
    \<and> pre @ post = filtered_noise P pos (length pre + length post)
    \<and> set (pre @ post) \<inter> set nonNoiseCharacters = {}
    \<and> fromObject P pos obj False = Inr (fromAscii (JSON_stringify P obj), pos)
    \<and> (\<forall>mid. JSON_stringify P obj = 0x7B # mid @ [0x7D] \<and> mid \<noteq> []
             \<and> (\<forall>c\<in>set mid. c < 0x100 \<and> \<not> line_terminator c)
             \<and> JSON_parse P (JSON_stringify P obj) = Inr obj
          \<longrightarrow> (int (length pre + length (JSON_stringify P obj) + length post) \<le> max_arguments P
                \<longrightarrow> toObject P (pre @ fromAscii (JSON_stringify P obj) @ post) = Inr obj)
            \<and> (int (length (JSON_stringify P obj)) \<le> max_arguments P
                \<longrightarrow> toObject P (fromAscii (JSON_stringify P obj)) = Inr obj))
    \<and> (max_arguments P < int (length pre + length (JSON_stringify P obj) + length post)
          \<longrightarrow> toObject P (pre @ fromAscii (JSON_stringify P obj) @ post) =
                Inl (JSError ''RangeError'' ''Maximum call stack size exceeded''))
    \<and> (max_arguments P < int (length (JSON_stringify P obj))
          \<longrightarrow> toObject P (fromAscii (JSON_stringify P obj)) =
                Inl (JSError ''RangeError'' ''Maximum call stack size exceeded''))"
proof -
  define n0 where "n0 = unat (noise_length (random_byte P pos))"
  define n1 where "n1 = unat (noise_length (random_byte P (pos + 1)))"
  define pre where "pre = take n0 (filtered_noise P pos (n0 + n1))"
  define post where "post = drop n0 (filtered_noise P pos (n0 + n1))"
  have len: "length (filtered_noise P pos (n0 + n1)) = n0 + n1"
    by (simp add: filtered_noise_def)
  have lpre: "length pre = n0" and lpost: "length post = n1"
    by (simp_all add: pre_def post_def len)
  have b0: "15 \<le> n0 \<and> n0 \<le> 64" and b1: "15 \<le> n1 \<and> n1 \<le> 64"
    unfolding n0_def n1_def unat_noise_length
    using mod_less_divisor [of 50 "unat (random_byte P pos)"]
      mod_less_divisor [of 50 "unat (random_byte P (pos + 1))"] by linarith+
  have whole: "pre @ post = filtered_noise P pos (n0 + n1)"
    by (simp add: pre_def post_def)
  have avoid: "set (pre @ post) \<inter> set nonNoiseCharacters = {}"
    unfolding whole by (rule filtered_noise_avoids)
  have avoid_pre: "set pre \<inter> set nonNoiseCharacters = {}"
    and avoid_post: "set post \<inter> set nonNoiseCharacters = {}"
    using avoid by auto
  have run: "fromObject P pos obj True =
      Inr (pre @ fromAscii (JSON_stringify P obj) @ post, pos + 3 + (n0 + n1))"
    using fromObject_noise_eq [OF assms, of pos obj] by (simp add: pre_def post_def n0_def n1_def)
  have plain: "fromObject P pos obj False = Inr (fromAscii (JSON_stringify P obj), pos)"
    by (simp add: fromObject_def)
  have rt1: "toObject P (pre @ fromAscii (JSON_stringify P obj) @ post) = Inr obj"
    if "JSON_stringify P obj = 0x7B # mid @ [0x7D]" "mid \<noteq> []"
      "\<forall>c\<in>set mid. c < 0x100 \<and> \<not> line_terminator c"
      "JSON_parse P (JSON_stringify P obj) = Inr obj"
      "int (length pre + length (JSON_stringify P obj) + length post) \<le> max_arguments P" for mid
    using toObject_framed [OF avoid_pre avoid_post that(1,2,3,5)] that(4) by simp
  have rt2: "toObject P (fromAscii (JSON_stringify P obj)) = Inr obj"
    if "JSON_stringify P obj = 0x7B # mid @ [0x7D]" "mid \<noteq> []"
      "\<forall>c\<in>set mid. c < 0x100 \<and> \<not> line_terminator c"
      "JSON_parse P (JSON_stringify P obj) = Inr obj"
      "int (length (JSON_stringify P obj)) \<le> max_arguments P" for mid
  proof -
    have "toObject P ([] @ fromAscii (JSON_stringify P obj) @ []) = Inr obj"
      using toObject_framed [OF _ _ that(1,2,3), of "[]" "[]" P] that(4,5) by simp
    then show ?thesis by simp
  qed
  show ?thesis
  proof (rule exI [of _ pre], rule exI [of _ post], rule exI [of _ "pos + 3 + (n0 + n1)"],
      intro conjI allI impI)
    show "fromObject P pos obj True =
        Inr (pre @ fromAscii (JSON_stringify P obj) @ post, pos + 3 + (n0 + n1))"
      by (rule run)
    show "15 \<le> length pre" "length pre \<le> 64" using b0 by (simp_all only: lpre)
    show "15 \<le> length post" "length post \<le> 64" using b1 by (simp_all only: lpost)
    show "pre @ post = filtered_noise P pos (length pre + length post)"
      by (simp only: lpre lpost whole)
    show "set (pre @ post) \<inter> set nonNoiseCharacters = {}" by (rule avoid)
    show "fromObject P pos obj False = Inr (fromAscii (JSON_stringify P obj), pos)" by (rule plain)
  next
    fix mid
    assume a: "JSON_stringify P obj = 0x7B # mid @ [0x7D] \<and> mid \<noteq> []
        \<and> (\<forall>c\<in>set mid. c < 0x100 \<and> \<not> line_terminator c)
        \<and> JSON_parse P (JSON_stringify P obj) = Inr obj"
      and l: "int (length pre + length (JSON_stringify P obj) + length post) \<le> max_arguments P"
    from a l rt1 [of mid]
    show "toObject P (pre @ fromAscii (JSON_stringify P obj) @ post) = Inr obj" by blast
  next
    fix mid
    assume a: "JSON_stringify P obj = 0x7B # mid @ [0x7D] \<and> mid \<noteq> []
        \<and> (\<forall>c\<in>set mid. c < 0x100 \<and> \<not> line_terminator c)
        \<and> JSON_parse P (JSON_stringify P obj) = Inr obj"
      and l: "int (length (JSON_stringify P obj)) \<le> max_arguments P"
    from a l rt2 [of mid]
    show "toObject P (fromAscii (JSON_stringify P obj)) = Inr obj" by blast
  next
    assume "max_arguments P < int (length pre + length (JSON_stringify P obj) + length post)"
    then show "toObject P (pre @ fromAscii (JSON_stringify P obj) @ post) =
        Inl (JSError ''RangeError'' ''Maximum call stack size exceeded'')"
      by (intro toObject_RangeError) (simp add: fromAscii_def)
  next
    assume "max_arguments P < int (length (JSON_stringify P obj))"
    then show "toObject P (fromAscii (JSON_stringify P obj)) =
        Inl (JSError ''RangeError'' ''Maximum call stack size exceeded'')"
      by (intro toObject_RangeError) (simp add: fromAscii_def)
  qed
qed

lemma fromObject_toObject:
  assumes "CryptoInterface P"
    and "fromObject P pos obj True = Inr (buf, pos')"
    and "JSON_stringify P obj = 0x7B # mid @ [0x7D]" "mid \<noteq> []"
      "\<forall>c\<in>set mid. c < 0x100 \<and> \<not> line_terminator c"
    and "JSON_parse P (JSON_stringify P obj) = Inr obj"
    and "int (length (JSON_stringify P obj) + 128) \<le> max_arguments P"
  shows "toObject P buf = Inr obj"
proof -
  from fromObject_frame [OF assms(1), of pos obj] obtain pre post pos1 where
    1: "fromObject P pos obj True = Inr (pre @ fromAscii (JSON_stringify P obj) @ post, pos1)"
    and 2: "length pre \<le> 64" "length post \<le> 64"
    and 3: "\<forall>mid. JSON_stringify P obj = 0x7B # mid @ [0x7D] \<and> mid \<noteq> []
             \<and> (\<forall>c\<in>set mid. c < 0x100 \<and> \<not> line_terminator c)
             \<and> JSON_parse P (JSON_stringify P obj) = Inr obj
          \<longrightarrow> (int (length pre + length (JSON_stringify P obj) + length post) \<le> max_arguments P
                \<longrightarrow> toObject P (pre @ fromAscii (JSON_stringify P obj) @ post) = Inr obj)
            \<and> (int (length (JSON_stringify P obj)) \<le> max_arguments P
                \<longrightarrow> toObject P (fromAscii (JSON_stringify P obj)) = Inr obj)"
    by blast
  from 1 assms(2) have b: "buf = pre @ fromAscii (JSON_stringify P obj) @ post" by simp
  from 2 assms(7)
  have "int (length pre + length (JSON_stringify P obj) + length post) \<le> max_arguments P" by simp
  with 3 assms(3,4,5,6) show ?thesis unfolding b by blast
qed

text \<open>
  C8, amended. With noise, \<open>fromObject\<close> puts between 15 and 64 bytes on each side of
  the JSON text. These bytes are the random bytes drawn for the call, where every byte equal
  to \<open>{\<close>, \<open>}\<close> or 0 is replaced with the filler of the call: the third random byte of
  the configuration, or the space character where that byte is one of the three itself. So
  the noise holds none of the three. Without noise the buffer is the JSON text. For an object
  whose JSON text is a \<open>{\<close>, at least one character and a \<open>}\<close>, these characters
  being below 256 and no line terminators, and which \<open>JSON.parse\<close> gives back from
  its text, \<open>toObject\<close> gives the object back from each of the two buffers that has no
  more bytes than the engine passes as arguments of a call. From a buffer with more bytes
  \<open>toObject\<close> throws a \<open>RangeError\<close>.
\<close>

theorem fromObject_noise_toObject:
  fixes P :: "('o, 'k) platform" and pos :: nat and obj :: 'o
  assumes "CryptoInterface P"
  shows "\<exists>pre post pos'.
      fromObject P pos obj True = Inr (pre @ fromAscii (JSON_stringify P obj) @ post, pos')
    \<and> 15 \<le> length pre \<and> length pre \<le> 64 \<and> 15 \<le> length post \<and> length post \<le> 64
    \<and> pre @ post = filtered_noise P pos (length pre + length post)
    \<and> set (pre @ post) \<inter> set nonNoiseCharacters = {}
    \<and> fromObject P pos obj False = Inr (fromAscii (JSON_stringify P obj), pos)
    \<and> (\<forall>mid. JSON_stringify P obj = 0x7B # mid @ [0x7D] \<and> mid \<noteq> []
             \<and> (\<forall>c\<in>set mid. c < 0x100 \<and> \<not> line_terminator c)
             \<and> JSON_parse P (JSON_stringify P obj) = Inr obj
          \<longrightarrow> (int (length pre + length (JSON_stringify P obj) + length post) \<le> max_arguments P
                \<longrightarrow> toObject P (pre @ fromAscii (JSON_stringify P obj) @ post) = Inr obj)
            \<and> (int (length (JSON_stringify P obj)) \<le> max_arguments P
                \<longrightarrow> toObject P (fromAscii (JSON_stringify P obj)) = Inr obj))
    \<and> (max_arguments P < int (length pre + length (JSON_stringify P obj) + length post)
          \<longrightarrow> toObject P (pre @ fromAscii (JSON_stringify P obj) @ post) =
                Inl (JSError ''RangeError'' ''Maximum call stack size exceeded''))
    \<and> (max_arguments P < int (length (JSON_stringify P obj))
          \<longrightarrow> toObject P (fromAscii (JSON_stringify P obj)) =
                Inl (JSError ''RangeError'' ''Maximum call stack size exceeded''))"
  using assms by (rule fromObject_frame)

lemma ob_text: "demo_stringify ob = 0x7B # [0x22, 0x61, 0x22, 0x3A, 0x22, 0x62, 0x22] @ [0x7D]"
  by code_simp

lemma ob_parse: "demo_parse (demo_stringify ob) = Inr ob"
  by code_simp

theorem fromObject_noise_toObject_witness:
  "CryptoInterface (demo_platform (stream_of 0x7B))
   \<and> (\<exists>pre post pos'.
        fromObject (demo_platform (stream_of 0x7B)) 0 ob True =
          Inr (pre @ fromAscii (demo_stringify ob) @ post, pos')
        \<and> pre @ post = filtered_noise (demo_platform (stream_of 0x7B)) 0 (length pre + length post)
        \<and> int (length pre + length (demo_stringify ob) + length post)
              \<le> max_arguments (demo_platform (stream_of 0x7B))
        \<and> toObject (demo_platform (stream_of 0x7B))
             (pre @ fromAscii (demo_stringify ob) @ post) =
           Inr ob)"
proof -
  let ?P = "demo_platform (stream_of 0x7B)"
  have c: "CryptoInterface ?P" by (simp add: demo_platform_def)
  have s: "JSON_stringify ?P ob = 0x7B # [0x22, 0x61, 0x22, 0x3A, 0x22, 0x62, 0x22] @ [0x7D]"
    using ob_text by (simp add: demo_platform_def)
  have p: "JSON_parse ?P (JSON_stringify ?P ob) = Inr ob"
    using ob_parse by (simp add: demo_platform_def)
  have m: "\<forall>c\<in>set [0x22, 0x61, 0x22, 0x3A, 0x22, 0x62, 0x22 :: unit16]. c < 0x100 \<and> \<not> line_terminator c"
    by (simp add: line_terminator_def)
  from fromObject_noise_toObject [OF c, of 0 ob]
  obtain pre post pos' where
    1: "fromObject ?P 0 ob True = Inr (pre @ fromAscii (JSON_stringify ?P ob) @ post, pos')"
    and 2: "pre @ post = filtered_noise ?P 0 (length pre + length post)"
    and b: "length pre \<le> 64" "length post \<le> 64"
    and 3: "\<forall>mid. JSON_stringify ?P ob = 0x7B # mid @ [0x7D] \<and> mid \<noteq> []
             \<and> (\<forall>c\<in>set mid. c < 0x100 \<and> \<not> line_terminator c)
             \<and> JSON_parse ?P (JSON_stringify ?P ob) = Inr ob
          \<longrightarrow> (int (length pre + length (JSON_stringify ?P ob) + length post) \<le> max_arguments ?P
                \<longrightarrow> toObject ?P (pre @ fromAscii (JSON_stringify ?P ob) @ post) = Inr ob)
            \<and> (int (length (JSON_stringify ?P ob)) \<le> max_arguments ?P
                \<longrightarrow> toObject ?P (fromAscii (JSON_stringify ?P ob)) = Inr ob)"
    by blast
  have l: "int (length pre + length (JSON_stringify ?P ob) + length post) \<le> max_arguments ?P"
    using b unfolding s by (simp add: demo_platform_def)
  from 3 s p m l have 4: "toObject ?P (pre @ fromAscii (JSON_stringify ?P ob) @ post) = Inr ob"
    by blast
  have js: "JSON_stringify ?P = demo_stringify" by (simp add: demo_platform_def)
  show ?thesis
    using c 1 2 l 4 unfolding js by blast
qed

theorem fromObject_filler_counterexample:
  "fst (getRandomValues (demo_platform stream_A) 30 3) = replicate 30 0
   \<and> fromObject (demo_platform stream_A) 0 ob True =
       Inr (replicate 15 0x41 @ fromAscii (demo_stringify ob) @ replicate 15 0x41, 33)"
  by code_simp

lemma hex_digits_list: "hex_digits = [48,49,50,51,52,53,54,55,56,57,97,98,99,100,101,102]"
  by (simp add: hex_digits_def js_def)

lemma length_hex_digits: "length hex_digits = 16"
  by (simp add: hex_digits_list)

lemma distinct_hex_digits: "distinct hex_digits"
  by (simp add: hex_digits_list)

lemma indexOf_nth: "distinct xs \<Longrightarrow> i < length xs \<Longrightarrow> indexOf xs (xs ! i) = Some i"
proof (induction xs arbitrary: i)
  case Nil
  then show ?case by simp
next
  case (Cons x xs)
  show ?case
  proof (cases i)
    case 0
    then show ?thesis by (simp add: indexOf_def)
  next
    case (Suc j)
    with Cons.prems have j: "j < length xs" and d: "distinct xs" and x: "x \<notin> set xs" by simp_all
    from x j have ne: "xs ! j \<noteq> x" by (metis nth_mem)
    from Cons.IH [OF d j] have "length (takeWhile (\<lambda>y. y \<noteq> xs ! j) xs) = j"
      by (simp add: indexOf_def split: if_splits)
    with ne j Suc show ?thesis by (simp add: indexOf_def)
  qed
qed

lemma toLowerCase_hex_digit: "c \<in> set hex_digits \<Longrightarrow> toLowerCase_unit c = c"
  by (auto simp: hex_digits_list toLowerCase_unit_def)

lemma hex_digit_nth_mem: "i < 16 \<Longrightarrow> hex_digits ! i \<in> set hex_digits"
  by (simp add: length_hex_digits)

lemma byte_div_mod: "of_nat (16 * (unat (b::byte) div 16) + unat b mod 16) = b"
  by simp

lemma unat_byte_div_16: "unat (b::byte) div 16 < 16"
  using unsigned_less [of b, where 'a = nat] by simp

lemma fromHex_loop_toHex: "fromHex_loop (map toLowerCase_unit (toHex buf)) = Inr buf"
proof (induction buf)
  case Nil
  then show ?case by (simp add: toHex_def)
next
  case (Cons b buf)
  have d1: "unat b div 16 < 16" by (rule unat_byte_div_16)
  have d2: "unat b mod 16 < 16" by simp
  have l1: "toLowerCase_unit (hex_digits ! (unat b div 16)) = hex_digits ! (unat b div 16)"
    by (rule toLowerCase_hex_digit [OF hex_digit_nth_mem [OF d1]])
  have l2: "toLowerCase_unit (hex_digits ! (unat b mod 16)) = hex_digits ! (unat b mod 16)"
    by (rule toLowerCase_hex_digit [OF hex_digit_nth_mem [OF d2]])
  have i1: "indexOf hex_digits (hex_digits ! (unat b div 16)) = Some (unat b div 16)"
    using d1 by (intro indexOf_nth distinct_hex_digits) (simp add: length_hex_digits)
  have i2: "indexOf hex_digits (hex_digits ! (unat b mod 16)) = Some (unat b mod 16)"
    using d2 by (intro indexOf_nth distinct_hex_digits) (simp add: length_hex_digits)
  have "toHex (b # buf) = hex_digits ! (unat b div 16) # hex_digits ! (unat b mod 16) # toHex buf"
    by (simp add: toHex_def)
  then show ?case
    using Cons.IH by (simp add: l1 l2 i1 i2 byte_div_mod del: of_nat_add of_nat_mult)
qed

lemma length_toHex: "length (toHex buf) = 2 * length buf"
  by (induction buf) (simp_all add: toHex_def)

lemma fromHex_toHex: "fromHex (toHex buf) = Inr buf"
  by (simp add: fromHex_def length_toHex fromHex_loop_toHex)

lemma toHex_append: "toHex (a @ b) = toHex a @ toHex b"
  by (simp add: toHex_def)

lemma set_toHex: "set (toHex buf) \<subseteq> set hex_digits"
proof (induction buf)
  case Nil
  then show ?case by (simp add: toHex_def)
next
  case (Cons b buf)
  have "toHex (b # buf) = hex_digits ! (unat b div 16) # hex_digits ! (unat b mod 16) # toHex buf"
    by (simp add: toHex_def)
  with Cons show ?case
    using hex_digit_nth_mem [OF unat_byte_div_16 [of b]] hex_digit_nth_mem [of "unat b mod 16"]
    by simp
qed

lemma hex_digit_plain:
  "c \<in> set hex_digits \<Longrightarrow> \<not> line_terminator c \<and> c \<noteq> 0x24 \<and> c < 0x100"
  by (auto simp: hex_digits_list line_terminator_def)

lemma toHex_plain: "c \<in> set (toHex buf) \<Longrightarrow> \<not> line_terminator c \<and> c \<noteq> 0x24 \<and> c < 0x100"
  using set_toHex [of buf] hex_digit_plain by blast

section \<open>Facts about the version prefix\<close>

lemma js_dollar: "js ''$'' = [0x24]"
  by (simp add: js_def)

lemma number_toString_version:
  "number_toString 1 = [0x31]" "number_toString 2 = [0x32]" "number_toString (Suc 0) = [0x31]"
  by (simp_all add: number_toString.simps)

lemma cipher_of_cases:
  "cipher_of version = Some (sAlgo, ivBytes) \<Longrightarrow>
   (version = 1 \<and> sAlgo = AES_CBC \<and> ivBytes = 16) \<or> (version = 2 \<and> sAlgo = AES_GCM \<and> ivBytes = 12)"
  by (auto simp: cipher_of_def split: if_splits)

lemma match_version_prefixed:
  assumes "version = 1 \<or> version = 2" and "rest \<noteq> []" and "\<forall>c\<in>set rest. \<not> line_terminator c"
  shows "match_version (number_toString version @ js ''$'' @ rest) = Some (number_toString version, rest)"
  using assms by (auto simp: match_version_def js_dollar is_digit_def list_all_iff number_toString_version)

lemma parseInt_version:
  "version = 1 \<or> version = 2 \<Longrightarrow> parseInt (number_toString version) = version"
  by (auto simp: parseInt_def number_toString_version)

lemma length_fill_key: "length (fill_key password buf i) = length buf"
proof (induction password buf i rule: fill_key.induct)
  case (1 password sKeyBuffer i)
  show ?case
  proof (cases "i < length sKeyBuffer")
    case True
    then have "fill_key password sKeyBuffer i =
        fill_key password
          (sKeyBuffer[i := (if password = [] then 0 else ucast (password ! (i mod length password)))])
          (i + 1)"
      by (subst fill_key.simps) simp
    with 1 [OF True] show ?thesis by simp
  next
    case False
    then show ?thesis by (subst fill_key.simps) simp
  qed
qed

lemma length_password_key: "length (password_key password) = 32"
  by (simp add: password_key_def length_fill_key)

lemma fill_key_eq:
  "i \<le> length buf \<Longrightarrow> password \<noteq> [] \<Longrightarrow>
   fill_key password buf i =
     take i buf @ map (\<lambda>j. ucast (password ! (j mod length password))) [i ..< length buf]"
proof (induction password buf i rule: fill_key.induct)
  case (1 password sKeyBuffer i)
  show ?case
  proof (cases "i < length sKeyBuffer")
    case True
    let ?b = "sKeyBuffer[i := ucast (password ! (i mod length password))]"
    have "fill_key password sKeyBuffer i = fill_key password ?b (i + 1)"
      using True 1(3) by (subst fill_key.simps) simp
    also have "\<dots> = take (i + 1) ?b
        @ map (\<lambda>j. ucast (password ! (j mod length password))) [i + 1 ..< length ?b]"
      using 1(1) True 1(3) by simp
    also have "take (i + 1) ?b = take i sKeyBuffer @ [ucast (password ! (i mod length password))]"
      using True by (simp add: take_Suc_conv_app_nth)
    finally show ?thesis
      using True by (simp add: upt_conv_Cons)
  next
    case False
    with 1(2) have "i = length sKeyBuffer" by simp
    then show ?thesis by (subst fill_key.simps) simp
  qed
qed

section \<open>Facts about encryptData and decryptData\<close>

lemma encryptData_eq:
  assumes "password \<noteq> []" and "CryptoInterface P"
    and "cipher_of version = Some (sAlgo, ivBytes)"
    and "fromObject P (pos + ivBytes) (data_object P dataString) True = Inr (dataBuffer, pos2)"
    and "importKey_raw P sAlgo (password_key password) = Inr sKey"
    and "encrypt_sym P sAlgo (map (random_byte P) [pos ..< pos + ivBytes]) sKey dataBuffer =
           Inr encryptedBuffer"
  shows "encryptData P pos dataString password version =
     Resolved (number_toString version @ js ''$''
       @ toHex (map (random_byte P) [pos ..< pos + ivBytes]) @ toHex encryptedBuffer)"
  using assms
  by (simp add: encryptData_def getRandomValues_def and_then_def settle_def)



lemma decryptData_data:
  assumes "encryptedData \<noteq> []" and "password \<noteq> []" and "CryptoInterface P"
    and "(case match_version encryptedData of None \<Rightarrow> (encryptedData, 1)
          | Some (v, d) \<Rightarrow> (d, parseInt v)) = (data, version)"
  shows "decryptData P encryptedData password =
     (case cipher_of version of
        None \<Rightarrow> Rejected (Error ''Crypto: Invalid arguments'')
      | Some (sAlgo, ivBytes) \<Rightarrow>
          (case fromHex (take (ivBytes * 2) data) of
             Inl e \<Rightarrow> Thrown e
           | Inr iVector \<Rightarrow>
               (case fromHex (drop (ivBytes * 2) data) of
                  Inl e \<Rightarrow> Thrown e
                | Inr encryptedBuffer \<Rightarrow>
                    (case decrypt_chain P sAlgo iVector encryptedBuffer password of
                       Inl e \<Rightarrow> Resolved None
                     | Inr r \<Rightarrow> Resolved r))))"
  using assms
  by (simp add: decryptData_def decrypt_chain_def Let_def
      split: option.splits prod.splits sum.splits)

lemma decryptData_eq:
  assumes "password \<noteq> []" and "CryptoInterface P"
    and c: "cipher_of version = Some (sAlgo, ivBytes)" and l: "length iVector = ivBytes"
  shows "decryptData P (number_toString version @ js ''$'' @ toHex iVector @ toHex encryptedBuffer)
           password =
     (case decrypt_chain P sAlgo iVector encryptedBuffer password of
        Inl e \<Rightarrow> Resolved None
      | Inr r \<Rightarrow> Resolved r)"
proof -
  let ?rest = "toHex iVector @ toHex encryptedBuffer"
  from cipher_of_cases [OF c] have v: "version = 1 \<or> version = 2" and n: "0 < ivBytes" by auto
  from n l have ne: "?rest \<noteq> []" by (auto simp: toHex_def)
  have lt: "\<forall>c\<in>set ?rest. \<not> line_terminator c"
    using toHex_plain by auto
  have m: "match_version (number_toString version @ js ''$'' @ ?rest)
      = Some (number_toString version, ?rest)"
    by (rule match_version_prefixed [OF v ne lt])
  have sel: "(case match_version (number_toString version @ js ''$'' @ ?rest) of
        None \<Rightarrow> (number_toString version @ js ''$'' @ ?rest, 1)
      | Some (v, d) \<Rightarrow> (d, parseInt v)) = (?rest, version)"
    unfolding m using parseInt_version [OF v] by simp
  have ne': "number_toString version @ js ''$'' @ ?rest \<noteq> []"
    using ne by simp
  have t: "take (ivBytes * 2) ?rest = toHex iVector" and d: "drop (ivBytes * 2) ?rest = toHex encryptedBuffer"
    using l by (simp_all add: length_toHex mult.commute)
  show ?thesis
    by (simp only: decryptData_data [OF ne' assms(1,2) sel] c option.case prod.case t d
        fromHex_toHex sum.case)
qed

lemma encryptData_resolved:
  assumes "encryptData P pos dataString password version = Resolved encryptedData"
  shows "\<exists>sAlgo ivBytes dataBuffer pos2 sKey encryptedBuffer.
      password \<noteq> [] \<and> CryptoInterface P \<and> cipher_of version = Some (sAlgo, ivBytes)
    \<and> fromObject P (pos + ivBytes) (data_object P dataString) True = Inr (dataBuffer, pos2)
    \<and> importKey_raw P sAlgo (password_key password) = Inr sKey
    \<and> encrypt_sym P sAlgo (map (random_byte P) [pos ..< pos + ivBytes]) sKey dataBuffer =
          Inr encryptedBuffer
    \<and> encryptedData = number_toString version @ js ''$''
          @ toHex (map (random_byte P) [pos ..< pos + ivBytes]) @ toHex encryptedBuffer"
  using assms
  by (auto simp: encryptData_def getRandomValues_def and_then_def settle_def
      split: if_splits option.splits sum.splits prod.splits)

lemma encryptData_decryptData:
  assumes enc: "encryptData P pos dataString password version = Resolved encryptedData"
    and contract: "\<And>sAlgo iv sKey buf e.
        importKey_raw P sAlgo (password_key password) = Inr sKey \<Longrightarrow>
        encrypt_sym P sAlgo iv sKey buf = Inr e \<Longrightarrow> decrypt_sym P sAlgo iv sKey e = Inr buf"
    and jtext: "JSON_stringify P (data_object P dataString) = 0x7B # mid @ [0x7D]" "mid \<noteq> []"
      "\<forall>c\<in>set mid. c < 0x100 \<and> \<not> line_terminator c"
    and parse: "JSON_parse P (JSON_stringify P (data_object P dataString)) = Inr (data_object P dataString)"
    and data: "data_of P (data_object P dataString) = Some dataString"
    and lim: "int (length (JSON_stringify P (data_object P dataString)) + 128) \<le> max_arguments P"
  shows "decryptData P encryptedData password = Resolved (Some dataString)"
proof -
  from encryptData_resolved [OF enc] obtain sAlgo ivBytes dataBuffer pos2 sKey encryptedBuffer where
    pw: "password \<noteq> []" and ci: "CryptoInterface P"
    and c: "cipher_of version = Some (sAlgo, ivBytes)"
    and fo: "fromObject P (pos + ivBytes) (data_object P dataString) True = Inr (dataBuffer, pos2)"
    and k: "importKey_raw P sAlgo (password_key password) = Inr sKey"
    and e: "encrypt_sym P sAlgo (map (random_byte P) [pos ..< pos + ivBytes]) sKey dataBuffer =
          Inr encryptedBuffer"
    and ed: "encryptedData = number_toString version @ js ''$''
          @ toHex (map (random_byte P) [pos ..< pos + ivBytes]) @ toHex encryptedBuffer"
    by blast
  have to: "toObject P dataBuffer = Inr (data_object P dataString)"
    by (rule fromObject_toObject [OF ci fo jtext parse lim])
  have d: "decrypt_sym P sAlgo (map (random_byte P) [pos ..< pos + ivBytes]) sKey encryptedBuffer
      = Inr dataBuffer"
    by (rule contract [OF k e])
  have chain: "decrypt_chain P sAlgo (map (random_byte P) [pos ..< pos + ivBytes]) encryptedBuffer
      password = Inr (Some dataString)"
    by (simp add: decrypt_chain_def and_then_def k d to data)
  show ?thesis
    unfolding ed
    by (subst decryptData_eq [OF pw ci c]) (simp_all add: chain)
qed

section \<open>Facts about the platform of the examples\<close>

lemma demo_platform_simps [simp]:
  "CryptoInterface (demo_platform rnd) = True"
  "max_arguments (demo_platform rnd) = 65536"
  "random_byte (demo_platform rnd) = rnd"
  "JSON_stringify (demo_platform rnd) = demo_stringify"
  "JSON_parse (demo_platform rnd) = demo_parse"
  "data_object (demo_platform rnd) s = Obj [(js ''data'', s)]"
  "data_of (demo_platform rnd) = demo_data"
  "btoa (demo_platform rnd) = browser_btoa"
  "atob (demo_platform rnd) = browser_atob"
  "digest (demo_platform rnd) bytes = Inr (map (\<lambda>i. sum_list bytes + of_nat i) [0 ..< 32])"
  "importKey_raw (demo_platform rnd) a raw =
     (if length raw = 32 then Inr (SymKey a raw) else Inl (JSError ''DataError'' ''key length''))"
  "generateKey_sym (demo_platform rnd) a n = Inr (SymKey a (replicate 32 (of_nat n)))"
  "exportKey_raw (demo_platform rnd) = demo_exportKey_raw"
  "encrypt_sym (demo_platform rnd) = demo_encrypt"
  "decrypt_sym (demo_platform rnd) = demo_decrypt"
  "encrypt_rsa (demo_platform rnd) = demo_encrypt_rsa"
  "decrypt_rsa (demo_platform rnd) = demo_decrypt_rsa"
  "generateKey_rsa (demo_platform rnd) extractable n =
     Inr (PublicKey (js ''n'' @ number_toString n), PrivateKey (js ''n'' @ number_toString n))"
  "exportKey_jwk (demo_platform rnd) = demo_exportKey_jwk"
  "importKey_jwk (demo_platform rnd) = demo_importKey_jwk"
  "jwk_n (demo_platform rnd) jwk =
     (case demo_property jwk (js ''n'') of None \<Rightarrow> js ''undefined'' | Some n \<Rightarrow> n)"
  "public_jwk (demo_platform rnd) m =
     Obj [(js ''alg'', js ''RSA-OAEP-256''), (js ''e'', js ''AQAB''), (js ''kty'', js ''RSA''), (js ''n'', m)]"
  by (simp_all add: demo_platform_def)

lemma demo_decrypt_encrypt:
  "demo_encrypt a iv k buf = Inr e \<Longrightarrow> demo_decrypt a iv k e = Inr buf"
  by (cases k) (auto simp: comp_def split: if_splits)

lemma demo_encrypt_resolves:
  "\<exists>e. demo_encrypt a iv (SymKey a raw) buf = Inr e"
  by simp

lemma demo_data_text:
  "demo_stringify (Obj [(js ''data'', js ''hi'')]) =
     0x7B # [0x22, 0x64, 0x61, 0x74, 0x61, 0x22, 0x3A, 0x22, 0x68, 0x69, 0x22] @ [0x7D]"
  by code_simp

lemma demo_data_parse:
  "demo_parse (demo_stringify (Obj [(js ''data'', js ''hi'')])) = Inr (Obj [(js ''data'', js ''hi'')])"
  by code_simp

lemma demo_encryptData_resolves:
  assumes "password \<noteq> []" and "version = 1 \<or> version = 2"
  shows "\<exists>encryptedData.
     encryptData (demo_platform rnd) pos dataString password version = Resolved encryptedData"
proof -
  from assms(2) obtain sAlgo ivBytes where c: "cipher_of version = Some (sAlgo, ivBytes)"
    by (auto simp: cipher_of_def)
  have ci: "CryptoInterface (demo_platform rnd)" by simp
  from fromObject_frame [OF ci, of "pos + ivBytes" "data_object (demo_platform rnd) dataString"]
  obtain dataBuffer pos2 where
    fo: "fromObject (demo_platform rnd) (pos + ivBytes) (data_object (demo_platform rnd) dataString) True
         = Inr (dataBuffer, pos2)"
    by blast
  have k: "importKey_raw (demo_platform rnd) sAlgo (password_key password)
      = Inr (SymKey sAlgo (password_key password))"
    by (simp add: length_password_key)
  have e: "encrypt_sym (demo_platform rnd) sAlgo (map (random_byte (demo_platform rnd)) [pos ..< pos + ivBytes])
        (SymKey sAlgo (password_key password)) dataBuffer =
      Inr (map (\<lambda>b. b + key_tag (password_key password) (map rnd [pos ..< pos + ivBytes])) dataBuffer
           @ [key_tag (password_key password) (map rnd [pos ..< pos + ivBytes])])"
    by simp
  from encryptData_eq [OF assms(1) ci c fo k e] show ?thesis by blast
qed

section \<open>The claims about encryptData and decryptData\<close>

lemma password_key_cyclic:
  "password \<noteq> [] \<Longrightarrow> password_key password = cyclic_repetition password"
  using fill_key_eq [of 0 "replicate 32 0" password]
  by (simp add: password_key_def cyclic_repetition_def)

lemma demo_hi_roundtrip:
  assumes "password \<noteq> []"
    and "encryptData (demo_platform rnd) pos (js ''hi'') password version = Resolved encryptedData"
  shows "decryptData (demo_platform rnd) encryptedData password = Resolved (Some (js ''hi''))"
proof (rule encryptData_decryptData [OF assms(2)])
  fix sAlgo iv sKey buf e
  assume "encrypt_sym (demo_platform rnd) sAlgo iv sKey buf = Inr e"
  then show "decrypt_sym (demo_platform rnd) sAlgo iv sKey e = Inr buf"
    by (simp add: demo_decrypt_encrypt)
next
  show "JSON_stringify (demo_platform rnd) (data_object (demo_platform rnd) (js ''hi'')) =
      0x7B # [0x22, 0x64, 0x61, 0x74, 0x61, 0x22, 0x3A, 0x22, 0x68, 0x69, 0x22] @ [0x7D]"
    using demo_data_text by simp
  show "[0x22, 0x64, 0x61, 0x74, 0x61, 0x22, 0x3A, 0x22, 0x68, 0x69, 0x22 :: unit16] \<noteq> []" by simp
  show "\<forall>c\<in>set [0x22, 0x64, 0x61, 0x74, 0x61, 0x22, 0x3A, 0x22, 0x68, 0x69, 0x22 :: unit16].
      c < 0x100 \<and> \<not> line_terminator c"
    by (simp add: line_terminator_def)
  show "JSON_parse (demo_platform rnd)
        (JSON_stringify (demo_platform rnd) (data_object (demo_platform rnd) (js ''hi''))) =
      Inr (data_object (demo_platform rnd) (js ''hi''))"
    using demo_data_parse by simp
  show "data_of (demo_platform rnd) (data_object (demo_platform rnd) (js ''hi'')) = Some (js ''hi'')"
    by (simp add: demo_data_def js_def)
  show "int (length (JSON_stringify (demo_platform rnd) (data_object (demo_platform rnd) (js ''hi''))) + 128)
      \<le> max_arguments (demo_platform rnd)"
    using demo_data_text by simp
qed

text \<open>
  C10. The key of \<open>encryptData\<close> and \<open>decryptData\<close> is the cyclic repetition of the
  character codes of the password on 32 bytes. So two passwords that are not empty and have
  the same repetition have the same key, they encrypt to the same string, \<open>decryptData\<close>
  gives the same result with both, and what was encrypted with one and decrypts with it
  decrypts with the other.
\<close>

theorem password_key_repetition:
  assumes "p1 \<noteq> []" and "p2 \<noteq> []" and "cyclic_repetition p1 = cyclic_repetition p2"
  shows "password_key p1 = cyclic_repetition p1 \<and> password_key p2 = cyclic_repetition p2
    \<and> password_key p1 = password_key p2
    \<and> encryptData P pos dataString p2 version = encryptData P pos dataString p1 version
    \<and> decryptData P encryptedData p2 = decryptData P encryptedData p1
    \<and> (encryptData P pos dataString p1 version = Resolved encryptedData
         \<and> decryptData P encryptedData p1 = Resolved (Some dataString)
       \<longrightarrow> decryptData P encryptedData p2 = Resolved (Some dataString))"
proof -
  have k: "password_key p1 = password_key p2"
    using assms by (simp add: password_key_cyclic)
  have e: "encryptData P pos dataString p2 version = encryptData P pos dataString p1 version"
    using assms(1,2) unfolding encryptData_def k by simp
  have d: "decryptData P encryptedData p2 = decryptData P encryptedData p1"
    using assms(1,2) unfolding decryptData_def k by simp
  show ?thesis
    using k e d assms by (simp add: password_key_cyclic)
qed

theorem password_key_repetition_witness:
  "js ''ab'' \<noteq> [] \<and> js ''abab'' \<noteq> []
   \<and> cyclic_repetition (js ''ab'') = cyclic_repetition (js ''abab'')
   \<and> password_key (js ''ab'') = password_key (js ''abab'')
   \<and> (\<exists>encryptedData.
         encryptData (demo_platform stream_up) 0 (js ''hi'') (js ''ab'') 2 = Resolved encryptedData
       \<and> decryptData (demo_platform stream_up) encryptedData (js ''abab'') = Resolved (Some (js ''hi'')))"
proof -
  have 1: "js ''ab'' \<noteq> []" and 2: "js ''abab'' \<noteq> []" by (simp_all add: js_def)
  have 3: "cyclic_repetition (js ''ab'') = cyclic_repetition (js ''abab'')" by code_simp
  from demo_encryptData_resolves [OF 1, of 2 stream_up 0 "js ''hi''"] obtain c where
    4: "encryptData (demo_platform stream_up) 0 (js ''hi'') (js ''ab'') 2 = Resolved c"
    by auto
  have 5: "decryptData (demo_platform stream_up) c (js ''ab'') = Resolved (Some (js ''hi''))"
    by (rule demo_hi_roundtrip [OF 1 4])
  note t = password_key_repetition [OF 1 2 3, of "demo_platform stream_up" 0 "js ''hi''" 2 c]
  from t have k: "password_key (js ''ab'') = password_key (js ''abab'')" by blast
  from t 4 5 have d:
    "decryptData (demo_platform stream_up) c (js ''abab'') = Resolved (Some (js ''hi''))"
    by blast
  from 1 2 3 4 k d show ?thesis by blast
qed

lemma match_version_no_dollar:
  assumes "0x24 \<notin> set s"
  shows "match_version s = None"
proof (cases "dropWhile is_digit s")
  case Nil
  show ?thesis unfolding match_version_def Let_def Nil by simp
next
  case (Cons c r)
  have "c \<in> set (dropWhile is_digit s)" unfolding Cons by simp
  then have "c \<in> set s" by (rule set_dropWhileD)
  with assms have "c \<noteq> 0x24" by auto
  then show ?thesis unfolding match_version_def Let_def Cons by simp
qed

lemma decryptData_legacy:
  assumes "match_version e = None" and "e \<noteq> []" and "\<forall>c\<in>set e. \<not> line_terminator c"
  shows "decryptData P e password = decryptData P (js ''1$'' @ e) password"
proof -
  have m: "match_version (js ''1$'' @ e) = Some (number_toString 1, e)"
    using match_version_prefixed [OF _ assms(2,3), of 1]
    by (simp add: number_toString_version js_def)
  have p: "parseInt (number_toString 1) = 1" by (simp add: parseInt_version)
  show ?thesis
    unfolding decryptData_def m assms(1) using assms(2) p by (simp add: js_def)
qed

text \<open>
  C4, amended. The string that \<open>encryptData\<close> resolves with has the form
  \<open><version>$<ivHex><payloadHex>\<close> for both versions, 1 and 2: the version prefix is there
  for version 1 too. Its first character is the digit of the version, its second the
  \<open>$\<close>. After them come the hexadecimal digits of the initialisation vector, which is
  the random bytes drawn for the call, 16 bytes and 32 digits for version 1, 12 bytes and 24
  digits for version 2; the rest is the hexadecimal form of what the provider has encrypted
  with this vector and the key of the password. An input of \<open>decryptData\<close> that does not
  start with digits and a \<open>$\<close> is decrypted as the same input with the prefix \<open>1$\<close> is.
\<close>

theorem encryptData_format:
  "(encryptData P pos dataString password version = Resolved s \<longrightarrow>
      (version = 1 \<or> version = 2)
    \<and> (\<exists>sAlgo ivBytes dataBuffer pos2 sKey encryptedBuffer.
          cipher_of version = Some (sAlgo, ivBytes)
        \<and> ivBytes = (if version = 1 then 16 else 12)
        \<and> fromObject P (pos + ivBytes) (data_object P dataString) True = Inr (dataBuffer, pos2)
        \<and> importKey_raw P sAlgo (password_key password) = Inr sKey
        \<and> encrypt_sym P sAlgo (map (random_byte P) [pos ..< pos + ivBytes]) sKey dataBuffer
             = Inr encryptedBuffer
        \<and> s = number_toString version @ js ''$''
               @ toHex (map (random_byte P) [pos ..< pos + ivBytes]) @ toHex encryptedBuffer
        \<and> take 2 s = (if version = 1 then js ''1$'' else js ''2$'')
        \<and> take (2 * ivBytes) (drop 2 s) = toHex (map (random_byte P) [pos ..< pos + ivBytes])
        \<and> drop (2 + 2 * ivBytes) s = toHex encryptedBuffer))
   \<and> (e \<noteq> [] \<and> match_version e = None \<and> (\<forall>c\<in>set e. \<not> line_terminator c) \<longrightarrow>
        decryptData P e password = decryptData P (js ''1$'' @ e) password)"
proof (intro conjI impI)
  assume a: "encryptData P pos dataString password version = Resolved s"
  from encryptData_resolved [OF a] obtain sAlgo ivBytes dataBuffer pos2 sKey encryptedBuffer where
    c: "cipher_of version = Some (sAlgo, ivBytes)"
    and fo: "fromObject P (pos + ivBytes) (data_object P dataString) True = Inr (dataBuffer, pos2)"
    and k: "importKey_raw P sAlgo (password_key password) = Inr sKey"
    and en: "encrypt_sym P sAlgo (map (random_byte P) [pos ..< pos + ivBytes]) sKey dataBuffer
          = Inr encryptedBuffer"
    and s: "s = number_toString version @ js ''$''
          @ toHex (map (random_byte P) [pos ..< pos + ivBytes]) @ toHex encryptedBuffer"
    by blast
  from cipher_of_cases [OF c] show v: "version = 1 \<or> version = 2" by blast
  from cipher_of_cases [OF c] have n: "ivBytes = (if version = 1 then 16 else 12)" by auto
  have l: "length (toHex (map (random_byte P) [pos ..< pos + ivBytes])) = 2 * ivBytes"
    by (simp add: length_toHex)
  have p: "number_toString version @ js ''$'' = (if version = 1 then js ''1$'' else js ''2$'')"
    using v by (auto simp: number_toString_version js_def)
  have lp: "length (number_toString version @ js ''$'') = 2"
    using v by (auto simp: number_toString_version js_def)
  have t2: "take 2 s = (if version = 1 then js ''1$'' else js ''2$'')"
    unfolding s p [symmetric] using lp by simp
  have d2: "drop 2 s = toHex (map (random_byte P) [pos ..< pos + ivBytes]) @ toHex encryptedBuffer"
    unfolding s using lp by simp
  have ti: "take (2 * ivBytes) (drop 2 s) = toHex (map (random_byte P) [pos ..< pos + ivBytes])"
    unfolding d2 using l by simp
  have "drop (2 + 2 * ivBytes) s = drop (2 * ivBytes) (drop 2 s)"
    by (simp add: add.commute)
  then have dr: "drop (2 + 2 * ivBytes) s = toHex encryptedBuffer"
    unfolding d2 using l by simp
  from c n fo k en s t2 ti dr
  show "\<exists>sAlgo ivBytes dataBuffer pos2 sKey encryptedBuffer.
          cipher_of version = Some (sAlgo, ivBytes)
        \<and> ivBytes = (if version = 1 then 16 else 12)
        \<and> fromObject P (pos + ivBytes) (data_object P dataString) True = Inr (dataBuffer, pos2)
        \<and> importKey_raw P sAlgo (password_key password) = Inr sKey
        \<and> encrypt_sym P sAlgo (map (random_byte P) [pos ..< pos + ivBytes]) sKey dataBuffer
             = Inr encryptedBuffer
        \<and> s = number_toString version @ js ''$''
               @ toHex (map (random_byte P) [pos ..< pos + ivBytes]) @ toHex encryptedBuffer
        \<and> take 2 s = (if version = 1 then js ''1$'' else js ''2$'')
        \<and> take (2 * ivBytes) (drop 2 s) = toHex (map (random_byte P) [pos ..< pos + ivBytes])
        \<and> drop (2 + 2 * ivBytes) s = toHex encryptedBuffer"
    by blast
next
  assume "e \<noteq> [] \<and> match_version e = None \<and> (\<forall>c\<in>set e. \<not> line_terminator c)"
  then show "decryptData P e password = decryptData P (js ''1$'' @ e) password"
    using decryptData_legacy by blast
qed

theorem encryptData_format_witness:
  "\<exists>s. encryptData (demo_platform stream_up) 0 (js ''hi'') (js ''ab'') 1 = Resolved s
     \<and> take 2 s = js ''1$''
     \<and> take 32 (drop 2 s) = toHex (map stream_up [0 ..< 16])
     \<and> drop 2 s \<noteq> [] \<and> match_version (drop 2 s) = None
     \<and> (\<forall>c\<in>set (drop 2 s). \<not> line_terminator c)
     \<and> decryptData (demo_platform stream_up) (drop 2 s) (js ''ab'') = Resolved (Some (js ''hi''))"
proof -
  let ?P = "demo_platform stream_up"
  have 1: "js ''ab'' \<noteq> []" by (simp add: js_def)
  from demo_encryptData_resolves [OF 1, of 1 stream_up 0 "js ''hi''"] obtain s where
    s: "encryptData ?P 0 (js ''hi'') (js ''ab'') 1 = Resolved s"
    by auto
  note t = encryptData_format [of ?P 0 "js ''hi''" "js ''ab''" 1 s "drop 2 s"]
  from t s obtain ivBytes encryptedBuffer where
    n: "ivBytes = (if (1::nat) = 1 then 16 else 12)"
    and f: "s = number_toString 1 @ js ''$''
          @ toHex (map (random_byte ?P) [0 ..< 0 + ivBytes]) @ toHex encryptedBuffer"
    and p: "take 2 s = (if (1::nat) = 1 then js ''1$'' else js ''2$'')"
    and ti: "take (2 * ivBytes) (drop 2 s) = toHex (map (random_byte ?P) [0 ..< 0 + ivBytes])"
    by blast
  from n have n16: "ivBytes = 16" by simp
  from p have p1: "take 2 s = js ''1$''" by simp
  from ti have t32: "take 32 (drop 2 s) = toHex (map stream_up [0 ..< 16])"
    unfolding n16 by simp
  have d: "drop 2 s = toHex (map (random_byte ?P) [0 ..< 0 + ivBytes]) @ toHex encryptedBuffer"
    unfolding f by (simp add: number_toString_version js_def)
  have ne: "drop 2 s \<noteq> []" unfolding d n16 by (simp add: toHex_def upt_conv_Cons)
  have pl: "\<forall>c\<in>set (drop 2 s). \<not> line_terminator c \<and> c \<noteq> 0x24"
    unfolding d using toHex_plain by auto
  then have m: "match_version (drop 2 s) = None"
    by (intro match_version_no_dollar) auto
  have "js ''1$'' @ drop 2 s = s" using p1 [symmetric] by simp
  with t ne m pl have "decryptData ?P (drop 2 s) (js ''ab'') = decryptData ?P s (js ''ab'')"
    by auto
  also have "\<dots> = Resolved (Some (js ''hi''))"
    by (rule demo_hi_roundtrip [OF 1 s])
  finally show ?thesis using s p1 t32 ne m pl by blast
qed

theorem encryptData_version_1_counterexample:
  "map_option (take 2) (resolved_value (encryptData (demo_platform stream_up) 0 (js ''hi'') (js ''ab'') 1))
     = Some (js ''1$'')"
proof -
  have 1: "js ''ab'' \<noteq> []" by (simp add: js_def)
  from demo_encryptData_resolves [OF 1, of 1 stream_up 0 "js ''hi''"] obtain s where
    s: "encryptData (demo_platform stream_up) 0 (js ''hi'') (js ''ab'') 1 = Resolved s"
    by auto
  from encryptData_resolved [OF s] have "take 2 s = js ''1$''"
    by (auto simp: number_toString_version js_def)
  then show ?thesis unfolding s resolved_value_def by simp
qed

text \<open>
  C3, amended. Let the input and the password be not empty and the crypto provider be
  there. An input whose version is neither 1 nor 2 is rejected with \<open>Invalid arguments\<close>,
  as an empty argument is. With version 1 or 2 and an initialisation vector and a payload
  that are hexadecimal, \<open>decryptData\<close> resolves: with the data string where the chain of
  key import, decryption, \<open>toObject\<close> and the check of the property \<open>data\<close> gives one,
  and with \<open>null\<close> wherever that chain fails, so a wrong password and a corrupted payload
  both give \<open>null\<close>.
\<close>

theorem decryptData_outcomes:
  assumes "encryptedData \<noteq> []" and "password \<noteq> []" and "CryptoInterface P"
    and "read_version encryptedData = (data, version)"
  shows "(cipher_of version = None \<longrightarrow>
            decryptData P encryptedData password = Rejected (Error ''Crypto: Invalid arguments''))
    \<and> (\<forall>sAlgo ivBytes iVector encryptedBuffer.
          cipher_of version = Some (sAlgo, ivBytes)
          \<and> fromHex (take (ivBytes * 2) data) = Inr iVector
          \<and> fromHex (drop (ivBytes * 2) data) = Inr encryptedBuffer
        \<longrightarrow> (\<exists>r. decryptData P encryptedData password = Resolved r)
          \<and> (\<forall>dataString.
                decrypt_chain P sAlgo iVector encryptedBuffer password = Inr (Some dataString)
                \<longrightarrow> decryptData P encryptedData password = Resolved (Some dataString))
          \<and> ((\<forall>dataString.
                decrypt_chain P sAlgo iVector encryptedBuffer password \<noteq> Inr (Some dataString))
                \<longrightarrow> decryptData P encryptedData password = Resolved None))"
proof -
  note d = decryptData_data [OF assms(1,2,3) assms(4) [unfolded read_version_def]]
  show ?thesis
  proof (intro conjI allI impI)
    assume "cipher_of version = None"
    then show "decryptData P encryptedData password = Rejected (Error ''Crypto: Invalid arguments'')"
      unfolding d by simp
  next
    fix sAlgo ivBytes iVector encryptedBuffer
    assume a: "cipher_of version = Some (sAlgo, ivBytes)
          \<and> fromHex (take (ivBytes * 2) data) = Inr iVector
          \<and> fromHex (drop (ivBytes * 2) data) = Inr encryptedBuffer"
    then have e: "decryptData P encryptedData password =
        (case decrypt_chain P sAlgo iVector encryptedBuffer password of
           Inl e \<Rightarrow> Resolved None | Inr r \<Rightarrow> Resolved r)"
      unfolding d by simp
    show "\<exists>r. decryptData P encryptedData password = Resolved r"
      unfolding e by (simp split: sum.split)
  next
    fix sAlgo ivBytes iVector encryptedBuffer dataString
    assume a: "cipher_of version = Some (sAlgo, ivBytes)
          \<and> fromHex (take (ivBytes * 2) data) = Inr iVector
          \<and> fromHex (drop (ivBytes * 2) data) = Inr encryptedBuffer"
      and c: "decrypt_chain P sAlgo iVector encryptedBuffer password = Inr (Some dataString)"
    from a have e: "decryptData P encryptedData password =
        (case decrypt_chain P sAlgo iVector encryptedBuffer password of
           Inl e \<Rightarrow> Resolved None | Inr r \<Rightarrow> Resolved r)"
      unfolding d by simp
    show "decryptData P encryptedData password = Resolved (Some dataString)"
      unfolding e c by simp
  next
    fix sAlgo ivBytes iVector encryptedBuffer
    assume a: "cipher_of version = Some (sAlgo, ivBytes)
          \<and> fromHex (take (ivBytes * 2) data) = Inr iVector
          \<and> fromHex (drop (ivBytes * 2) data) = Inr encryptedBuffer"
      and c: "\<forall>dataString.
          decrypt_chain P sAlgo iVector encryptedBuffer password \<noteq> Inr (Some dataString)"
    from a have e: "decryptData P encryptedData password =
        (case decrypt_chain P sAlgo iVector encryptedBuffer password of
           Inl e \<Rightarrow> Resolved None | Inr r \<Rightarrow> Resolved r)"
      unfolding d by simp
    show "decryptData P encryptedData password = Resolved None"
      unfolding e using c by (auto split: sum.split option.split)
  qed
qed

lemma hex_digits_code [code]:
  "hex_digits = [48,49,50,51,52,53,54,55,56,57,97,98,99,100,101,102]"
  by (rule hex_digits_list)

theorem decryptData_outcomes_witness:
  "js ''2$00000000000000000000000000'' \<noteq> [] \<and> js ''ab'' \<noteq> []
   \<and> CryptoInterface (demo_platform stream_up)
   \<and> read_version (js ''2$00000000000000000000000000'') = (js ''00000000000000000000000000'', 2)
   \<and> cipher_of 2 = Some (AES_GCM, 12)
   \<and> fromHex (take (12 * 2) (js ''00000000000000000000000000'')) = Inr (replicate 12 0)
   \<and> fromHex (drop (12 * 2) (js ''00000000000000000000000000'')) = Inr [0]
   \<and> (\<forall>dataString. decrypt_chain (demo_platform stream_up) AES_GCM (replicate 12 0) [0] (js ''ab'')
          \<noteq> Inr (Some dataString))
   \<and> decryptData (demo_platform stream_up) (js ''2$00000000000000000000000000'') (js ''ab'')
        = Resolved None"
proof -
  let ?P = "demo_platform stream_up"
  have 1: "js ''2$00000000000000000000000000'' \<noteq> []" and 2: "js ''ab'' \<noteq> []"
    by (simp_all add: js_def)
  have 3: "CryptoInterface ?P" by simp
  have 4: "read_version (js ''2$00000000000000000000000000'') = (js ''00000000000000000000000000'', 2)"
    by code_simp
  have 5: "cipher_of 2 = Some (AES_GCM, 12)" by (simp add: cipher_of_def)
  have 6: "fromHex (take (12 * 2) (js ''00000000000000000000000000'')) = Inr (replicate 12 0)"
    by code_simp
  have 7: "fromHex (drop (12 * 2) (js ''00000000000000000000000000'')) = Inr [0]"
    by code_simp
  have 8: "decrypt_chain ?P AES_GCM (replicate 12 0) [0] (js ''ab'')
      = Inl (JSError ''OperationError'' ''decryption failed'')"
    by code_simp
  then have 9: "\<forall>dataString. decrypt_chain ?P AES_GCM (replicate 12 0) [0] (js ''ab'')
          \<noteq> Inr (Some dataString)"
    by simp
  from decryptData_outcomes [OF 1 2 3 4] 5 6 7 9
  have "decryptData ?P (js ''2$00000000000000000000000000'') (js ''ab'') = Resolved None"
    by blast
  with 1 2 3 4 5 6 7 9 show ?thesis by blast
qed

theorem decryptData_unknown_version_counterexample:
  "decryptData (demo_platform stream_up) (js ''3$00'') (js ''ab'')
     = Rejected (Error ''Crypto: Invalid arguments'')"
  by code_simp

section \<open>Facts about the password hashes\<close>

lemma split_on_none: "d \<notin> set a \<Longrightarrow> split_on d a = [a]"
  by (induction a) auto

lemma split_on_append: "d \<notin> set a \<Longrightarrow> split_on d (a @ d # rest) = a # split_on d rest"
proof (induction a)
  case Nil
  then show ?case by simp
next
  case (Cons x a)
  then show ?case by auto
qed

lemma toHex_nonempty: "buf \<noteq> [] \<Longrightarrow> toHex buf \<noteq> []"
  by (cases buf) (simp_all add: toHex_def)

lemma js_literals:
  "js ''$ceph1$'' = 0x24 # js ''ceph1'' @ [0x24]"
  "0x24 \<notin> set (js ''ceph1'')" "0x24 \<notin> set (js ''hex'')" "0x24 \<notin> set (js ''base64'')"
  "js ''hex'' \<noteq> []" "js ''base64'' \<noteq> []" "js ''hex'' \<noteq> js ''base64''"
  by (simp_all add: js_def)

lemma match_hash_hash_string:
  assumes "0x24 \<notin> set encoding" "0x24 \<notin> set salt" "0x24 \<notin> set hash"
    and "encoding \<noteq> []" "salt \<noteq> []" "hash \<noteq> []"
  shows "match_hash (hash_string encoding salt hash) = Some (encoding, salt, hash)"
proof -
  have "hash_string encoding salt hash =
      [] @ 0x24 # (js ''ceph1'' @ 0x24 # (encoding @ 0x24 # (salt @ 0x24 # hash)))"
    by (simp add: hash_string_def js_literals(1) js_dollar)
  then have "split_on 0x24 (hash_string encoding salt hash) = [[], js ''ceph1'', encoding, salt, hash]"
    using assms(1,2,3) js_literals(2)
    by (simp only: split_on_append split_on_none empty_iff list.set not_False_eq_True)
  then show ?thesis
    using assms(4,5,6) by (simp add: match_hash_def)
qed

lemma hashPassword_hex_eq:
  assumes "password \<noteq> []" and "CryptoInterface P"
    and "salt = None \<or> salt = Some (toHex saltBuffer)"
    and "salt = None \<longrightarrow> saltBuffer = fst (getRandomValues P 16 pos)"
    and "saltBuffer \<noteq> []"
    and "digest P (fromAscii (password @ fromCharCode saltBuffer)) = Inr hashBuffer"
    and lim: "int (length saltBuffer) \<le> max_arguments P"
  shows "hashPassword P pos password salt (js ''hex'') =
     Resolved (hash_string (js ''hex'') (toHex saltBuffer) (toHex hashBuffer))"
proof -
  have ne: "toHex saltBuffer \<noteq> []" using assms(5) by (rule toHex_nonempty)
  note a = toAscii_eq [OF lim]
  from assms(3) show ?thesis
  proof
    assume n: "salt = None"
    with assms(4) have sb: "fst (getRandomValues P 16 pos) = saltBuffer" by simp
    show ?thesis
      unfolding hashPassword_def salt_of_def n
      using assms(1,2,6) by (simp add: sb a js_literals and_then_def settle_def Let_def)
  next
    assume s: "salt = Some (toHex saltBuffer)"
    show ?thesis
      unfolding hashPassword_def salt_of_def s
      using assms(1,2,6) ne by (simp add: a js_literals and_then_def settle_def fromHex_toHex)
  qed
qed

lemma checkPassword_hex_eq:
  assumes "password \<noteq> []" and "CryptoInterface P" and "saltBuffer \<noteq> []" and "hashBuffer \<noteq> []"
    and "digest P (fromAscii (password @ fromCharCode saltBuffer)) = Inr hashBuffer'"
    and lim: "int (length saltBuffer) \<le> max_arguments P" "int (length hashBuffer) \<le> max_arguments P"
      "int (length hashBuffer') \<le> max_arguments P"
  shows "checkPassword P password (hash_string (js ''hex'') (toHex saltBuffer) (toHex hashBuffer)) =
     Resolved (fromCharCode hashBuffer = fromCharCode hashBuffer')"
proof -
  note a = toAscii_eq [OF lim(1)] toAscii_eq [OF lim(2)] toAscii_eq [OF lim(3)]
  have ne: "toHex saltBuffer \<noteq> []" "toHex hashBuffer \<noteq> []"
    using assms(3,4) by (simp_all add: toHex_nonempty)
  have nd: "0x24 \<notin> set (toHex saltBuffer)" "0x24 \<notin> set (toHex hashBuffer)"
    using toHex_plain by blast+
  have m: "match_hash (hash_string (js ''hex'') (toHex saltBuffer) (toHex hashBuffer)) =
      Some (js ''hex'', toHex saltBuffer, toHex hashBuffer)"
    by (rule match_hash_hash_string [OF js_literals(3) nd js_literals(5) ne])
  have h: "hash_string (js ''hex'') (toHex saltBuffer) (toHex hashBuffer) \<noteq> []"
    by (simp add: hash_string_def js_def)
  show ?thesis
    unfolding checkPassword_def m
    using assms(1,2,5) h by (simp add: a js_literals and_then_def settle_def fromHex_toHex)
qed

lemma hashPassword_base64_eq:
  assumes "password \<noteq> []" and "CryptoInterface P"
    and "salt = None \<and> saltBuffer = fst (getRandomValues P 16 pos)
           \<and> btoa P (fromCharCode saltBuffer) = Inr saltEncoded
         \<or> (\<exists>s. salt = Some s \<and> s \<noteq> [] \<and> atob P s = Inr (fromCharCode saltBuffer)
               \<and> match_padding s = Some saltEncoded)"
    and "digest P (fromAscii (password @ fromCharCode saltBuffer)) = Inr hashBuffer"
    and "btoa P (fromCharCode hashBuffer) = Inr b64" and "match_padding b64 = Some hashEncoded"
    and lim: "16 \<le> max_arguments P" "int (length hashBuffer) \<le> max_arguments P"
  shows "hashPassword P pos password salt (js ''base64'') =
     Resolved (hash_string (js ''base64'') saltEncoded hashEncoded)"
  using assms(3)
proof
  assume a: "salt = None \<and> saltBuffer = fst (getRandomValues P 16 pos)
           \<and> btoa P (fromCharCode saltBuffer) = Inr saltEncoded"
  then have n: "salt = None" and sb: "fst (getRandomValues P 16 pos) = saltBuffer"
    and b: "btoa P (fromCharCode saltBuffer) = Inr saltEncoded" by auto
  from sb have "length saltBuffer = 16" by (auto simp: getRandomValues_def)
  with lim(1) have t: "toAscii P saltBuffer = Inr (fromCharCode saltBuffer)"
    by (simp add: toAscii_eq)
  show ?thesis
    unfolding hashPassword_def salt_of_def n
    using assms(1,2,4,5,6) b
    by (simp add: sb t toAscii_eq [OF lim(2)] js_literals and_then_def settle_def Let_def)
next
  assume "\<exists>s. salt = Some s \<and> s \<noteq> [] \<and> atob P s = Inr (fromCharCode saltBuffer)
               \<and> match_padding s = Some saltEncoded"
  then obtain s where s: "salt = Some s" and ne: "s \<noteq> []"
    and a: "atob P s = Inr (fromCharCode saltBuffer)" and m: "match_padding s = Some saltEncoded"
    by blast
  show ?thesis
    unfolding hashPassword_def salt_of_def s
    using assms(1,2,4,5,6) ne a m
    by (simp add: toAscii_eq [OF lim(2)] js_literals and_then_def settle_def)
qed

lemma checkPassword_base64_eq:
  assumes "password \<noteq> []" and "CryptoInterface P"
    and "saltEncoded \<noteq> []" "hashEncoded \<noteq> []"
    and "0x24 \<notin> set saltEncoded" "0x24 \<notin> set hashEncoded"
    and "atob P saltEncoded = Inr saltString" "atob P hashEncoded = Inr hashString"
    and "digest P (fromAscii (password @ saltString)) = Inr hashBuffer'"
    and lim: "int (length hashBuffer') \<le> max_arguments P"
  shows "checkPassword P password (hash_string (js ''base64'') saltEncoded hashEncoded) =
     Resolved (hashString = fromCharCode hashBuffer')"
proof -
  have m: "match_hash (hash_string (js ''base64'') saltEncoded hashEncoded) =
      Some (js ''base64'', saltEncoded, hashEncoded)"
    by (rule match_hash_hash_string [OF js_literals(4) assms(5,6) js_literals(6) assms(3,4)])
  have h: "hash_string (js ''base64'') saltEncoded hashEncoded \<noteq> []"
    by (simp add: hash_string_def js_def)
  show ?thesis
    unfolding checkPassword_def m
    using assms(1,2,7,8,9) h
    by (simp add: toAscii_eq [OF lim] js_literals and_then_def settle_def)
qed

lemma match_padding_nonempty: "match_padding s = Some u \<Longrightarrow> u \<noteq> [] \<and> set u \<subseteq> set s"
  by (auto simp: match_padding_def Let_def split: if_splits dest: set_takeWhileD)

lemma base64_alphabet_code [code]:
  "base64_alphabet =
    [0x41, 0x42, 0x43, 0x44, 0x45, 0x46, 0x47, 0x48, 0x49, 0x4A, 0x4B, 0x4C, 0x4D,
     0x4E, 0x4F, 0x50, 0x51, 0x52, 0x53, 0x54, 0x55, 0x56, 0x57, 0x58, 0x59, 0x5A,
     0x61, 0x62, 0x63, 0x64, 0x65, 0x66, 0x67, 0x68, 0x69, 0x6A, 0x6B, 0x6C, 0x6D,
     0x6E, 0x6F, 0x70, 0x71, 0x72, 0x73, 0x74, 0x75, 0x76, 0x77, 0x78, 0x79, 0x7A,
     0x30, 0x31, 0x32, 0x33, 0x34, 0x35, 0x36, 0x37, 0x38, 0x39, 0x2B, 0x2F]"
  by (simp add: base64_alphabet_def js_def)

text \<open>
  Where the hashes agree. For a password that is not empty, a crypto provider that is there,
  an engine that passes 16 arguments and as many as the digest has bytes, and a digest that
  is not empty: with the encoding \<open>hex\<close>, \<open>hashPassword\<close> with a fresh salt gives a hash
  string that \<open>checkPassword\<close> accepts, and hashing the password again with the salt of
  that string gives the same string. With the encoding \<open>base64\<close>, where \<open>atob\<close> inverts
  \<open>btoa\<close> on the salt and on the digest, with and without padding, the hash string of a
  fresh salt is accepted too; hashing again with its salt gives the hash string with the
  same digest part whose salt has lost its \<open>=\<close> padding.
\<close>

lemma hashPassword_checkPassword:
  assumes "password \<noteq> []" and "CryptoInterface P"
    and "saltBuffer = fst (getRandomValues P 16 pos)"
    and "digest P (fromAscii (password @ fromCharCode saltBuffer)) = Inr hashBuffer"
    and "hashBuffer \<noteq> []"
    and lim: "16 \<le> max_arguments P" "int (length hashBuffer) \<le> max_arguments P"
  shows
    "hashPassword P pos password None (js ''hex'')
        = Resolved (hash_string (js ''hex'') (toHex saltBuffer) (toHex hashBuffer))
     \<and> checkPassword P password (hash_string (js ''hex'') (toHex saltBuffer) (toHex hashBuffer))
        = Resolved True
     \<and> hashPassword P pos' password (Some (toHex saltBuffer)) (js ''hex'')
        = Resolved (hash_string (js ''hex'') (toHex saltBuffer) (toHex hashBuffer))
     \<and> (btoa P (fromCharCode saltBuffer) = Inr salt64 \<and> atob P salt64 = Inr (fromCharCode saltBuffer)
          \<and> match_padding salt64 = Some salt64' \<and> atob P salt64' = Inr (fromCharCode saltBuffer)
          \<and> 0x24 \<notin> set salt64
          \<and> btoa P (fromCharCode hashBuffer) = Inr hash64 \<and> match_padding hash64 = Some hash64'
          \<and> atob P hash64' = Inr (fromCharCode hashBuffer) \<and> 0x24 \<notin> set hash64
        \<longrightarrow> hashPassword P pos password None (js ''base64'')
              = Resolved (hash_string (js ''base64'') salt64 hash64')
          \<and> checkPassword P password (hash_string (js ''base64'') salt64 hash64') = Resolved True
          \<and> hashPassword P pos' password (Some salt64) (js ''base64'')
              = Resolved (hash_string (js ''base64'') salt64' hash64')
          \<and> checkPassword P password (hash_string (js ''base64'') salt64' hash64') = Resolved True)"
proof (intro conjI impI)
  have sb: "saltBuffer \<noteq> []" and ls: "int (length saltBuffer) \<le> max_arguments P"
    unfolding assms(3) using lim(1) by (simp_all add: getRandomValues_def)
  show "hashPassword P pos password None (js ''hex'')
        = Resolved (hash_string (js ''hex'') (toHex saltBuffer) (toHex hashBuffer))"
    using assms(3) by (intro hashPassword_hex_eq assms(1,2,4) sb ls) simp_all
  show "checkPassword P password (hash_string (js ''hex'') (toHex saltBuffer) (toHex hashBuffer))
        = Resolved True"
    using checkPassword_hex_eq [OF assms(1,2) sb assms(5,4) ls lim(2) lim(2)] by simp
  show "hashPassword P pos' password (Some (toHex saltBuffer)) (js ''hex'')
        = Resolved (hash_string (js ''hex'') (toHex saltBuffer) (toHex hashBuffer))"
    by (intro hashPassword_hex_eq assms(1,2,4) sb ls) simp_all
next
  assume b: "btoa P (fromCharCode saltBuffer) = Inr salt64 \<and> atob P salt64 = Inr (fromCharCode saltBuffer)
          \<and> match_padding salt64 = Some salt64' \<and> atob P salt64' = Inr (fromCharCode saltBuffer)
          \<and> 0x24 \<notin> set salt64
          \<and> btoa P (fromCharCode hashBuffer) = Inr hash64 \<and> match_padding hash64 = Some hash64'
          \<and> atob P hash64' = Inr (fromCharCode hashBuffer) \<and> 0x24 \<notin> set hash64"
  from b match_padding_nonempty [of salt64 salt64'] match_padding_nonempty [of hash64 hash64']
  have ne: "salt64 \<noteq> []" "salt64' \<noteq> []" "hash64' \<noteq> []"
    and nd: "0x24 \<notin> set salt64" "0x24 \<notin> set salt64'" "0x24 \<notin> set hash64'"
    by auto
  from b have bh: "btoa P (fromCharCode hashBuffer) = Inr hash64"
    and mh: "match_padding hash64 = Some hash64'" by simp_all
  show "hashPassword P pos password None (js ''base64'')
      = Resolved (hash_string (js ''base64'') salt64 hash64')"
    using b assms(3) by (intro hashPassword_base64_eq [OF assms(1,2) _ assms(4) bh mh lim]) auto
  show "checkPassword P password (hash_string (js ''base64'') salt64 hash64') = Resolved True"
    using checkPassword_base64_eq [OF assms(1,2) ne(1,3) nd(1,3) _ _ assms(4) lim(2),
        of "fromCharCode hashBuffer"] b
    by simp
  show "hashPassword P pos' password (Some salt64) (js ''base64'')
      = Resolved (hash_string (js ''base64'') salt64' hash64')"
    using b ne by (intro hashPassword_base64_eq [OF assms(1,2) _ assms(4) bh mh lim]) auto
  show "checkPassword P password (hash_string (js ''base64'') salt64' hash64') = Resolved True"
    using checkPassword_base64_eq [OF assms(1,2) ne(2,3) nd(2,3) _ _ assms(4) lim(2),
        of "fromCharCode hashBuffer"] b
    by simp
qed

lemma demo_salt: "fst (getRandomValues (demo_platform (stream_of 0)) 16 0) = replicate 16 0"
  by code_simp

lemma demo_digest:
  "digest (demo_platform (stream_of 0)) (fromAscii (js ''pw'' @ fromCharCode (replicate 16 0))) =
     Inr (map (\<lambda>i. 231 + of_nat i) [0 ..< 32])"
  by code_simp

lemma demo_salt64:
  "browser_btoa (fromCharCode (replicate 16 0)) = Inr (js ''AAAAAAAAAAAAAAAAAAAAAA=='')"
  "browser_atob (js ''AAAAAAAAAAAAAAAAAAAAAA=='') = Inr (fromCharCode (replicate 16 0))"
  "match_padding (js ''AAAAAAAAAAAAAAAAAAAAAA=='') = Some (js ''AAAAAAAAAAAAAAAAAAAAAA'')"
  "browser_atob (js ''AAAAAAAAAAAAAAAAAAAAAA'') = Inr (fromCharCode (replicate 16 0))"
  "0x24 \<notin> set (js ''AAAAAAAAAAAAAAAAAAAAAA=='')"
  by code_simp+

lemma demo_hash64:
  "browser_btoa (fromCharCode (map (\<lambda>i. 231 + of_nat i) [0 ..< 32])) =
     Inr (js ''5+jp6uvs7e7v8PHy8/T19vf4+fr7/P3+/wABAgMEBQY='')"
  "match_padding (js ''5+jp6uvs7e7v8PHy8/T19vf4+fr7/P3+/wABAgMEBQY='') =
     Some (js ''5+jp6uvs7e7v8PHy8/T19vf4+fr7/P3+/wABAgMEBQY'')"
  "browser_atob (js ''5+jp6uvs7e7v8PHy8/T19vf4+fr7/P3+/wABAgMEBQY'') =
     Inr (fromCharCode (map (\<lambda>i. 231 + of_nat i) [0 ..< 32]))"
  "0x24 \<notin> set (js ''5+jp6uvs7e7v8PHy8/T19vf4+fr7/P3+/wABAgMEBQY='')"
  by code_simp+

lemma demo_salt64_platform:
  "btoa (demo_platform (stream_of 0)) (fromCharCode (replicate 16 0)) = Inr (js ''AAAAAAAAAAAAAAAAAAAAAA=='')"
  "atob (demo_platform (stream_of 0)) (js ''AAAAAAAAAAAAAAAAAAAAAA=='') = Inr (fromCharCode (replicate 16 0))"
  "atob (demo_platform (stream_of 0)) (js ''AAAAAAAAAAAAAAAAAAAAAA'') = Inr (fromCharCode (replicate 16 0))"
  using demo_salt64 by simp_all

lemma demo_hash64_platform:
  "btoa (demo_platform (stream_of 0)) (fromCharCode (map (\<lambda>i. 231 + of_nat i) [0 ..< 32])) =
     Inr (js ''5+jp6uvs7e7v8PHy8/T19vf4+fr7/P3+/wABAgMEBQY='')"
  "atob (demo_platform (stream_of 0)) (js ''5+jp6uvs7e7v8PHy8/T19vf4+fr7/P3+/wABAgMEBQY'') =
     Inr (fromCharCode (map (\<lambda>i. 231 + of_nat i) [0 ..< 32]))"
  using demo_hash64 by simp_all

lemma demo_hashes_agree:
  "js ''pw'' \<noteq> [] \<and> CryptoInterface (demo_platform (stream_of 0))
   \<and> hashPassword (demo_platform (stream_of 0)) 0 (js ''pw'') None (js ''base64'')
       = Resolved (hash_string (js ''base64'') (js ''AAAAAAAAAAAAAAAAAAAAAA=='')
            (js ''5+jp6uvs7e7v8PHy8/T19vf4+fr7/P3+/wABAgMEBQY''))
   \<and> checkPassword (demo_platform (stream_of 0)) (js ''pw'')
         (hash_string (js ''base64'') (js ''AAAAAAAAAAAAAAAAAAAAAA=='')
            (js ''5+jp6uvs7e7v8PHy8/T19vf4+fr7/P3+/wABAgMEBQY'')) = Resolved True
   \<and> hashPassword (demo_platform (stream_of 0)) 7 (js ''pw'') (Some (js ''AAAAAAAAAAAAAAAAAAAAAA==''))
         (js ''base64'')
       = Resolved (hash_string (js ''base64'') (js ''AAAAAAAAAAAAAAAAAAAAAA'')
            (js ''5+jp6uvs7e7v8PHy8/T19vf4+fr7/P3+/wABAgMEBQY''))
   \<and> checkPassword (demo_platform (stream_of 0)) (js ''pw'')
         (hash_string (js ''hex'') (toHex (replicate 16 0)) (toHex (map (\<lambda>i. 231 + of_nat i) [0 ..< 32])))
       = Resolved True"
proof -
  let ?P = "demo_platform (stream_of 0)"
  have 1: "js ''pw'' \<noteq> []" by (simp add: js_def)
  have 2: "CryptoInterface ?P" by simp
  have 3: "replicate 16 0 = fst (getRandomValues ?P 16 0)" by (simp only: demo_salt)
  have 5: "map (\<lambda>i. 231 + of_nat i) [0 ..< 32] \<noteq> ([] :: byte list)" by simp
  have 6: "16 \<le> max_arguments ?P"
    "int (length (map (\<lambda>i. 231 + of_nat i) [0 ..< 32] :: byte list)) \<le> max_arguments ?P"
    by simp_all
  note t = hashPassword_checkPassword [OF 1 2 3 demo_digest 5 6,
      of 7 "js ''AAAAAAAAAAAAAAAAAAAAAA==''" "js ''AAAAAAAAAAAAAAAAAAAAAA''"
        "js ''5+jp6uvs7e7v8PHy8/T19vf4+fr7/P3+/wABAgMEBQY=''"
        "js ''5+jp6uvs7e7v8PHy8/T19vf4+fr7/P3+/wABAgMEBQY''"]
  from t demo_salt64_platform demo_hash64_platform demo_salt64(3,5) demo_hash64(2,4) 1 2 show ?thesis by blast
qed

text \<open>
  C6. With the encoding \<open>base64\<close>, hashing a password again with the salt of its hash
  string does not give that hash string. With random bytes that are all 0, the password
  \<open>pw\<close> and a fresh salt, \<open>hashPassword\<close> gives a hash string whose salt ends with the
  padding \<open>==\<close>; \<open>queryPasswordSalt\<close> gives that salt with its padding; and
  \<open>hashPassword\<close> with that salt gives a hash string with the same digest and the salt
  without the padding, which is another string.
\<close>

theorem hashPassword_base64_padding:
  "hashPassword (demo_platform (stream_of 0)) 0 (js ''pw'') None (js ''base64'')
     = Resolved (js ''$ceph1$base64$AAAAAAAAAAAAAAAAAAAAAA==$5+jp6uvs7e7v8PHy8/T19vf4+fr7/P3+/wABAgMEBQY'')
   \<and> queryPasswordSalt (demo_platform (stream_of 0))
       (js ''$ceph1$base64$AAAAAAAAAAAAAAAAAAAAAA==$5+jp6uvs7e7v8PHy8/T19vf4+fr7/P3+/wABAgMEBQY'')
     = Inr (Some (js ''AAAAAAAAAAAAAAAAAAAAAA==''))
   \<and> hashPassword (demo_platform (stream_of 0)) 0 (js ''pw'') (Some (js ''AAAAAAAAAAAAAAAAAAAAAA==''))
       (js ''base64'')
     = Resolved (js ''$ceph1$base64$AAAAAAAAAAAAAAAAAAAAAA$5+jp6uvs7e7v8PHy8/T19vf4+fr7/P3+/wABAgMEBQY'')
   \<and> js ''$ceph1$base64$AAAAAAAAAAAAAAAAAAAAAA$5+jp6uvs7e7v8PHy8/T19vf4+fr7/P3+/wABAgMEBQY''
     \<noteq> js ''$ceph1$base64$AAAAAAAAAAAAAAAAAAAAAA==$5+jp6uvs7e7v8PHy8/T19vf4+fr7/P3+/wABAgMEBQY''"
proof -
  let ?P = "demo_platform (stream_of 0)"
  have 1: "js ''pw'' \<noteq> []" by (simp add: js_def)
  have 2: "CryptoInterface ?P" by simp
  have 6: "16 \<le> max_arguments ?P"
    "int (length (map (\<lambda>i. 231 + of_nat i) [0 ..< 32] :: byte list)) \<le> max_arguments ?P"
    by simp_all
  have d: "js ''$ceph1$base64$AAAAAAAAAAAAAAAAAAAAAA$5+jp6uvs7e7v8PHy8/T19vf4+fr7/P3+/wABAgMEBQY''
     \<noteq> js ''$ceph1$base64$AAAAAAAAAAAAAAAAAAAAAA==$5+jp6uvs7e7v8PHy8/T19vf4+fr7/P3+/wABAgMEBQY''"
    by (simp add: js_def)
  have a: "hashPassword ?P 0 (js ''pw'') None (js ''base64'')
      = Resolved (hash_string (js ''base64'') (js ''AAAAAAAAAAAAAAAAAAAAAA=='')
            (js ''5+jp6uvs7e7v8PHy8/T19vf4+fr7/P3+/wABAgMEBQY''))"
    by (rule hashPassword_base64_eq [OF 1 2 _ demo_digest demo_hash64_platform(1) demo_hash64(2) 6])
      (simp only: demo_salt demo_salt64_platform simp_thms)
  have b: "hashPassword ?P 0 (js ''pw'') (Some (js ''AAAAAAAAAAAAAAAAAAAAAA=='')) (js ''base64'')
      = Resolved (hash_string (js ''base64'') (js ''AAAAAAAAAAAAAAAAAAAAAA'')
            (js ''5+jp6uvs7e7v8PHy8/T19vf4+fr7/P3+/wABAgMEBQY''))"
  proof (rule hashPassword_base64_eq [OF 1 2 _ demo_digest demo_hash64_platform(1) demo_hash64(2) 6])
    have "js ''AAAAAAAAAAAAAAAAAAAAAA=='' \<noteq> []" by (simp add: js_def)
    with demo_salt64_platform(2) demo_salt64(3)
    show "Some (js ''AAAAAAAAAAAAAAAAAAAAAA=='') = None
          \<and> replicate 16 0 = fst (getRandomValues ?P 16 0)
          \<and> btoa ?P (fromCharCode (replicate 16 0)) = Inr (js ''AAAAAAAAAAAAAAAAAAAAAA'')
        \<or> (\<exists>s. Some (js ''AAAAAAAAAAAAAAAAAAAAAA=='') = Some s \<and> s \<noteq> []
              \<and> atob ?P s = Inr (fromCharCode (replicate 16 0))
              \<and> match_padding s = Some (js ''AAAAAAAAAAAAAAAAAAAAAA''))"
      by blast
  qed
  have h1: "hash_string (js ''base64'') (js ''AAAAAAAAAAAAAAAAAAAAAA=='')
            (js ''5+jp6uvs7e7v8PHy8/T19vf4+fr7/P3+/wABAgMEBQY'')
      = js ''$ceph1$base64$AAAAAAAAAAAAAAAAAAAAAA==$5+jp6uvs7e7v8PHy8/T19vf4+fr7/P3+/wABAgMEBQY''"
    by (simp add: hash_string_def js_def)
  have h2: "hash_string (js ''base64'') (js ''AAAAAAAAAAAAAAAAAAAAAA'')
            (js ''5+jp6uvs7e7v8PHy8/T19vf4+fr7/P3+/wABAgMEBQY'')
      = js ''$ceph1$base64$AAAAAAAAAAAAAAAAAAAAAA$5+jp6uvs7e7v8PHy8/T19vf4+fr7/P3+/wABAgMEBQY''"
    by (simp add: hash_string_def js_def)
  have m: "match_hash (hash_string (js ''base64'') (js ''AAAAAAAAAAAAAAAAAAAAAA=='')
            (js ''5+jp6uvs7e7v8PHy8/T19vf4+fr7/P3+/wABAgMEBQY''))
      = Some (js ''base64'', js ''AAAAAAAAAAAAAAAAAAAAAA=='', js ''5+jp6uvs7e7v8PHy8/T19vf4+fr7/P3+/wABAgMEBQY'')"
    by (rule match_hash_hash_string) (simp_all add: js_def)
  have q: "queryPasswordSalt ?P (hash_string (js ''base64'') (js ''AAAAAAAAAAAAAAAAAAAAAA=='')
            (js ''5+jp6uvs7e7v8PHy8/T19vf4+fr7/P3+/wABAgMEBQY''))
      = Inr (Some (js ''AAAAAAAAAAAAAAAAAAAAAA==''))"
    unfolding queryPasswordSalt_def m by (simp add: hash_string_def js_def)
  from a b q d show ?thesis unfolding h1 h2 by blast
qed

text \<open>
  C7. For a hash string with the encoding \<open>hex\<close>, \<open>queryPasswordSalt\<close> does not encode
  the bytes of the salt in Base64: it decodes the hexadecimal salt as if it were Base64 and
  gives the bytes of the result in hexadecimal. For the salt \<open>00\<close>, the byte 0, whose
  Base64 encoding is \<open>AA==\<close>, it gives \<open>d3\<close>.
\<close>

theorem queryPasswordSalt_hex:
  "queryPasswordSalt (demo_platform (stream_of 0)) (js ''$ceph1$hex$00$00'') = Inr (Some (js ''d3''))
   \<and> fromHex (js ''00'') = Inr [0]
   \<and> and_then (toAscii (demo_platform (stream_of 0)) [0]) (btoa (demo_platform (stream_of 0)))
       = Inr (js ''AA=='')"
proof -
  have "queryPasswordSalt (demo_platform (stream_of 0)) (js ''$ceph1$hex$00$00'') = Inr (Some (js ''d3''))"
    and "fromHex (js ''00'') = Inr [0]"
    and "browser_btoa (fromCharCode [0]) = Inr (js ''AA=='')"
    by code_simp+
  then show ?thesis
    by (simp add: toAscii_def fromCharCode_apply_def and_then_def)
qed

section \<open>Facts about the key-pair of a session\<close>

lemma length_prefixes: "length publ_prefix = 16" "length priv_prefix = 16"
  by (simp_all add: publ_prefix_def priv_prefix_def js_def)

lemma no_keys_clear: "no_keys (crypto (clear_keys w))"
  by (simp add: no_keys_def clear_keys_def)

lemma session_ok_clear: "session_ok M (crypto (clear_keys w))"
  by (simp add: session_ok_def clear_keys_def)

lemma db_clear [simp]: "db (clear_keys w) = db w"
  by (simp add: clear_keys_def)

lemma session_ok_set:
  "keys_ok M ks \<Longrightarrow> session_ok M (crypto (set_keys ks w))"
  by (simp add: session_ok_def keys_ok_def set_keys_def)

lemma db_set [simp]: "db (set_keys ks w) = db w"
  by (simp add: set_keys_def)

lemma generate_keys_ok:
  assumes m: "matching_keys P M" and g: "generate_keys P pos exportPassword = Inr ks"
  shows "keys_ok M ks"
proof -
  from g obtain pub priv where
    gk: "generateKey_rsa P (exportPassword \<noteq> None) pos = Inr (pub, priv)"
    by (cases "generateKey_rsa P (exportPassword \<noteq> None) pos")
      (auto simp: generate_keys_def and_then_def)
  from m gk have mp: "M pub priv" unfolding matching_keys_def by blast
  show ?thesis
  proof (cases exportPassword)
    case None
    with g gk have "k_private ks = Some priv \<and> k_public ks = Some pub
        \<and> (\<exists>x. k_publicExport ks = Some (publ_prefix @ x))"
      by (auto simp: generate_keys_def and_then_def split: sum.splits)
    with mp show ?thesis
      using length_prefixes(1) by (auto simp: keys_ok_def)
  next
    case (Some pw)
    with g gk obtain jwk prv where
      e: "exportKey_jwk P priv = Inr jwk" and i: "importKey_jwk P jwk False Decrypt = Inr prv"
      and k: "k_private ks = Some prv \<and> k_public ks = Some pub
        \<and> (\<exists>x. k_publicExport ks = Some (publ_prefix @ x))"
      by (auto simp: generate_keys_def and_then_def split: sum.splits)
    from m mp e i have "M pub prv" unfolding matching_keys_def by blast
    with k show ?thesis
      using length_prefixes(1) by (auto simp: keys_ok_def)
  qed
qed

lemma import_keys_ok:
  assumes m: "matching_keys P M" and g: "import_keys P pKeyString result = Inr ks"
  shows "keys_ok M ks"
proof -
  from g obtain jwk prv pbl where
    i: "importKey_jwk P jwk False Decrypt = Inr prv"
    and j: "importKey_jwk P (public_jwk P (drop 16 (publ_prefix @ jwk_n P jwk))) True Encrypt = Inr pbl"
    and k: "k_private ks = Some prv \<and> k_public ks = Some pbl
        \<and> k_publicExport ks = Some (publ_prefix @ jwk_n P jwk)"
    by (auto simp: import_keys_def and_then_def split: sum.splits)
  from j have "importKey_jwk P (public_jwk P (jwk_n P jwk)) True Encrypt = Inr pbl"
    by (simp add: length_prefixes)
  with m i have "M pbl prv" unfolding matching_keys_def by blast
  with k show ?thesis
    using length_prefixes(1) by (auto simp: keys_ok_def)
qed

lemma world_ok_new:
  assumes "\<forall>key ks. items d key = Some ks \<longrightarrow> keys_ok M ks" and "new_Crypto dn d = Inr w"
  shows "world_ok M w"
  using assms
  by (auto simp: new_Crypto_def and_then_def init_def world_ok_def session_ok_def
      split: if_splits option.splits)

lemma world_ok_path: "world_ok M w \<Longrightarrow> setAccessPath path w = Inr w' \<Longrightarrow> world_ok M w'"
  by (auto simp: setAccessPath_def world_ok_def session_ok_def split: if_splits)

lemma world_ok_generate:
  assumes "matching_keys P M" and "world_ok M w"
  shows "world_ok M (snd (generateKeyPair P pos exportPassword w))"
proof (cases "generate_keys P pos exportPassword")
  case (Inl e)
  with assms(2) show ?thesis
    by (simp add: generateKeyPair_def world_ok_def session_ok_clear)
next
  case (Inr ks)
  from generate_keys_ok [OF assms(1) Inr] have "keys_ok M ks" .
  with assms(2) Inr show ?thesis
    by (simp add: generateKeyPair_def world_ok_def session_ok_set writeItem_def)
qed

lemma world_ok_load:
  assumes "world_ok M w"
  shows "world_ok M (snd (loadKeyPair P w))"
proof (cases "items (db w) (accessPath (crypto w))")
  case None
  with assms show ?thesis
    by (simp add: loadKeyPair_def readItem_def world_ok_def session_ok_clear)
next
  case (Some ks)
  with assms have "keys_ok M ks" by (auto simp: world_ok_def)
  then have "keys_ok M (ks\<lparr>k_privateExport := or_null (k_privateExport ks),
                              k_publicExport := or_null (k_publicExport ks)\<rparr>)"
    by (auto simp: keys_ok_def or_null_def)
  with assms Some show ?thesis
    by (simp add: loadKeyPair_def readItem_def world_ok_def session_ok_set)
qed

lemma world_ok_import_public:
  assumes "world_ok M w"
  shows "world_ok M (snd (importPublicKey P keyString w))"
  using assms
  by (auto simp: importPublicKey_def world_ok_def session_ok_clear session_ok_def clear_keys_def
      split: sum.splits)

lemma importPrivateKey_cases:
  "(fst (importPrivateKey P pKeyString exportPassword w) \<noteq> Resolved True
      \<and> snd (importPrivateKey P pKeyString exportPassword w) = w)
   \<or> (\<exists>result ks. import_keys P pKeyString result = Inr ks
        \<and> importPrivateKey P pKeyString exportPassword w =
            (Resolved True, set_keys ks (w\<lparr>db := writeItem (accessPath (crypto w)) ks (db w)\<rparr>)))"
  by (auto simp: importPrivateKey_def split: outcome.splits option.splits sum.splits)

lemma world_ok_import_private:
  assumes "matching_keys P M" and "world_ok M w"
  shows "world_ok M (snd (importPrivateKey P pKeyString exportPassword w))"
  using importPrivateKey_cases [of P pKeyString exportPassword w]
proof
  assume "fst (importPrivateKey P pKeyString exportPassword w) \<noteq> Resolved True
      \<and> snd (importPrivateKey P pKeyString exportPassword w) = w"
  with assms(2) show ?thesis by simp
next
  assume "\<exists>result ks. import_keys P pKeyString result = Inr ks
        \<and> importPrivateKey P pKeyString exportPassword w =
            (Resolved True, set_keys ks (w\<lparr>db := writeItem (accessPath (crypto w)) ks (db w)\<rparr>))"
  then obtain result ks where i: "import_keys P pKeyString result = Inr ks"
    and e: "importPrivateKey P pKeyString exportPassword w =
            (Resolved True, set_keys ks (w\<lparr>db := writeItem (accessPath (crypto w)) ks (db w)\<rparr>))"
    by blast
  from import_keys_ok [OF assms(1) i] have "keys_ok M ks" .
  with assms(2) show ?thesis
    unfolding e by (simp add: world_ok_def session_ok_set writeItem_def)
qed

lemma world_ok_remove: "world_ok M w \<Longrightarrow> world_ok M (snd (removeKeyPair w))"
  by (simp add: removeKeyPair_def world_ok_def session_ok_clear removeItem_def)

lemma reachable_ok:
  assumes "matching_keys P M" and "reachable P w"
  shows "world_ok M w"
  using assms(2)
proof (induction rule: reachable.induct)
  case (created dn w)
  then show ?case by (intro world_ok_new [of new_Database]) (simp_all add: new_Database_def)
next
  case (recreated w dn w')
  then show ?case by (intro world_ok_new [of "db w" M dn]) (simp_all add: world_ok_def)
next
  case (path_set w path w')
  then show ?case by (blast intro: world_ok_path)
next
  case (generated w pos exportPassword)
  then show ?case by (intro world_ok_generate assms(1))
next
  case (loaded w)
  then show ?case by (blast intro: world_ok_load)
next
  case (imported_public w keyString)
  then show ?case by (blast intro: world_ok_import_public)
next
  case (imported_private w pKeyString exportPassword)
  then show ?case by (intro world_ok_import_private assms(1))
next
  case (removed w)
  then show ?case by (blast intro: world_ok_remove)
qed

section \<open>The claims about the key-pair of a session\<close>

lemma demo_world0_created: "new_Crypto (Some (js ''db'')) new_Database = Inr demo_world0"
  by (simp add: new_Crypto_def and_then_def init_def new_Database_def demo_world0_def js_def)

lemma demo_available: "\<not> unavailable (demo_platform rnd) demo_world0"
  by (simp add: unavailable_def demo_world0_def isReady_def)

lemma demo_generate_keys:
  "generate_keys (demo_platform rnd) 0 None =
     Inr \<lparr>k_public = Some (PublicKey (js ''n0'')), k_private = Some (PrivateKey (js ''n0'')),
          k_publicExport = Some (publ_prefix @ js ''n0''), k_privateExport = None\<rparr>"
  by (simp add: generate_keys_def and_then_def js_def number_toString.simps)

lemma demo_world1_crypto:
  "crypto demo_world1 =
     \<lparr>publicKey = Some (PublicKey (js ''n0'')), privateKey = Some (PrivateKey (js ''n0'')),
      publicKeyExport = Some (publ_prefix @ js ''n0''), privateKeyExport = None,
      dbName = Some (js ''db''), accessPath = js ''default''\<rparr>"
  unfolding demo_world1_def generateKeyPair_def
  using demo_available [of stream_up]
  by (simp add: demo_generate_keys set_keys_def clear_keys_def demo_world0_def)

lemma demo_world1_available: "\<not> unavailable (demo_platform rnd) demo_world1"
  unfolding demo_world1_def generateKeyPair_def
  using demo_available [of stream_up]
  by (simp add: demo_generate_keys set_keys_def clear_keys_def demo_world0_def unavailable_def
      isReady_def writeItem_def)

lemma demo_world1_reachable: "reachable (demo_platform stream_up) demo_world1"
  unfolding demo_world1_def
  by (rule reachable.generated, rule reachable.created, rule demo_world0_created)

lemma demo_matching_keys: "matching_keys (demo_platform rnd) demo_pair"
  unfolding matching_keys_def
proof (intro conjI allI impI)
  fix extractable n pub priv
  assume "generateKey_rsa (demo_platform rnd) extractable n = Inr (pub, priv)"
  then show "demo_pair pub priv" by auto
next
  fix pub priv jwk priv'
  assume a: "demo_pair pub priv \<and> exportKey_jwk (demo_platform rnd) priv = Inr jwk
      \<and> importKey_jwk (demo_platform rnd) jwk False Decrypt = Inr priv'"
  then obtain n where "pub = PublicKey n" "priv = PrivateKey n"
    by (cases pub; cases priv) auto
  with a show "demo_pair pub priv'"
    by (auto simp: demo_importKey_jwk_def js_def split: if_splits)
next
  fix jwk priv pub
  assume a: "importKey_jwk (demo_platform rnd) jwk False Decrypt = Inr priv
      \<and> importKey_jwk (demo_platform rnd) (public_jwk (demo_platform rnd) (jwk_n (demo_platform rnd) jwk))
            True Encrypt = Inr pub"
  then obtain m where m: "demo_property jwk (js ''n'') = Some m" and p: "priv = PrivateKey m"
    by (auto simp: demo_importKey_jwk_def split: option.splits if_splits)
  from a m have "pub = PublicKey m"
    by (auto simp: demo_importKey_jwk_def js_def split: option.splits if_splits)
  with p show "demo_pair pub priv" by simp
qed

text \<open>
  C9. In every state that a session reaches by calls that finish one after the other,
  \<open>hasKeyPair\<close> implies \<open>hasPublicKey\<close>, and a private key in the session comes with the
  export string of a public key and with a public key that matches it, for every relation
  of matching keys that the key generation and the imports of the provider respect.
\<close>

theorem private_key_has_public_key:
  assumes "matching_keys P M" and "reachable P w"
  shows "(hasKeyPair (crypto w) \<longrightarrow> hasPublicKey (crypto w))
    \<and> (\<forall>priv. privateKey (crypto w) = Some priv \<longrightarrow>
          publicKeyExport (crypto w) \<noteq> None
          \<and> (\<exists>pub. publicKey (crypto w) = Some pub \<and> M pub priv))"
  using reachable_ok [OF assms]
  by (auto simp: world_ok_def session_ok_def hasKeyPair_def hasPublicKey_def)

theorem private_key_has_public_key_witness:
  "matching_keys (demo_platform stream_up) demo_pair
   \<and> reachable (demo_platform stream_up) demo_world1
   \<and> privateKey (crypto demo_world1) = Some (PrivateKey (js ''n0''))
   \<and> hasKeyPair (crypto demo_world1) \<and> hasPublicKey (crypto demo_world1)
   \<and> publicKeyExport (crypto demo_world1) \<noteq> None
   \<and> (\<exists>pub. publicKey (crypto demo_world1) = Some pub \<and> demo_pair pub (PrivateKey (js ''n0'')))"
proof -
  have k: "privateKey (crypto demo_world1) = Some (PrivateKey (js ''n0''))"
    by (simp add: demo_world1_crypto)
  have h: "hasKeyPair (crypto demo_world1)"
    by (simp add: demo_world1_crypto hasKeyPair_def)
  from private_key_has_public_key [OF demo_matching_keys demo_world1_reachable] k h
  have "hasPublicKey (crypto demo_world1)"
    and "publicKeyExport (crypto demo_world1) \<noteq> None
          \<and> (\<exists>pub. publicKey (crypto demo_world1) = Some pub \<and> demo_pair pub (PrivateKey (js ''n0'')))"
    by blast+
  with demo_matching_keys demo_world1_reachable k h show ?thesis by blast
qed

lemma demo_wrong_password:
  "decryptData (demo_platform stream_up) (js ''2$00000000000000000000000000'') (js ''ab'')
     = Resolved None"
  by code_simp

lemma demo_failed_import:
  "importPrivateKey (demo_platform stream_up)
       (priv_prefix @ js ''2$00000000000000000000000000'') (js ''ab'') demo_world1
     = (Resolved False, demo_world1)"
  unfolding importPrivateKey_def
  using demo_world1_available [of stream_up] demo_wrong_password
  by (simp add: length_prefixes) (simp add: js_def)

text \<open>
  What a failed load or import leaves. When \<open>loadKeyPair\<close> finds no record, and when the
  provider fails to import the key of \<open>importPublicKey\<close>, the four fields of the key-pair
  are \<open>null\<close> afterwards. A call of \<open>importPrivateKey\<close> that does not resolve with
  \<open>true\<close>, and a call of \<open>importPublicKey\<close> or \<open>loadKeyPair\<close> that its guards
  reject, leave the session and the database as they were before the call.
\<close>

lemma failed_load_or_import:
  "(\<not> unavailable P w \<and> items (db w) (accessPath (crypto w)) = None \<longrightarrow>
      fst (loadKeyPair P w) = Resolved () \<and> no_keys (crypto (snd (loadKeyPair P w))))
   \<and> (keyString \<noteq> [] \<and> take 16 keyString = publ_prefix \<and> CryptoInterface P
        \<and> importKey_jwk P (public_jwk P (drop 16 keyString)) True Encrypt = Inl e \<longrightarrow>
        fst (importPublicKey P keyString w) = Rejected e
        \<and> no_keys (crypto (snd (importPublicKey P keyString w))))
   \<and> (fst (importPrivateKey P pKeyString exportPassword w) \<noteq> Resolved True \<longrightarrow>
        snd (importPrivateKey P pKeyString exportPassword w) = w)
   \<and> (keyString = [] \<or> take 16 keyString \<noteq> publ_prefix \<or> \<not> CryptoInterface P \<longrightarrow>
        snd (importPublicKey P keyString w) = w)
   \<and> (unavailable P w \<longrightarrow> snd (loadKeyPair P w) = w)"
proof (intro conjI impI)
  assume "\<not> unavailable P w \<and> items (db w) (accessPath (crypto w)) = None"
  then show "fst (loadKeyPair P w) = Resolved ()" "no_keys (crypto (snd (loadKeyPair P w)))"
    by (simp_all add: loadKeyPair_def readItem_def no_keys_def clear_keys_def)
next
  assume "keyString \<noteq> [] \<and> take 16 keyString = publ_prefix \<and> CryptoInterface P
        \<and> importKey_jwk P (public_jwk P (drop 16 keyString)) True Encrypt = Inl e"
  then show "fst (importPublicKey P keyString w) = Rejected e"
    "no_keys (crypto (snd (importPublicKey P keyString w)))"
    by (simp_all add: importPublicKey_def no_keys_clear)
next
  assume "fst (importPrivateKey P pKeyString exportPassword w) \<noteq> Resolved True"
  with importPrivateKey_cases [of P pKeyString exportPassword w]
  show "snd (importPrivateKey P pKeyString exportPassword w) = w"
    by auto
next
  assume "keyString = [] \<or> take 16 keyString \<noteq> publ_prefix \<or> \<not> CryptoInterface P"
  then show "snd (importPublicKey P keyString w) = w"
    by (auto simp: importPublicKey_def)
next
  assume "unavailable P w"
  then show "snd (loadKeyPair P w) = w"
    by (simp add: loadKeyPair_def)
qed

lemma demo_failed_load_or_import:
  "\<not> unavailable (demo_platform stream_up) demo_world0
   \<and> items (db demo_world0) (accessPath (crypto demo_world0)) = None
   \<and> no_keys (crypto (snd (loadKeyPair (demo_platform stream_up) demo_world0)))
   \<and> publ_prefix \<noteq> [] \<and> take 16 publ_prefix = publ_prefix
   \<and> importKey_jwk (demo_platform stream_up) (public_jwk (demo_platform stream_up) (drop 16 publ_prefix))
        True Encrypt = Inl (JSError ''DataError'' ''empty modulus'')
   \<and> no_keys (crypto (snd (importPublicKey (demo_platform stream_up) publ_prefix demo_world1)))
   \<and> fst (importPrivateKey (demo_platform stream_up)
           (priv_prefix @ js ''2$00000000000000000000000000'') (js ''ab'') demo_world1) \<noteq> Resolved True
   \<and> snd (importPrivateKey (demo_platform stream_up)
           (priv_prefix @ js ''2$00000000000000000000000000'') (js ''ab'') demo_world1) = demo_world1
   \<and> snd (importPublicKey (demo_platform stream_up) [] demo_world1) = demo_world1"
proof -
  let ?P = "demo_platform stream_up"
  have 1: "\<not> unavailable ?P demo_world0" by (rule demo_available)
  have 2: "items (db demo_world0) (accessPath (crypto demo_world0)) = None"
    by (simp add: demo_world0_def)
  have 3: "publ_prefix \<noteq> []" "take 16 publ_prefix = publ_prefix" "CryptoInterface ?P"
    using length_prefixes(1) by auto
  have 4: "importKey_jwk ?P (public_jwk ?P (drop 16 publ_prefix)) True Encrypt
      = Inl (JSError ''DataError'' ''empty modulus'')"
    using length_prefixes(1) by (simp add: demo_importKey_jwk_def js_def)
  have 5: "fst (importPrivateKey ?P (priv_prefix @ js ''2$00000000000000000000000000'') (js ''ab'')
      demo_world1) \<noteq> Resolved True"
    by (simp add: demo_failed_import)
  note a = failed_load_or_import [of ?P demo_world0 publ_prefix
      "JSError ''DataError'' ''empty modulus''" "[]" "[]"]
  note b = failed_load_or_import [of ?P demo_world1 publ_prefix
      "JSError ''DataError'' ''empty modulus''"
      "priv_prefix @ js ''2$00000000000000000000000000''" "js ''ab''"]
  note c = failed_load_or_import [of ?P demo_world1 "[]"
      "JSError ''DataError'' ''empty modulus''" "[]" "[]"]
  from a 1 2 have l: "no_keys (crypto (snd (loadKeyPair ?P demo_world0)))" by blast
  from b 3 4 have p: "no_keys (crypto (snd (importPublicKey ?P publ_prefix demo_world1)))" by blast
  from b 5 have i: "snd (importPrivateKey ?P (priv_prefix @ js ''2$00000000000000000000000000'')
      (js ''ab'') demo_world1) = demo_world1" by blast
  from c have g: "snd (importPublicKey ?P [] demo_world1) = demo_world1" by blast
  from 1 2 l 3 4 p 5 i g show ?thesis by blast
qed



section \<open>Facts about Base64\<close>

lemma length_base64_alphabet: "length base64_alphabet = 64"
  by (simp add: base64_alphabet_code)

lemma distinct_base64_alphabet: "distinct base64_alphabet"
  by (simp add: base64_alphabet_code)

lemma base64_char_plain:
  "c \<in> set base64_alphabet \<Longrightarrow> c \<noteq> 0x3D \<and> \<not> ascii_whitespace c \<and> \<not> line_terminator c"
  by (auto simp: base64_alphabet_code ascii_whitespace_def line_terminator_def)

lemma base64_nth: "i < 64 \<Longrightarrow> base64_alphabet ! i \<in> set base64_alphabet"
  by (simp add: length_base64_alphabet)

lemma base64_index:
  "i < 64 \<Longrightarrow> (case indexOf base64_alphabet (base64_alphabet ! i) of None \<Rightarrow> 0 | Some j \<Rightarrow> j) = i"
  using indexOf_nth [OF distinct_base64_alphabet, of i] by (simp add: length_base64_alphabet)



lemma sextet_nth: "i < 64 \<Longrightarrow> sextet (base64_alphabet ! i) = i"
  unfolding sextet_def by (rule base64_index)

lemma group3:
  assumes "a < 256" "b < 256" "c < (256::nat)"
  shows "a div 4 * 4 + (a mod 4 * 16 + b div 16) div 16 = a"
    and "(a mod 4 * 16 + b div 16) mod 16 * 16 + (b mod 16 * 4 + c div 64) div 4 = b"
    and "(b mod 16 * 4 + c div 64) mod 4 * 64 + c mod 64 = c"
    and "a div 4 < 64" "a mod 4 * 16 + b div 16 < 64" "b mod 16 * 4 + c div 64 < 64" "c mod 64 < 64"
    and "a mod 4 * 16 < 64" "b mod 16 * 4 < 64"
    and "(a mod 4 * 16) div 16 = a mod 4" "(b mod 16 * 4) div 4 = b mod 16"
proof -
  have 1: "b div 16 < 16" "c div 64 < 4" "a div 4 < 64" using assms by simp_all
  have 2: "a mod 4 < 4" "b mod 16 < 16" by simp_all
  have 3: "(a mod 4 * 16 + b div 16) mod 16 = b div 16" using 1(1) by simp
  have 4: "(b mod 16 * 4 + c div 64) div 4 = b mod 16" using 1(2) by simp
  have 5: "(b mod 16 * 4 + c div 64) mod 4 = c div 64" using 1(2) by simp
  show "a div 4 * 4 + (a mod 4 * 16 + b div 16) div 16 = a"
    using assms(2) by (simp add: div_mult2_eq [symmetric])
  show "(a mod 4 * 16 + b div 16) mod 16 * 16 + (b mod 16 * 4 + c div 64) div 4 = b"
    unfolding 3 4 by simp
  show "(b mod 16 * 4 + c div 64) mod 4 * 64 + c mod 64 = c"
    unfolding 5 by simp
  show "a div 4 < 64" by (rule 1)
  show "a mod 4 * 16 + b div 16 < 64" using 1(1) 2(1) by linarith
  show "b mod 16 * 4 + c div 64 < 64" using 1(2) 2(2) by linarith
  show "c mod 64 < 64" by simp
  show "a mod 4 * 16 < 64" using 2(1) by linarith
  show "b mod 16 * 4 < 64" using 2(2) by linarith
  show "(a mod 4 * 16) div 16 = a mod 4" "(b mod 16 * 4) div 4 = b mod 16" by simp_all
qed

lemma set_base64_encode:
  "\<forall>n\<in>set ns. n < 256 \<Longrightarrow> set (base64_encode ns) \<subseteq> set base64_alphabet \<union> {0x3D}"
proof (induction ns rule: base64_encode.induct)
  case (1 a b c bytes)
  then have l: "a < 256" "b < 256" "c < 256" by simp_all
  from 1 have "set (base64_encode bytes) \<subseteq> set base64_alphabet \<union> {0x3D}" by simp
  then show ?case
    using base64_nth [OF group3(4) [OF l]] base64_nth [OF group3(5) [OF l]]
      base64_nth [OF group3(6) [OF l]] base64_nth [OF group3(7) [OF l]]
    by simp
next
  case (2 a b)
  then have l: "a < 256" "b < 256" "(0::nat) < 256" by simp_all
  show ?case
    using base64_nth [OF group3(4) [OF l]] base64_nth [OF group3(5) [OF l]]
      base64_nth [OF group3(9) [OF l]]
    by simp
next
  case (3 a)
  then have l: "a < 256" "(0::nat) < 256" "(0::nat) < 256" by simp_all
  show ?case
    using base64_nth [OF group3(4) [OF l]] base64_nth [OF group3(8) [OF l]]
    by simp
next
  case 4
  then show ?case by simp
qed

lemma base64_encode_plain:
  assumes "\<forall>n\<in>set ns. n < 256" and "c \<in> set (base64_encode ns)"
  shows "\<not> ascii_whitespace c \<and> \<not> line_terminator c \<and> c \<noteq> 0x24"
proof -
  from set_base64_encode [OF assms(1)] assms(2) have "c \<in> set base64_alphabet \<or> c = 0x3D" by auto
  then show ?thesis
    by (auto simp: base64_alphabet_code ascii_whitespace_def line_terminator_def)
qed

lemma length_base64_encode: "length (base64_encode ns) mod 4 = 0"
  by (induction ns rule: base64_encode.induct) simp_all

lemma base64_encode_nonempty: "ns \<noteq> [] \<Longrightarrow> base64_encode ns \<noteq> []"
  by (induction ns rule: base64_encode.induct) simp_all

text \<open>The characters of an encoding before its padding, and what they decode to.\<close>

lemma base64_decode_unpadded:
  "\<forall>n\<in>set ns. n < 256 \<Longrightarrow>
   base64_decode (map sextet (takeWhile (\<lambda>c. c \<noteq> 0x3D) (base64_encode ns))) = map of_nat ns"
proof (induction ns rule: base64_encode.induct)
  case (1 a b c bytes)
  then have l: "a < 256" "b < 256" "c < 256" by simp_all
  note n = base64_nth [OF group3(4) [OF l]] base64_nth [OF group3(5) [OF l]]
      base64_nth [OF group3(6) [OF l]] base64_nth [OF group3(7) [OF l]]
  have ne: "base64_alphabet ! (a div 4) \<noteq> 0x3D" "base64_alphabet ! (a mod 4 * 16 + b div 16) \<noteq> 0x3D"
    "base64_alphabet ! (b mod 16 * 4 + c div 64) \<noteq> 0x3D" "base64_alphabet ! (c mod 64) \<noteq> 0x3D"
    using n base64_char_plain by blast+
  from 1 have ih: "base64_decode (map sextet (takeWhile (\<lambda>c. c \<noteq> 0x3D) (base64_encode bytes)))
      = map of_nat bytes" by simp
  have tw: "map sextet (takeWhile (\<lambda>c. c \<noteq> 0x3D) (base64_encode (a # b # c # bytes))) =
      (a div 4) # (a mod 4 * 16 + b div 16) # (b mod 16 * 4 + c div 64) # (c mod 64)
        # map sextet (takeWhile (\<lambda>c. c \<noteq> 0x3D) (base64_encode bytes))"
    using ne
    by (simp add: sextet_nth [OF group3(4) [OF l]] sextet_nth [OF group3(5) [OF l]]
        sextet_nth [OF group3(6) [OF l]] sextet_nth [OF group3(7) [OF l]])
  show ?case
    unfolding tw base64_decode.simps group3(1-3) [OF l] ih by simp
next
  case (2 a b)
  then have l: "a < 256" "b < 256" "(0::nat) < 256" by simp_all
  note n = base64_nth [OF group3(4) [OF l]] base64_nth [OF group3(5) [OF l]]
      base64_nth [OF group3(9) [OF l]]
  have ne: "base64_alphabet ! (a div 4) \<noteq> 0x3D" "base64_alphabet ! (a mod 4 * 16 + b div 16) \<noteq> 0x3D"
    "base64_alphabet ! (b mod 16 * 4) \<noteq> 0x3D"
    using n base64_char_plain by blast+
  have g: "a div 4 * 4 + (a mod 4 * 16 + b div 16) div 16 = a"
    "(a mod 4 * 16 + b div 16) mod 16 * 16 + (b mod 16 * 4) div 4 = b"
    using group3(1,2) [OF l] by simp_all
  have tw: "map sextet (takeWhile (\<lambda>c. c \<noteq> 0x3D) (base64_encode [a, b])) =
      [a div 4, a mod 4 * 16 + b div 16, b mod 16 * 4]"
    using ne
    by (simp add: sextet_nth [OF group3(4) [OF l]] sextet_nth [OF group3(5) [OF l]]
        sextet_nth [OF group3(9) [OF l]])
  show ?case
    unfolding tw base64_decode.simps g by simp
next
  case (3 a)
  then have l: "a < 256" "(0::nat) < 256" "(0::nat) < 256" by simp_all
  note n = base64_nth [OF group3(4) [OF l]] base64_nth [OF group3(8) [OF l]]
  have ne: "base64_alphabet ! (a div 4) \<noteq> 0x3D" "base64_alphabet ! (a mod 4 * 16) \<noteq> 0x3D"
    using n base64_char_plain by blast+
  have g: "a div 4 * 4 + (a mod 4 * 16) div 16 = a"
    by simp
  have tw: "map sextet (takeWhile (\<lambda>c. c \<noteq> 0x3D) (base64_encode [a])) =
      [a div 4, a mod 4 * 16]"
    using ne
    by (simp add: sextet_nth [OF group3(4) [OF l]] sextet_nth [OF group3(8) [OF l]])
  show ?case
    unfolding tw base64_decode.simps g by simp
next
  case 4
  then show ?case by simp
qed

text \<open>Where the padding of an encoding is.\<close>

lemma base64_encode_padding:
  "\<forall>n\<in>set ns. n < 256 \<Longrightarrow>
   strip_padding (base64_encode ns) = takeWhile (\<lambda>c. c \<noteq> 0x3D) (base64_encode ns)
   \<and> (base64_encode ns \<noteq> [] \<longrightarrow>
        (last (base64_encode ns) = 0x3D) = (length ns mod 3 \<noteq> 0))"
proof (induction ns rule: base64_encode.induct)
  case (1 a b c bytes)
  then have l: "a < 256" "b < 256" "c < 256" by simp_all
  note n = base64_nth [OF group3(4) [OF l]] base64_nth [OF group3(5) [OF l]]
      base64_nth [OF group3(6) [OF l]] base64_nth [OF group3(7) [OF l]]
  have ne: "base64_alphabet ! (a div 4) \<noteq> 0x3D" "base64_alphabet ! (a mod 4 * 16 + b div 16) \<noteq> 0x3D"
    "base64_alphabet ! (b mod 16 * 4 + c div 64) \<noteq> 0x3D" "base64_alphabet ! (c mod 64) \<noteq> 0x3D"
    using n base64_char_plain by blast+
  from 1 have ih: "strip_padding (base64_encode bytes) = takeWhile (\<lambda>c. c \<noteq> 0x3D) (base64_encode bytes)"
    "base64_encode bytes \<noteq> [] \<longrightarrow> (last (base64_encode bytes) = 0x3D) = (length bytes mod 3 \<noteq> 0)"
    by simp_all
  define q where "q = [base64_alphabet ! (a div 4), base64_alphabet ! (a mod 4 * 16 + b div 16),
      base64_alphabet ! (b mod 16 * 4 + c div 64), base64_alphabet ! (c mod 64)]"
  define enc where "enc = base64_encode bytes"
  have e: "base64_encode (a # b # c # bytes) = q @ enc"
    by (simp add: q_def enc_def)
  have lq: "length q = 4" "last q \<noteq> 0x3D" "q \<noteq> []" "takeWhile (\<lambda>c. c \<noteq> 0x3D) q = q"
    "last (butlast q) \<noteq> 0x3D" "butlast q \<noteq> []"
    using ne by (simp_all add: q_def)
  have le: "length enc mod 4 = 0" unfolding enc_def by (rule length_base64_encode)
  have tw: "takeWhile (\<lambda>c. c \<noteq> 0x3D) (q @ enc) = q @ takeWhile (\<lambda>c. c \<noteq> 0x3D) enc"
    using ne by (simp add: q_def)
  show ?case
  proof (cases "enc = []")
    case True
    then have b: "bytes = []" unfolding enc_def using base64_encode_nonempty by blast
    have sq: "strip_padding q = q" using lq(1,2) by (simp add: strip_padding_def)
    show ?thesis
      unfolding e True append_Nil2 sq lq(4) using lq(2) b by simp
  next
    case False
    have s: "strip_padding (q @ enc) = q @ strip_padding enc"
    proof (cases "last enc = 0x3D")
      case l1: True
      show ?thesis
      proof (cases "butlast enc = []")
        case True
        with False have "length enc = 1" by (cases enc) (auto split: if_splits)
        with le show ?thesis by simp
      next
        case b: False
        then show ?thesis
          using False l1 le lq(1)
          by (simp add: strip_padding_def butlast_append mod_add_eq [symmetric, of 4 4 "length enc"])
      qed
    next
      case l2: False
      then show ?thesis using False by (simp add: strip_padding_def)
    qed
    have "Suc (Suc (Suc (length bytes))) = 3 + length bytes" by simp
    then have m: "(Suc (Suc (Suc (length bytes))) mod 3 \<noteq> 0) = (length bytes mod 3 \<noteq> 0)"
      by (simp only: mod_add_self1)
    show ?thesis
      unfolding e s tw using ih False by (simp add: enc_def [symmetric] m)
  qed
next
  case (2 a b)
  then have l: "a < 256" "b < 256" "(0::nat) < 256" by simp_all
  note n = base64_nth [OF group3(4) [OF l]] base64_nth [OF group3(5) [OF l]]
      base64_nth [OF group3(9) [OF l]]
  have ne: "base64_alphabet ! (a div 4) \<noteq> 0x3D" "base64_alphabet ! (a mod 4 * 16 + b div 16) \<noteq> 0x3D"
    "base64_alphabet ! (b mod 16 * 4) \<noteq> 0x3D"
    using n base64_char_plain by blast+
  show ?case using ne by (simp add: strip_padding_def)
next
  case (3 a)
  then have l: "a < 256" "(0::nat) < 256" "(0::nat) < 256" by simp_all
  note n = base64_nth [OF group3(4) [OF l]] base64_nth [OF group3(8) [OF l]]
  have ne: "base64_alphabet ! (a div 4) \<noteq> 0x3D" "base64_alphabet ! (a mod 4 * 16) \<noteq> 0x3D"
    using n base64_char_plain by blast+
  show ?case using ne by (simp add: strip_padding_def)
next
  case 4
  then show ?case by (simp add: strip_padding_def)
qed

lemma length_unpadded:
  "\<forall>n\<in>set ns. n < 256 \<Longrightarrow> length (takeWhile (\<lambda>c. c \<noteq> 0x3D) (base64_encode ns)) mod 4 \<noteq> 1"
proof (induction ns rule: base64_encode.induct)
  case (1 a b c bytes)
  then have l: "a < 256" "b < 256" "c < 256" by simp_all
  note n = base64_nth [OF group3(4) [OF l]] base64_nth [OF group3(5) [OF l]]
      base64_nth [OF group3(6) [OF l]] base64_nth [OF group3(7) [OF l]]
  have ne: "base64_alphabet ! (a div 4) \<noteq> 0x3D" "base64_alphabet ! (a mod 4 * 16 + b div 16) \<noteq> 0x3D"
    "base64_alphabet ! (b mod 16 * 4 + c div 64) \<noteq> 0x3D" "base64_alphabet ! (c mod 64) \<noteq> 0x3D"
    using n base64_char_plain by blast+
  from 1 have "length (takeWhile (\<lambda>c. c \<noteq> 0x3D) (base64_encode bytes)) mod 4 \<noteq> 1" by simp
  moreover have "(4 + n) mod 4 = n mod 4" for n :: nat by simp
  ultimately show ?case using ne by simp
next
  case (2 a b)
  then have l: "a < 256" "b < 256" "(0::nat) < 256" by simp_all
  note n = base64_nth [OF group3(4) [OF l]] base64_nth [OF group3(5) [OF l]]
      base64_nth [OF group3(9) [OF l]]
  have ne: "base64_alphabet ! (a div 4) \<noteq> 0x3D" "base64_alphabet ! (a mod 4 * 16 + b div 16) \<noteq> 0x3D"
    "base64_alphabet ! (b mod 16 * 4) \<noteq> 0x3D"
    using n base64_char_plain by blast+
  show ?case using ne by simp
next
  case (3 a)
  then have l: "a < 256" "(0::nat) < 256" "(0::nat) < 256" by simp_all
  note n = base64_nth [OF group3(4) [OF l]] base64_nth [OF group3(8) [OF l]]
  have ne: "base64_alphabet ! (a div 4) \<noteq> 0x3D" "base64_alphabet ! (a mod 4 * 16) \<noteq> 0x3D"
    using n base64_char_plain by blast+
  show ?case using ne by simp
next
  case 4
  then show ?case by simp
qed

text \<open>The Base64 functions of a browser: \<open>atob\<close> inverts \<open>btoa\<close>.\<close>

lemma unat_byte_less: "unat (b::byte) < 256"
  using unsigned_less [of b] by simp

lemma unat_ucast_byte: "unat (ucast (b::byte) :: unit16) = unat b"
proof -
  have "unat b < 2 ^ 16" using unat_byte_less [of b] by simp
  then show ?thesis by (simp add: unsigned_ucast_eq take_bit_nat_eq_self)
qed

lemma ucast_byte_less: "(ucast (b::byte) :: unit16) < 0x100"
  using unat_byte_less [of b] by (simp add: word_less_nat_alt unat_ucast_byte)

lemma browser_btoa_bytes:
  "browser_btoa (fromCharCode bytes) = Inr (base64_encode (map unat bytes))"
proof -
  have "list_all (\<lambda>c. c < 0x100) (fromCharCode bytes)"
    by (auto simp: fromCharCode_def list_all_iff ucast_byte_less)
  moreover have "map unat (fromCharCode bytes) = map unat bytes"
    by (simp add: fromCharCode_def unat_ucast_byte comp_def)
  ultimately show ?thesis by (simp add: browser_btoa_def)
qed

lemma browser_atob_encode:
  "browser_atob (base64_encode (map unat (bytes :: byte list))) = Inr (fromCharCode bytes)"
proof -
  let ?ns = "map unat bytes"
  let ?e = "base64_encode ?ns"
  have b: "\<forall>n\<in>set ?ns. n < 256"
    using unat_byte_less by auto
  have f: "filter (\<lambda>c. \<not> ascii_whitespace c) ?e = ?e"
    using base64_encode_plain [OF b] by (simp add: filter_id_conv)
  have sp: "strip_padding ?e = takeWhile (\<lambda>c. c \<noteq> 0x3D) ?e"
    using base64_encode_padding [OF b] by simp
  have al: "list_all (\<lambda>c. c \<in> set base64_alphabet) (takeWhile (\<lambda>c. c \<noteq> 0x3D) ?e)"
  proof -
    have "\<forall>c\<in>set (takeWhile (\<lambda>c. c \<noteq> 0x3D) ?e). c \<in> set base64_alphabet"
    proof
      fix c assume c: "c \<in> set (takeWhile (\<lambda>c. c \<noteq> 0x3D) ?e)"
      then have "c \<in> set ?e" "c \<noteq> 0x3D" by (auto dest: set_takeWhileD)
      with set_base64_encode [OF b] show "c \<in> set base64_alphabet" by auto
    qed
    then show ?thesis by (simp add: list_all_iff)
  qed
  have d: "base64_decode (map sextet (takeWhile (\<lambda>c. c \<noteq> 0x3D) ?e)) = bytes"
    using base64_decode_unpadded [OF b] by (simp add: comp_def)
  have s: "(\<lambda>c. case indexOf base64_alphabet c of None \<Rightarrow> 0 | Some i \<Rightarrow> i) = sextet"
    by (simp add: sextet_def fun_eq_iff)
  show ?thesis
    unfolding browser_atob_def f sp Let_def s d
    using al length_unpadded [OF b] by simp
qed

section \<open>Facts about encryptObject and decryptObject\<close>

lemma decryptObject_eq:
  assumes "CryptoInterface P" and "hasKeyPair c"
    and "atob P keyString = Inr keyAscii"
    and "read_version messageString = (cipherString, version)"
    and "atob P cipherString = Inr cipherAscii"
    and "cipher_of version = Some (sAlgo, ivBytes)"
  shows "decryptObject P c keyString messageString =
     (case object_chain P c sAlgo ivBytes (fromAscii keyAscii) (fromAscii cipherAscii) of
        Inl e \<Rightarrow> if name e = ''OperationError'' then Resolved None else Rejected e
      | Inr obj \<Rightarrow> Resolved (Some obj))"
proof -
  from assms(4) have v: "(case match_version messageString of
        None \<Rightarrow> (messageString, 1) | Some (v, m) \<Rightarrow> (m, parseInt v)) = (cipherString, version)"
    by (simp add: read_version_def)
  show ?thesis
    unfolding decryptObject_def object_chain_def v Let_def
    using assms(1,2,3,5,6) by simp
qed

lemma decryptObject_guards:
  "\<not> CryptoInterface P \<Longrightarrow>
     decryptObject P c keyString messageString = Rejected (Error ''Crypto: Service is not available.'')"
  "CryptoInterface P \<Longrightarrow> \<not> hasKeyPair c \<Longrightarrow>
     decryptObject P c keyString messageString =
       Rejected (Error ''Crypto: The private key is missing, decryption is not available.'')"
  by (simp_all add: decryptObject_def)

lemma decryptObject_atob:
  assumes "CryptoInterface P" and "hasKeyPair c"
    and "read_version messageString = (cipherString, version)"
  shows "atob P keyString = Inl e \<Longrightarrow> decryptObject P c keyString messageString = Thrown e"
    and "atob P keyString = Inr keyAscii \<Longrightarrow> atob P cipherString = Inl e \<Longrightarrow>
         decryptObject P c keyString messageString = Thrown e"
    and "atob P keyString = Inr keyAscii \<Longrightarrow> atob P cipherString = Inr cipherAscii \<Longrightarrow>
         cipher_of version = None \<Longrightarrow>
         decryptObject P c keyString messageString = Rejected (Error ''Crypto: Invalid arguments'')"
proof -
  from assms(3) have v: "(case match_version messageString of
        None \<Rightarrow> (messageString, 1) | Some (v, m) \<Rightarrow> (m, parseInt v)) = (cipherString, version)"
    by (simp add: read_version_def)
  show "atob P keyString = Inl e \<Longrightarrow> decryptObject P c keyString messageString = Thrown e"
    unfolding decryptObject_def using assms(1,2) by simp
  show "atob P keyString = Inr keyAscii \<Longrightarrow> atob P cipherString = Inl e \<Longrightarrow>
         decryptObject P c keyString messageString = Thrown e"
    unfolding decryptObject_def v Let_def using assms(1,2) by simp
  show "atob P keyString = Inr keyAscii \<Longrightarrow> atob P cipherString = Inr cipherAscii \<Longrightarrow>
         cipher_of version = None \<Longrightarrow>
         decryptObject P c keyString messageString = Rejected (Error ''Crypto: Invalid arguments'')"
    unfolding decryptObject_def v Let_def using assms(1,2) by simp
qed

section \<open>The claims about encryptObject and decryptObject\<close>

text \<open>
  The outcomes of \<open>decryptObject\<close>. Without a crypto provider and without a private key
  in the session it rejects. With both, a key string or a message that \<open>atob\<close> refuses
  makes the call throw. A version other than 1 and 2 is rejected. Otherwise the call resolves
  with \<open>false\<close> exactly when the chain of RSA decryption, key import, symmetric decryption
  and \<open>toObject\<close> fails with an error named \<open>OperationError\<close>, as it does when the
  provider refuses the private key for the key string with that error; with every other
  error of the chain the call rejects with that error; and with the object where the chain
  gives one.
\<close>

lemma decryptObject_outcomes:
  assumes "read_version messageString = (cipherString, version)"
  shows
    "(\<not> CryptoInterface P \<or> \<not> hasKeyPair c \<longrightarrow>
        (\<exists>e. decryptObject P c keyString messageString = Rejected e))
   \<and> (CryptoInterface P \<and> hasKeyPair c \<longrightarrow>
        (\<forall>e. atob P keyString = Inl e \<longrightarrow> decryptObject P c keyString messageString = Thrown e)
      \<and> (\<forall>keyAscii. atob P keyString = Inr keyAscii \<longrightarrow>
           (\<forall>e. atob P cipherString = Inl e \<longrightarrow>
                decryptObject P c keyString messageString = Thrown e)
         \<and> (\<forall>cipherAscii. atob P cipherString = Inr cipherAscii \<longrightarrow>
              (cipher_of version = None \<longrightarrow>
                 decryptObject P c keyString messageString =
                   Rejected (Error ''Crypto: Invalid arguments''))
            \<and> (\<forall>sAlgo ivBytes. cipher_of version = Some (sAlgo, ivBytes) \<longrightarrow>
                 (decryptObject P c keyString messageString = Resolved None) =
                   (\<exists>e. object_chain P c sAlgo ivBytes (fromAscii keyAscii) (fromAscii cipherAscii)
                          = Inl e \<and> name e = ''OperationError'')
               \<and> (\<forall>priv e. privateKey c = Some priv
                      \<and> decrypt_rsa P priv (fromAscii keyAscii) = Inl e
                      \<and> name e = ''OperationError''
                    \<longrightarrow> decryptObject P c keyString messageString = Resolved None)
               \<and> (\<forall>e. object_chain P c sAlgo ivBytes (fromAscii keyAscii) (fromAscii cipherAscii)
                          = Inl e \<and> name e \<noteq> ''OperationError''
                    \<longrightarrow> decryptObject P c keyString messageString = Rejected e)
               \<and> (\<forall>obj. object_chain P c sAlgo ivBytes (fromAscii keyAscii) (fromAscii cipherAscii)
                          = Inr obj
                    \<longrightarrow> decryptObject P c keyString messageString = Resolved (Some obj))))))"
proof (intro conjI impI allI)
  assume "\<not> CryptoInterface P \<or> \<not> hasKeyPair c"
  then show "\<exists>e. decryptObject P c keyString messageString = Rejected e"
    using decryptObject_guards [of P c keyString messageString] by (cases "CryptoInterface P") auto
next
  fix e
  assume "CryptoInterface P \<and> hasKeyPair c" and "atob P keyString = Inl e"
  then show "decryptObject P c keyString messageString = Thrown e"
    using decryptObject_atob(1) [OF _ _ assms] by blast
next
  fix keyAscii e
  assume "CryptoInterface P \<and> hasKeyPair c" and "atob P keyString = Inr keyAscii"
    and "atob P cipherString = Inl e"
  then show "decryptObject P c keyString messageString = Thrown e"
    using decryptObject_atob(2) [OF _ _ assms] by blast
next
  fix keyAscii cipherAscii
  assume "CryptoInterface P \<and> hasKeyPair c" and "atob P keyString = Inr keyAscii"
    and "atob P cipherString = Inr cipherAscii" and "cipher_of version = None"
  then show "decryptObject P c keyString messageString = Rejected (Error ''Crypto: Invalid arguments'')"
    using decryptObject_atob(3) [OF _ _ assms] by blast
next
  fix keyAscii cipherAscii sAlgo ivBytes
  assume a: "CryptoInterface P \<and> hasKeyPair c" "atob P keyString = Inr keyAscii"
    "atob P cipherString = Inr cipherAscii" "cipher_of version = Some (sAlgo, ivBytes)"
  then have eq: "decryptObject P c keyString messageString =
     (case object_chain P c sAlgo ivBytes (fromAscii keyAscii) (fromAscii cipherAscii) of
        Inl e \<Rightarrow> if name e = ''OperationError'' then Resolved None else Rejected e
      | Inr obj \<Rightarrow> Resolved (Some obj))"
    using decryptObject_eq [OF _ _ _ assms] by blast
  show "(decryptObject P c keyString messageString = Resolved None) =
      (\<exists>e. object_chain P c sAlgo ivBytes (fromAscii keyAscii) (fromAscii cipherAscii) = Inl e
          \<and> name e = ''OperationError'')"
    unfolding eq by (auto split: sum.splits)
  {
    fix priv e
    assume "privateKey c = Some priv \<and> decrypt_rsa P priv (fromAscii keyAscii) = Inl e
        \<and> name e = ''OperationError''"
    then have "object_chain P c sAlgo ivBytes (fromAscii keyAscii) (fromAscii cipherAscii) = Inl e"
      and "name e = ''OperationError''"
      by (simp_all add: object_chain_def with_key_def and_then_def)
    then show "decryptObject P c keyString messageString = Resolved None"
      unfolding eq by simp
  }
  {
    fix e
    assume "object_chain P c sAlgo ivBytes (fromAscii keyAscii) (fromAscii cipherAscii) = Inl e
        \<and> name e \<noteq> ''OperationError''"
    then show "decryptObject P c keyString messageString = Rejected e"
      unfolding eq by simp
  }
  {
    fix obj
    assume "object_chain P c sAlgo ivBytes (fromAscii keyAscii) (fromAscii cipherAscii) = Inr obj"
    then show "decryptObject P c keyString messageString = Resolved (Some obj)"
      unfolding eq by simp
  }
qed

lemma demo_world1_keys:
  "hasKeyPair (crypto demo_world1)" "privateKey (crypto demo_world1) = Some (PrivateKey (js ''n0''))"
  "publicKey (crypto demo_world1) = Some (PublicKey (js ''n0''))"
  by (simp_all add: demo_world1_crypto hasKeyPair_def)

lemma demo_envelope_parts:
  "read_version (js ''2$AAAA'') = (js ''AAAA'', 2)"
  "browser_atob (js ''AAAA'') = Inr (fromCharCode [0, 0, 0])"
  "browser_atob (js ''bjAA'') = Inr (fromCharCode [0x6E, 0x30, 0])"
  "browser_atob (js ''%'') = Inl (JSError ''InvalidCharacterError'' ''The string is not correctly encoded'')"
  by code_simp+

lemma demo_rsa_refuses:
  "decrypt_rsa (demo_platform rnd) (PrivateKey (js ''n0'')) (fromAscii (fromCharCode [0, 0, 0]))
     = Inl (JSError ''OperationError'' ''decryption failed'')"
  unfolding fromAscii_fromCharCode by (simp add: js_def fromAscii_def)

lemma demo_short_key:
  "object_chain (demo_platform rnd) (crypto demo_world1) AES_GCM 12
       (fromAscii (fromCharCode [0x6E, 0x30, 0])) (fromAscii (fromCharCode [0, 0, 0]))
     = Inl (JSError ''DataError'' ''key length'')"
  unfolding fromAscii_fromCharCode
  by (simp add: object_chain_def demo_world1_keys with_key_def and_then_def
      js_def fromAscii_def splitInTwo_def subarray_def subarray_index_def)

lemma demo_decryptObject_outcomes:
  "read_version (js ''2$AAAA'') = (js ''AAAA'', 2)
   \<and> CryptoInterface (demo_platform stream_up) \<and> hasKeyPair (crypto demo_world1)
   \<and> \<not> hasKeyPair (crypto demo_world0)
   \<and> atob (demo_platform stream_up) (js ''AAAA'') = Inr (fromCharCode [0, 0, 0])
   \<and> atob (demo_platform stream_up) (js ''bjAA'') = Inr (fromCharCode [0x6E, 0x30, 0])
   \<and> cipher_of 2 = Some (AES_GCM, 12)
   \<and> privateKey (crypto demo_world1) = Some (PrivateKey (js ''n0''))
   \<and> decrypt_rsa (demo_platform stream_up) (PrivateKey (js ''n0'')) (fromAscii (fromCharCode [0, 0, 0]))
       = Inl (JSError ''OperationError'' ''decryption failed'')
   \<and> decryptObject (demo_platform stream_up) (crypto demo_world1) (js ''AAAA'') (js ''2$AAAA'')
       = Resolved None
   \<and> decryptObject (demo_platform stream_up) (crypto demo_world1) (js ''bjAA'') (js ''2$AAAA'')
       = Rejected (JSError ''DataError'' ''key length'')
   \<and> decryptObject (demo_platform stream_up) (crypto demo_world1) (js ''%'') (js ''2$AAAA'')
       = Thrown (JSError ''InvalidCharacterError'' ''The string is not correctly encoded'')
   \<and> (\<exists>e. decryptObject (demo_platform stream_up) (crypto demo_world0) (js ''AAAA'') (js ''2$AAAA'')
         = Rejected e)"
proof -
  let ?P = "demo_platform stream_up"
  have 1: "CryptoInterface ?P" by simp
  have 2: "\<not> hasKeyPair (crypto demo_world0)" by (simp add: demo_world0_def hasKeyPair_def)
  have 3: "atob ?P (js ''AAAA'') = Inr (fromCharCode [0, 0, 0])"
    "atob ?P (js ''bjAA'') = Inr (fromCharCode [0x6E, 0x30, 0])"
    "atob ?P (js ''%'') = Inl (JSError ''InvalidCharacterError'' ''The string is not correctly encoded'')"
    using demo_envelope_parts(2,3,4) by simp_all
  have 4: "cipher_of 2 = Some (AES_GCM, 12)" by (simp add: cipher_of_def)
  have 5: "name (JSError ''OperationError'' ''decryption failed'') = ''OperationError''"
    "name (JSError ''DataError'' ''key length'') \<noteq> ''OperationError''"
    by simp_all
  note a = decryptObject_outcomes [OF demo_envelope_parts(1), of ?P "crypto demo_world1" "js ''AAAA''"]
  note b = decryptObject_outcomes [OF demo_envelope_parts(1), of ?P "crypto demo_world1" "js ''bjAA''"]
  note c = decryptObject_outcomes [OF demo_envelope_parts(1), of ?P "crypto demo_world1" "js ''%''"]
  note d = decryptObject_outcomes [OF demo_envelope_parts(1), of ?P "crypto demo_world0" "js ''AAAA''"]
  from a 1 demo_world1_keys(1,2) 3(1) 4 demo_rsa_refuses [of stream_up] 5(1)
  have r1: "decryptObject ?P (crypto demo_world1) (js ''AAAA'') (js ''2$AAAA'') = Resolved None"
    by blast
  from b 1 demo_world1_keys(1) 3(1,2) 4 demo_short_key [of stream_up] 5(2)
  have r2: "decryptObject ?P (crypto demo_world1) (js ''bjAA'') (js ''2$AAAA'')
      = Rejected (JSError ''DataError'' ''key length'')"
    by blast
  from c 1 demo_world1_keys(1) 3(3)
  have r3: "decryptObject ?P (crypto demo_world1) (js ''%'') (js ''2$AAAA'')
      = Thrown (JSError ''InvalidCharacterError'' ''The string is not correctly encoded'')"
    by blast
  from d 2
  have r4: "\<exists>e. decryptObject ?P (crypto demo_world0) (js ''AAAA'') (js ''2$AAAA'') = Rejected e"
    by blast
  from demo_envelope_parts(1) 1 demo_world1_keys(1,2) 2 3(1,2) 4 demo_rsa_refuses [of stream_up]
    r1 r2 r3 r4
  show ?thesis by blast
qed

text \<open>
  C2. A key string that is not Base64 is not surfaced as a rejected promise. \<open>atob\<close>
  refuses the key string \<open>%\<close> with an \<open>InvalidCharacterError\<close>, and in a session that
  holds a key-pair \<open>decryptObject\<close> with that key string throws this error: the function
  calls \<open>atob\<close> before it builds its promise chain. The same call in a session without a
  key-pair is a rejected promise.
\<close>

theorem decryptObject_atob_throws:
  "hasKeyPair (crypto demo_world1)
   \<and> atob (demo_platform stream_up) (js ''%'')
       = Inl (JSError ''InvalidCharacterError'' ''The string is not correctly encoded'')
   \<and> decryptObject (demo_platform stream_up) (crypto demo_world1) (js ''%'') (js ''2$AAAA'')
       = Thrown (JSError ''InvalidCharacterError'' ''The string is not correctly encoded'')
   \<and> \<not> hasKeyPair (crypto demo_world0)
   \<and> decryptObject (demo_platform stream_up) (crypto demo_world0) (js ''%'') (js ''2$AAAA'')
       = Rejected (Error ''Crypto: The private key is missing, decryption is not available.'')"
proof -
  let ?P = "demo_platform stream_up"
  have a: "atob ?P (js ''%'')
      = Inl (JSError ''InvalidCharacterError'' ''The string is not correctly encoded'')"
    using demo_envelope_parts(4) by simp
  have h: "\<not> hasKeyPair (crypto demo_world0)" by (simp add: demo_world0_def hasKeyPair_def)
  have t: "decryptObject ?P (crypto demo_world1) (js ''%'') (js ''2$AAAA'')
      = Thrown (JSError ''InvalidCharacterError'' ''The string is not correctly encoded'')"
    unfolding decryptObject_def a using demo_world1_keys(1) by simp
  have r: "decryptObject ?P (crypto demo_world0) (js ''%'') (js ''2$AAAA'')
      = Rejected (Error ''Crypto: The private key is missing, decryption is not available.'')"
    unfolding decryptObject_def using h by simp
  from demo_world1_keys(1) a t h r show ?thesis by blast
qed

lemma encryptObject_eq:
  assumes "CryptoInterface P" and "cipher_of version = Some (sAlgo, ivBytes)"
    and "fromObject P pos dataObject True = Inr (plainBuffer, pos1)"
    and "generateKey_sym P sAlgo (pos1 + ivBytes) = Inr sKey"
    and "encrypt_sym P sAlgo (map (random_byte P) [pos1 ..< pos1 + ivBytes]) sKey plainBuffer
          = Inr cipherBuffer"
    and "exportKey_raw P sKey = Inr sKeyBuffer"
    and "publicKey c = Some pub"
    and "encrypt_rsa P pub (pos1 + ivBytes + 1)
          (map (random_byte P) [pos1 ..< pos1 + ivBytes] @ sKeyBuffer) = Inr keyBuffer"
    and "btoa P (fromCharCode cipherBuffer) = Inr m" and "btoa P (fromCharCode keyBuffer) = Inr k"
    and lim: "int (length cipherBuffer) \<le> max_arguments P" "int (length keyBuffer) \<le> max_arguments P"
  shows "encryptObject P pos c dataObject version =
     Resolved \<lparr>env_message = number_toString version @ js ''$'' @ m, env_key = k\<rparr>"
  unfolding encryptObject_def
  using assms(1-10)
  by (simp add: toAscii_eq [OF lim(1)] toAscii_eq [OF lim(2)] getRandomValues_def and_then_def
      settle_def with_key_def concat_buffers_def)

lemma read_version_prefixed:
  assumes "version = 1 \<or> version = 2" and "rest \<noteq> []" and "\<forall>c\<in>set rest. \<not> line_terminator c"
  shows "read_version (number_toString version @ js ''$'' @ rest) = (rest, version)"
  unfolding read_version_def
  by (simp add: match_version_prefixed [OF assms] parseInt_version [OF assms(1)])

lemma object_chain_eq:
  assumes "privateKey c = Some priv"
    and "decrypt_rsa P priv keyBuffer = Inr (iVectorBuffer @ sKeyBuffer)"
    and "length iVectorBuffer = ivBytes"
    and "importKey_raw P sAlgo sKeyBuffer = Inr sKey"
    and "decrypt_sym P sAlgo iVectorBuffer sKey cipherBuffer = Inr plainBuffer"
  shows "object_chain P c sAlgo ivBytes keyBuffer cipherBuffer = toObject P plainBuffer"
proof -
  have "splitInTwo (iVectorBuffer @ sKeyBuffer) (int ivBytes) = (iVectorBuffer, sKeyBuffer)"
    using assms(3) by (simp add: splitInTwo_inside)
  then show ?thesis
    unfolding object_chain_def using assms(1,2,4,5) by (simp add: with_key_def and_then_def)
qed

text \<open>
  The round trip of \<open>encryptObject\<close> and \<open>decryptObject\<close>. Let the session hold a
  public and a private key such that the private key decrypts what the public key encrypts
  of up to 48 bytes; let the provider generate symmetric keys of 32 bytes that, with an
  initialisation vector of the size of the version, encrypt a buffer to a buffer that is not
  empty and at most 16 bytes longer, which the key imported from the exported bytes
  decrypts; let \<open>atob\<close> invert \<open>btoa\<close>, whose results hold no line terminator; and let
  the engine pass the bytes of the key and of the message as arguments of a call. Then, for
  version 1 and for version 2 and for every object whose JSON text is \<open>{\<close>, at least
  one character and \<open>}\<close>, with all characters below 256 and no line terminator, and
  which \<open>JSON.parse\<close> gives back from its text: \<open>encryptObject\<close> resolves with a
  message and a key, and \<open>decryptObject\<close> resolves with the object for them.
\<close>

lemma encryptObject_decryptObject:
  assumes version: "cipher_of version = Some (sAlgo, ivBytes)"
    and provider: "CryptoInterface P"
    and pair: "hasKeyPair c" "publicKey c = Some pub" "privateKey c = Some priv"
    and rsa: "\<And>coins plain. length plain \<le> 48 \<Longrightarrow>
        \<exists>cipher. encrypt_rsa P pub coins plain = Inr cipher \<and> int (length cipher) \<le> max_arguments P
          \<and> decrypt_rsa P priv cipher = Inr plain"
    and sym: "\<And>n iv plain. length iv = ivBytes \<Longrightarrow>
        \<exists>sKey raw cipher sKey'.
          generateKey_sym P sAlgo n = Inr sKey \<and> exportKey_raw P sKey = Inr raw \<and> length raw = 32
        \<and> encrypt_sym P sAlgo iv sKey plain = Inr cipher \<and> cipher \<noteq> []
        \<and> length cipher \<le> length plain + 16
        \<and> importKey_raw P sAlgo raw = Inr sKey' \<and> decrypt_sym P sAlgo iv sKey' cipher = Inr plain"
    and base64: "\<And>bytes.
        \<exists>s. btoa P (fromCharCode bytes) = Inr s \<and> atob P s = Inr (fromCharCode bytes)
          \<and> (bytes \<noteq> [] \<longrightarrow> s \<noteq> []) \<and> (\<forall>ch\<in>set s. \<not> line_terminator ch)"
    and jtext: "JSON_stringify P dataObject = 0x7B # mid @ [0x7D]" "mid \<noteq> []"
      "\<forall>ch\<in>set mid. ch < 0x100 \<and> \<not> line_terminator ch"
    and parse: "JSON_parse P (JSON_stringify P dataObject) = Inr dataObject"
    and lim: "int (length (JSON_stringify P dataObject) + 144) \<le> max_arguments P"
  shows "\<exists>env. encryptObject P pos c dataObject version = Resolved env
    \<and> decryptObject P c (env_key env) (env_message env) = Resolved (Some dataObject)"
proof -
  from cipher_of_cases [OF version] have v: "version = 1 \<or> version = 2" and iv: "ivBytes \<le> 16"
    by auto
  from fromObject_frame [OF provider, of pos dataObject] obtain pre post pos1 where
    fo: "fromObject P pos dataObject True =
          Inr (pre @ fromAscii (JSON_stringify P dataObject) @ post, pos1)"
    and lpre: "length pre \<le> 64" and lpost: "length post \<le> 64"
    by blast
  define plainBuffer where "plainBuffer = pre @ fromAscii (JSON_stringify P dataObject) @ post"
  define iVectorBuffer where "iVectorBuffer = map (random_byte P) [pos1 ..< pos1 + ivBytes]"
  have liv: "length iVectorBuffer = ivBytes" by (simp add: iVectorBuffer_def)
  have lplain: "length plainBuffer \<le> length (JSON_stringify P dataObject) + 128"
    using lpre lpost by (simp add: plainBuffer_def fromAscii_def)
  have "int (length (JSON_stringify P dataObject) + 128) \<le> max_arguments P" using lim by simp
  from fromObject_toObject [OF provider fo [folded plainBuffer_def] jtext parse this]
  have obj: "toObject P plainBuffer = Inr dataObject" .
  from sym [OF liv, of "pos1 + ivBytes" plainBuffer]
  obtain sKey sKeyBuffer cipherBuffer sKey' where
    g: "generateKey_sym P sAlgo (pos1 + ivBytes) = Inr sKey"
    and x: "exportKey_raw P sKey = Inr sKeyBuffer" and lraw: "length sKeyBuffer = 32"
    and e: "encrypt_sym P sAlgo iVectorBuffer sKey plainBuffer = Inr cipherBuffer"
    and ne: "cipherBuffer \<noteq> []" and lc: "length cipherBuffer \<le> length plainBuffer + 16"
    and i: "importKey_raw P sAlgo sKeyBuffer = Inr sKey'"
    and d: "decrypt_sym P sAlgo iVectorBuffer sKey' cipherBuffer = Inr plainBuffer"
    by blast
  have lcm: "int (length cipherBuffer) \<le> max_arguments P" using lc lplain lim by simp
  have "length (iVectorBuffer @ sKeyBuffer) \<le> 48" using liv lraw iv by simp
  from rsa [OF this, of "pos1 + ivBytes + 1"] obtain keyBuffer where
    er: "encrypt_rsa P pub (pos1 + ivBytes + 1) (iVectorBuffer @ sKeyBuffer) = Inr keyBuffer"
    and lk: "int (length keyBuffer) \<le> max_arguments P"
    and dr: "decrypt_rsa P priv keyBuffer = Inr (iVectorBuffer @ sKeyBuffer)"
    by blast
  from base64 [of cipherBuffer] ne obtain m where
    bm: "btoa P (fromCharCode cipherBuffer) = Inr m" and am: "atob P m = Inr (fromCharCode cipherBuffer)"
    and m: "m \<noteq> []" "\<forall>ch\<in>set m. \<not> line_terminator ch"
    by blast
  from base64 [of keyBuffer] obtain k where
    bk: "btoa P (fromCharCode keyBuffer) = Inr k" and ak: "atob P k = Inr (fromCharCode keyBuffer)"
    by blast
  have enc: "encryptObject P pos c dataObject version =
      Resolved \<lparr>env_message = number_toString version @ js ''$'' @ m, env_key = k\<rparr>"
    by (rule encryptObject_eq [OF provider version fo [folded plainBuffer_def] g
          e [unfolded iVectorBuffer_def] x pair(2) er [unfolded iVectorBuffer_def] bm bk lcm lk])
  have rv: "read_version (number_toString version @ js ''$'' @ m) = (m, version)"
    by (rule read_version_prefixed [OF v m])
  have ch: "object_chain P c sAlgo ivBytes (fromAscii (fromCharCode keyBuffer))
      (fromAscii (fromCharCode cipherBuffer)) = Inr dataObject"
    unfolding fromAscii_fromCharCode
    using object_chain_eq [OF pair(3) dr liv i d] obj by simp
  have dec: "decryptObject P c k (number_toString version @ js ''$'' @ m) = Resolved (Some dataObject)"
    unfolding decryptObject_eq [OF provider pair(1) ak rv am version] ch by simp
  from enc dec show ?thesis by simp
qed

section \<open>The round trip on the platform of the examples\<close>

lemma demo_rsa:
  assumes "length plain \<le> 48"
  shows "\<exists>cipher. encrypt_rsa (demo_platform rnd) (PublicKey (js ''n0'')) coins plain = Inr cipher
     \<and> int (length cipher) \<le> max_arguments (demo_platform rnd)
     \<and> decrypt_rsa (demo_platform rnd) (PrivateKey (js ''n0'')) cipher = Inr plain"
  using assms by (simp add: fromAscii_def js_def)

lemma demo_sym:
  "\<exists>sKey raw cipher sKey'.
      generateKey_sym (demo_platform rnd) sAlgo n = Inr sKey
    \<and> exportKey_raw (demo_platform rnd) sKey = Inr raw \<and> length raw = 32
    \<and> encrypt_sym (demo_platform rnd) sAlgo iv sKey plain = Inr cipher \<and> cipher \<noteq> []
    \<and> length cipher \<le> length plain + 16
    \<and> importKey_raw (demo_platform rnd) sAlgo raw = Inr sKey'
    \<and> decrypt_sym (demo_platform rnd) sAlgo iv sKey' cipher = Inr plain"
  by (simp add: comp_def)

lemma demo_base64:
  "\<exists>s. btoa (demo_platform rnd) (fromCharCode bytes) = Inr s
     \<and> atob (demo_platform rnd) s = Inr (fromCharCode bytes)
     \<and> (bytes \<noteq> [] \<longrightarrow> s \<noteq> []) \<and> (\<forall>ch\<in>set s. \<not> line_terminator ch)"
proof -
  have b: "\<forall>n\<in>set (map unat bytes). n < 256" using unat_byte_less by auto
  have "bytes \<noteq> [] \<longrightarrow> base64_encode (map unat bytes) \<noteq> []"
    using base64_encode_nonempty [of "map unat bytes"] by simp
  moreover have "\<forall>ch\<in>set (base64_encode (map unat bytes)). \<not> line_terminator ch"
    using base64_encode_plain [OF b] by blast
  ultimately show ?thesis
    by (simp add: browser_btoa_bytes browser_atob_encode)
qed

lemma demo_round_trip:
  "CryptoInterface (demo_platform stream_up) \<and> hasKeyPair (crypto demo_world1)
   \<and> publicKey (crypto demo_world1) = Some (PublicKey (js ''n0''))
   \<and> privateKey (crypto demo_world1) = Some (PrivateKey (js ''n0''))
   \<and> JSON_stringify (demo_platform stream_up) ob = 0x7B # [0x22, 0x61, 0x22, 0x3A, 0x22, 0x62, 0x22] @ [0x7D]
   \<and> JSON_parse (demo_platform stream_up) (JSON_stringify (demo_platform stream_up) ob) = Inr ob
   \<and> (\<exists>env. encryptObject (demo_platform stream_up) 0 (crypto demo_world1) ob 1 = Resolved env
         \<and> decryptObject (demo_platform stream_up) (crypto demo_world1) (env_key env) (env_message env)
             = Resolved (Some ob))
   \<and> (\<exists>env. encryptObject (demo_platform stream_up) 0 (crypto demo_world1) ob 2 = Resolved env
         \<and> decryptObject (demo_platform stream_up) (crypto demo_world1) (env_key env) (env_message env)
             = Resolved (Some ob))"
proof -
  let ?P = "demo_platform stream_up"
  have 1: "CryptoInterface ?P" by simp
  have 2: "JSON_stringify ?P ob = 0x7B # [0x22, 0x61, 0x22, 0x3A, 0x22, 0x62, 0x22] @ [0x7D]"
    using ob_text by simp
  have 3: "[0x22, 0x61, 0x22, 0x3A, 0x22, 0x62, 0x22 :: unit16] \<noteq> []" by simp
  have 4: "\<forall>ch\<in>set [0x22, 0x61, 0x22, 0x3A, 0x22, 0x62, 0x22 :: unit16]. ch < 0x100 \<and> \<not> line_terminator ch"
    by (simp add: line_terminator_def)
  have 5: "JSON_parse ?P (JSON_stringify ?P ob) = Inr ob"
    using ob_parse by simp
  have 6: "int (length (JSON_stringify ?P ob) + 144) \<le> max_arguments ?P"
    unfolding 2 by simp
  have v1: "cipher_of 1 = Some (AES_CBC, 16)" and v2: "cipher_of 2 = Some (AES_GCM, 12)"
    by (simp_all add: cipher_of_def)
  note a = encryptObject_decryptObject [OF v1 1 demo_world1_keys(1,3,2) demo_rsa demo_sym demo_base64
      2 3 4 5 6, of 0]
  note b = encryptObject_decryptObject [OF v2 1 demo_world1_keys(1,3,2) demo_rsa demo_sym demo_base64
      2 3 4 5 6, of 0]
  from 1 demo_world1_keys 2 5 a b show ?thesis by blast
qed

lemma empty_object_buffer:
  "fromObject (demo_platform (stream_of 0)) 0 (Obj []) True =
     Inr (replicate 15 0x20 @ [0x7B, 0x7D] @ replicate 15 0x20, 33)"
  by code_simp

lemma empty_object_tag: "key_tag (replicate 32 45) (replicate 12 0) = 161"
  by code_simp

lemma empty_object_message:
  "browser_btoa (fromCharCode (map (\<lambda>b. b + 161) (replicate 15 0x20 @ [0x7B, 0x7D] @ replicate 15 0x20) @ [161]))
     = Inr (js ''wcHBwcHBwcHBwcHBwcHBHB7BwcHBwcHBwcHBwcHBwcGh'')"
  by code_simp

lemma empty_object_key:
  "browser_btoa (fromCharCode (fromAscii (js ''n0'') @ [46] @ replicate 12 0 @ replicate 32 45))
     = Inr (js ''bjAuAAAAAAAAAAAAAAAALS0tLS0tLS0tLS0tLS0tLS0tLS0tLS0tLS0tLS0tLS0='')"
  by code_simp

lemma empty_object_text:
  "match_object (fromCharCode (replicate 15 0x20 @ [0x7B, 0x7D] @ replicate 15 0x20)) = None"
  by code_simp

lemma stream_of_upt: "map (stream_of b) [i ..< i + n] = replicate n b"
proof -
  have "stream_of b = (\<lambda>i. b)" by (simp add: fun_eq_iff stream_of_def)
  then show ?thesis by (simp add: map_replicate_const)
qed

text \<open>
  C1. The empty object does not come back. With random bytes that are all 0, in a session
  that holds a key-pair, \<open>encryptObject\<close> of the object \<open>{}\<close> with version 2 resolves
  with a message and a key, and \<open>decryptObject\<close> of that key and that message rejects with
  the error of \<open>toObject\<close>: the decrypted buffer holds the text \<open>{}\<close> between its
  noise, and the regular expression of \<open>toObject\<close> asks for a character between the
  braces.
\<close>

theorem encryptObject_empty_object:
  "hasKeyPair (crypto demo_world1)
   \<and> JSON_stringify (demo_platform (stream_of 0)) (Obj []) = js ''{}''
   \<and> JSON_parse (demo_platform (stream_of 0)) (js ''{}'') = Inr (Obj [])
   \<and> encryptObject (demo_platform (stream_of 0)) 0 (crypto demo_world1) (Obj []) 2 =
     Resolved \<lparr>env_message = js ''2$wcHBwcHBwcHBwcHBwcHBHB7BwcHBwcHBwcHBwcHBwcGh'',
               env_key = js ''bjAuAAAAAAAAAAAAAAAALS0tLS0tLS0tLS0tLS0tLS0tLS0tLS0tLS0tLS0tLS0=''\<rparr>
   \<and> decryptObject (demo_platform (stream_of 0)) (crypto demo_world1)
        (js ''bjAuAAAAAAAAAAAAAAAALS0tLS0tLS0tLS0tLS0tLS0tLS0tLS0tLS0tLS0tLS0='')
        (js ''2$wcHBwcHBwcHBwcHBwcHBHB7BwcHBwcHBwcHBwcHBwcGh'')
     = Rejected (Error ''BufferTools.toObject(): Invalid arguments'')"
proof -
  let ?P = "demo_platform (stream_of 0)"
  let ?plain = "replicate 15 0x20 @ [0x7B, 0x7D] @ replicate 15 (0x20 :: byte)"
  let ?cipher = "map (\<lambda>b. b + 161) ?plain @ [161 :: byte]"
  let ?keys = "fromAscii (js ''n0'') @ [46] @ replicate 12 0 @ replicate 32 (45 :: byte)"
  let ?m = "js ''wcHBwcHBwcHBwcHBwcHBHB7BwcHBwcHBwcHBwcHBwcGh''"
  let ?k = "js ''bjAuAAAAAAAAAAAAAAAALS0tLS0tLS0tLS0tLS0tLS0tLS0tLS0tLS0tLS0tLS0=''"
  have ci: "CryptoInterface ?P" by simp
  have c: "cipher_of 2 = Some (AES_GCM, 12)" by (simp add: cipher_of_def)
  have iv: "map (random_byte ?P) [33 ..< 33 + 12] = replicate 12 0"
    by (simp only: demo_platform_simps stream_of_upt)
  have g: "generateKey_sym ?P AES_GCM (33 + 12) = Inr (SymKey AES_GCM (replicate 32 45))" by simp
  have e: "encrypt_sym ?P AES_GCM (map (random_byte ?P) [33 ..< 33 + 12])
      (SymKey AES_GCM (replicate 32 45)) ?plain = Inr ?cipher"
    unfolding iv by (simp add: empty_object_tag)
  have x: "exportKey_raw ?P (SymKey AES_GCM (replicate 32 45)) = Inr (replicate 32 45)" by simp
  have r: "encrypt_rsa ?P (PublicKey (js ''n0'')) (33 + 12 + 1)
      (map (random_byte ?P) [33 ..< 33 + 12] @ replicate 32 45) = Inr ?keys"
    unfolding iv by simp
  have bm: "btoa ?P (fromCharCode ?cipher) = Inr ?m" using empty_object_message by simp
  have bk: "btoa ?P (fromCharCode ?keys) = Inr ?k" using empty_object_key by simp
  have enc: "encryptObject ?P 0 (crypto demo_world1) (Obj []) 2 =
      Resolved \<lparr>env_message = number_toString 2 @ js ''$'' @ ?m, env_key = ?k\<rparr>"
    by (rule encryptObject_eq [OF ci c empty_object_buffer g e x demo_world1_keys(3) r bm bk])
      (simp_all add: fromAscii_def js_def)
  have msg: "number_toString 2 @ js ''$'' @ ?m = js ''2$wcHBwcHBwcHBwcHBwcHBHB7BwcHBwcHBwcHBwcHBwcGh''"
    by (simp add: number_toString_version js_def)
  have am: "atob ?P ?m = Inr (fromCharCode ?cipher)"
    using browser_atob_encode [of ?cipher] empty_object_message
    by (simp add: browser_btoa_bytes)
  have ak: "atob ?P ?k = Inr (fromCharCode ?keys)"
    using browser_atob_encode [of ?keys] empty_object_key
    by (simp add: browser_btoa_bytes)
  have ne: "?m \<noteq> []" by (simp add: js_def)
  have em: "base64_encode (map unat ?cipher) = ?m"
    using empty_object_message unfolding browser_btoa_bytes by (simp only: sum.inject)
  have "\<forall>n\<in>set (map unat ?cipher). n < 256" using unat_byte_less by auto
  from base64_encode_plain [OF this] have lt: "\<forall>ch\<in>set ?m. \<not> line_terminator ch"
    unfolding em by blast
  have rv: "read_version (number_toString 2 @ js ''$'' @ ?m) = (?m, 2)"
    by (rule read_version_prefixed [OF _ ne lt]) simp
  have dr: "decrypt_rsa ?P (PrivateKey (js ''n0'')) ?keys = Inr (replicate 12 0 @ replicate 32 45)"
    by (simp add: fromAscii_def)
  have i: "importKey_raw ?P AES_GCM (replicate 32 45) = Inr (SymKey AES_GCM (replicate 32 45))"
    by simp
  from e have "demo_encrypt AES_GCM (map (random_byte ?P) [33 ..< 33 + 12])
      (SymKey AES_GCM (replicate 32 45)) ?plain = Inr ?cipher"
    by (simp only: demo_platform_simps)
  then have "demo_decrypt AES_GCM (map (random_byte ?P) [33 ..< 33 + 12])
      (SymKey AES_GCM (replicate 32 45)) ?cipher = Inr ?plain"
    by (rule demo_decrypt_encrypt)
  then have d: "decrypt_sym ?P AES_GCM (replicate 12 0) (SymKey AES_GCM (replicate 32 45)) ?cipher
      = Inr ?plain"
    unfolding iv by (simp only: demo_platform_simps)
  have ch: "object_chain ?P (crypto demo_world1) AES_GCM 12 (fromAscii (fromCharCode ?keys))
      (fromAscii (fromCharCode ?cipher)) = Inl (Error ''BufferTools.toObject(): Invalid arguments'')"
  proof -
    have l: "length (replicate 12 (0 :: byte)) = 12" by simp
    have a: "fromCharCode_apply ?P ?plain = Inr (fromCharCode ?plain)"
      by (simp add: fromCharCode_apply_def)
    show ?thesis
      unfolding fromAscii_fromCharCode object_chain_eq [OF demo_world1_keys(2) dr l i d]
      by (simp only: toObject_def a empty_object_text option.case sum.case)
  qed
  have dec: "decryptObject ?P (crypto demo_world1) ?k (number_toString 2 @ js ''$'' @ ?m)
      = Rejected (Error ''BufferTools.toObject(): Invalid arguments'')"
    unfolding decryptObject_eq [OF ci demo_world1_keys(1) ak rv am c] ch
    by (simp add: Error_def)
  have "demo_stringify (Obj []) = js ''{}''" "demo_parse (js ''{}'') = Inr (Obj [])"
    by code_simp+
  then have st: "JSON_stringify ?P (Obj []) = js ''{}''" "JSON_parse ?P (js ''{}'') = Inr (Obj [])"
    by simp_all
  from enc dec st demo_world1_keys(1) show ?thesis unfolding msg by simp
qed

section \<open>An import that succeeds on the platform of the examples\<close>

text \<open>
  The private key of the session \<open>demo_world1\<close>, exported as a JSON Web Key, encrypted
  with the password \<open>ab\<close> and given to \<open>importPrivateKey\<close> with that password in a
  new session: the import resolves with \<open>true\<close> and the session holds the key-pair.
\<close>

lemma demo_jwk_text:
  "demo_stringify (Obj [(js ''data'', demo_stringify demo_jwk)]) =
     0x7B # butlast (tl (demo_stringify (Obj [(js ''data'', demo_stringify demo_jwk)]))) @ [0x7D]"
  "butlast (tl (demo_stringify (Obj [(js ''data'', demo_stringify demo_jwk)]))) \<noteq> []"
  "list_all (\<lambda>c. c < 0x100 \<and> \<not> line_terminator c)
     (butlast (tl (demo_stringify (Obj [(js ''data'', demo_stringify demo_jwk)]))))"
  "demo_parse (demo_stringify (Obj [(js ''data'', demo_stringify demo_jwk)]))
     = Inr (Obj [(js ''data'', demo_stringify demo_jwk)])"
  "demo_parse (demo_stringify demo_jwk) = Inr demo_jwk"
  by code_simp+

lemma demo_jwk_length: "length (demo_stringify (Obj [(js ''data'', demo_stringify demo_jwk)])) = 68"
  by code_simp

lemma demo_import_succeeds:
  "exportKey_jwk (demo_platform stream_up) (PrivateKey (js ''n0'')) = Inr demo_jwk
   \<and> (\<exists>enc w'.
         encryptData (demo_platform stream_up) 1 (JSON_stringify (demo_platform stream_up) demo_jwk)
           (js ''ab'') 2 = Resolved enc
       \<and> importPrivateKey (demo_platform stream_up) (priv_prefix @ enc) (js ''ab'') demo_world0
           = (Resolved True, w')
       \<and> hasKeyPair (crypto w')
       \<and> privateKey (crypto w') = Some (PrivateKey (js ''n0''))
       \<and> publicKey (crypto w') = Some (PublicKey (js ''n0'')))"
proof -
  let ?P = "demo_platform stream_up"
  let ?S = "demo_stringify demo_jwk"
  have pw: "js ''ab'' \<noteq> []" by (simp add: js_def)
  have x: "exportKey_jwk ?P (PrivateKey (js ''n0'')) = Inr demo_jwk"
    by (simp add: demo_jwk_def)
  from demo_encryptData_resolves [OF pw, of 2 stream_up 1 ?S] obtain enc where
    enc: "encryptData ?P 1 ?S (js ''ab'') 2 = Resolved enc"
    by auto
  have dec: "decryptData ?P enc (js ''ab'') = Resolved (Some ?S)"
  proof (rule encryptData_decryptData [OF enc])
    fix sAlgo iv sKey buf e
    assume "encrypt_sym ?P sAlgo iv sKey buf = Inr e"
    then show "decrypt_sym ?P sAlgo iv sKey e = Inr buf"
      by (simp add: demo_decrypt_encrypt)
  next
    show "JSON_stringify ?P (data_object ?P ?S) =
        0x7B # butlast (tl (demo_stringify (Obj [(js ''data'', ?S)]))) @ [0x7D]"
      using demo_jwk_text(1) by simp
    show "butlast (tl (demo_stringify (Obj [(js ''data'', ?S)]))) \<noteq> []"
      by (rule demo_jwk_text(2))
    show "\<forall>c\<in>set (butlast (tl (demo_stringify (Obj [(js ''data'', ?S)])))).
        c < 0x100 \<and> \<not> line_terminator c"
      using demo_jwk_text(3) by (simp only: list_all_iff)
    show "JSON_parse ?P (JSON_stringify ?P (data_object ?P ?S)) = Inr (data_object ?P ?S)"
      using demo_jwk_text(4) by simp
    show "data_of ?P (data_object ?P ?S) = Some ?S"
      by (simp add: demo_data_def js_def)
    have "JSON_stringify ?P (data_object ?P ?S) = demo_stringify (Obj [(js ''data'', ?S)])"
      by simp
    then show "int (length (JSON_stringify ?P (data_object ?P ?S)) + 128) \<le> max_arguments ?P"
      by (simp only: demo_jwk_length demo_platform_simps)
  qed
  define ks where "ks = \<lparr>k_public = Some (PublicKey (js ''n0'')), k_private = Some (PrivateKey (js ''n0'')),
      k_publicExport = Some (publ_prefix @ js ''n0''), k_privateExport = Some (priv_prefix @ enc)\<rparr>"
  have ik: "import_keys ?P (priv_prefix @ enc) ?S = Inr ks"
    unfolding import_keys_def ks_def
    using length_prefixes(1)
    by (simp add: demo_jwk_text(5) and_then_def) (simp add: demo_jwk_def demo_importKey_jwk_def js_def)
  have g: "take 16 (priv_prefix @ enc) = priv_prefix" "drop 16 (priv_prefix @ enc) = enc"
    using length_prefixes(2) by simp_all
  have imp: "importPrivateKey ?P (priv_prefix @ enc) (js ''ab'') demo_world0 =
      (Resolved True,
       set_keys ks (demo_world0\<lparr>db := writeItem (accessPath (crypto demo_world0)) ks (db demo_world0)\<rparr>))"
    unfolding importPrivateKey_def g dec
    using pw demo_available [of stream_up] by (simp add: ik)
  have k: "hasKeyPair (crypto (set_keys ks
        (demo_world0\<lparr>db := writeItem (accessPath (crypto demo_world0)) ks (db demo_world0)\<rparr>)))"
    "privateKey (crypto (set_keys ks
        (demo_world0\<lparr>db := writeItem (accessPath (crypto demo_world0)) ks (db demo_world0)\<rparr>)))
      = Some (PrivateKey (js ''n0''))"
    "publicKey (crypto (set_keys ks
        (demo_world0\<lparr>db := writeItem (accessPath (crypto demo_world0)) ks (db demo_world0)\<rparr>)))
      = Some (PublicKey (js ''n0''))"
    by (simp_all add: set_keys_def hasKeyPair_def ks_def)
  from enc have enc': "encryptData ?P 1 (JSON_stringify ?P demo_jwk) (js ''ab'') 2 = Resolved enc"
    by simp
  from x enc' imp k show ?thesis by blast
qed

end
